(* ===== verification/Prelude.thy ===== *)
theory Prelude
  imports Main "HOL-Library.Word" "HOL-Library.Monad_Syntax"
begin

text \<open>
  The vocabulary the components of the shfs model share: the constants of the headers, the
  C integer conversions, byte buffers, C strings, decimal and octal printing, the kernel's
  \<open>simple_strtoul\<close>, and the lemmas about them that every component uses. The machine modelled
  is a 64-bit Linux (LP64) with pages of 4096 bytes: \<open>unsigned\<close> has 32 bits and
  \<open>unsigned long\<close> 64.
\<close>

unbundle bit_operations_syntax

named_theorems buf_simps \<open>facts on byte buffers: lengths, blits, slices\<close>
named_theorems text_simps \<open>facts on C strings, numbers as text and quoting\<close>

text \<open>A computation that answers went through its first step.\<close>

lemma bind_SomeE:
  assumes "x \<bind> f = Some y" obtains a where "x = Some a" "f a = Some y"
  using assms by (cases x) auto

section \<open>Constants\<close>

abbreviation PAGE_SIZE :: nat where "PAGE_SIZE \<equiv> 4096"

abbreviation SHFS_PATH_MAX :: nat where "SHFS_PATH_MAX \<equiv> 512"
abbreviation SOCKBUF_SIZE :: nat where "SOCKBUF_SIZE \<equiv> 5120"
abbreviation READLNBUF_SIZE :: nat where "READLNBUF_SIZE \<equiv> 5120"
abbreviation (input) SHFS_FCACHE_MAX :: int where "SHFS_FCACHE_MAX \<equiv> 10"
abbreviation SHFS_FCACHE_PAGES :: nat where "SHFS_FCACHE_PAGES \<equiv> 32"
abbreviation SHFS_DEFAULT_TTL :: int where "SHFS_DEFAULT_TTL \<equiv> 20000"
abbreviation (input) PROTO_VERSION :: int where "PROTO_VERSION \<equiv> 2"
abbreviation SHFS_SUPER_MAGIC :: nat where "SHFS_SUPER_MAGIC \<equiv> 53456"

text \<open>Response codes of the remote side (\<open>shfs.h\<close>).\<close>

abbreviation REP_PRELIM :: int where "REP_PRELIM \<equiv> 100"
abbreviation REP_COMPLETE :: int where "REP_COMPLETE \<equiv> 200"
abbreviation REP_NOP :: int where "REP_NOP \<equiv> 201"
abbreviation REP_NOTEMPTY :: int where "REP_NOTEMPTY \<equiv> 202"
abbreviation REP_ERROR :: int where "REP_ERROR \<equiv> 500"
abbreviation REP_EPERM :: int where "REP_EPERM \<equiv> 501"
abbreviation REP_ENOSPC :: int where "REP_ENOSPC \<equiv> 502"
abbreviation REP_ENOENT :: int where "REP_ENOENT \<equiv> 503"

text \<open>The lines the servers answer with.\<close>

abbreviation NL :: char where "NL \<equiv> CHR 0x0A"
abbreviation PRELIM :: string where "PRELIM \<equiv> ''### 100'' @ [NL]"
abbreviation COMPLETE :: string where "COMPLETE \<equiv> ''### 200'' @ [NL]"
abbreviation NOP :: string where "NOP \<equiv> ''### 201'' @ [NL]"
abbreviation NOTEMPTY :: string where "NOTEMPTY \<equiv> ''### 202'' @ [NL]"
abbreviation ERROR :: string where "ERROR \<equiv> ''### 500'' @ [NL]"
abbreviation PERL_EPERM :: string where "PERL_EPERM \<equiv> ''### 501'' @ [NL]"
abbreviation PERL_ENOENT :: string where "PERL_ENOENT \<equiv> ''### 503'' @ [NL]"

text \<open>The \<open>errno\<close> values the module returns, negated.\<close>

abbreviation (input) EPERM :: int where "EPERM \<equiv> 1"
abbreviation (input) ENOENT :: int where "ENOENT \<equiv> 2"
abbreviation (input) EINTR :: int where "EINTR \<equiv> 4"
abbreviation (input) EIO :: int where "EIO \<equiv> 5"
abbreviation (input) EAGAIN :: int where "EAGAIN \<equiv> 11"
abbreviation (input) EACCES :: int where "EACCES \<equiv> 13"
abbreviation (input) EINVAL :: int where "EINVAL \<equiv> 22"
abbreviation (input) ENOSPC :: int where "ENOSPC \<equiv> 28"
abbreviation (input) EROFS :: int where "EROFS \<equiv> 30"
abbreviation (input) EPIPE :: int where "EPIPE \<equiv> 32"
abbreviation (input) ENAMETOOLONG :: int where "ENAMETOOLONG \<equiv> 36"

text \<open>File modes (\<open>umode_t\<close> has 16 bits); the numerals are the octal ones of \<open>stat.h\<close>.\<close>

type_synonym umode = "16 word"

abbreviation S_IFMT :: umode where "S_IFMT \<equiv> 0xF000"
abbreviation S_IFSOCK :: umode where "S_IFSOCK \<equiv> 0xC000"
abbreviation S_IFLNK :: umode where "S_IFLNK \<equiv> 0xA000"
abbreviation S_IFREG :: umode where "S_IFREG \<equiv> 0x8000"
abbreviation S_IFBLK :: umode where "S_IFBLK \<equiv> 0x6000"
abbreviation S_IFDIR :: umode where "S_IFDIR \<equiv> 0x4000"
abbreviation S_IFCHR :: umode where "S_IFCHR \<equiv> 0x2000"
abbreviation S_IFIFO :: umode where "S_IFIFO \<equiv> 0x1000"
abbreviation S_ISUID :: umode where "S_ISUID \<equiv> 0x800"
abbreviation S_ISGID :: umode where "S_ISGID \<equiv> 0x400"
abbreviation S_ISVTX :: umode where "S_ISVTX \<equiv> 0x200"
abbreviation S_IRUSR :: umode where "S_IRUSR \<equiv> 0x100"
abbreviation S_IWUSR :: umode where "S_IWUSR \<equiv> 0x80"
abbreviation S_IXUSR :: umode where "S_IXUSR \<equiv> 0x40"
abbreviation S_IRGRP :: umode where "S_IRGRP \<equiv> 0x20"
abbreviation S_IWGRP :: umode where "S_IWGRP \<equiv> 0x10"
abbreviation S_IXGRP :: umode where "S_IXGRP \<equiv> 0x8"
abbreviation S_IROTH :: umode where "S_IROTH \<equiv> 0x4"
abbreviation S_IWOTH :: umode where "S_IWOTH \<equiv> 0x2"
abbreviation S_IXOTH :: umode where "S_IXOTH \<equiv> 0x1"
abbreviation S_IRWXUGO :: umode where "S_IRWXUGO \<equiv> 0x1FF"
abbreviation S_IALLUGO :: umode where "S_IALLUGO \<equiv> 0xFFF"

definition S_ISDIR :: "umode \<Rightarrow> bool" where "S_ISDIR m \<longleftrightarrow> m AND S_IFMT = S_IFDIR"
definition S_ISREG :: "umode \<Rightarrow> bool" where "S_ISREG m \<longleftrightarrow> m AND S_IFMT = S_IFREG"
definition S_ISLNK :: "umode \<Rightarrow> bool" where "S_ISLNK m \<longleftrightarrow> m AND S_IFMT = S_IFLNK"

section \<open>C integers\<close>

text \<open>\<open>u32\<close> and \<open>u64\<close> convert to the unsigned types, \<open>s32\<close> to \<open>int\<close> (two's complement).\<close>

definition u32 :: "int \<Rightarrow> nat" where "u32 i = nat (i mod 4294967296)"
definition u64 :: "int \<Rightarrow> nat" where "u64 i = nat (i mod 18446744073709551616)"
definition s32 :: "int \<Rightarrow> int" where
  "s32 i = (let m = i mod 4294967296 in if m < 2147483648 then m else m - 4294967296)"

lemma u32_id: "0 \<le> i \<Longrightarrow> i < 4294967296 \<Longrightarrow> u32 i = nat i"
  by (simp add: u32_def)

lemma u32_int [simp]: "n < 4294967296 \<Longrightarrow> u32 (int n) = n"
  by (simp add: u32_id)

lemma u32_add [simp]: "m + n < 4294967296 \<Longrightarrow> u32 (int m + int n) = m + n"
  by (simp add: u32_id nat_int_add)

lemma u32_diff [simp]: "n \<le> m \<Longrightarrow> m < 4294967296 \<Longrightarrow> u32 (int m - int n) = m - n"
  by (simp add: u32_id nat_diff_distrib)

lemma u32_mult_num [simp]: "m * numeral k < 4294967296 \<Longrightarrow> u32 (int m * numeral k) = m * numeral k"
  using u32_int [of "m * numeral k"] by simp

lemma u64_int [simp]: "n < 18446744073709551616 \<Longrightarrow> u64 (int n) = n"
  by (simp add: u64_def)

lemma u32_lt [simp]: "u32 i < 4294967296"
  by (simp add: u32_def nat_less_iff)

lemma s32_id [simp]: "- 2147483648 \<le> i \<Longrightarrow> i < 2147483648 \<Longrightarrow> s32 i = i"
proof (cases "0 \<le> i")
  case True
  moreover assume "i < 2147483648"
  ultimately show ?thesis by (simp add: s32_def Let_def)
next
  case False
  assume "- 2147483648 \<le> i"
  with False have "(i + 4294967296) mod 4294967296 = i + 4294967296"
    by (intro mod_pos_pos_trivial) simp_all
  with False show ?thesis using \<open>- 2147483648 \<le> i\<close> by (simp add: s32_def Let_def)
qed

lemma s32_bounds: "- 2147483648 \<le> s32 i" "s32 i < 2147483648"
  by (simp_all add: s32_def Let_def)
    (use pos_mod_bound [of 4294967296 i] pos_mod_sign [of 4294967296 i] in linarith)+

section \<open>Byte buffers\<close>

text \<open>
  A C buffer is the list of its bytes. \<open>blit dst i src\<close> is \<open>memcpy(dst + i, src, n)\<close> with \<open>src\<close>
  the \<open>n\<close> bytes copied. It is in bounds exactly when it keeps the length
  (\<open>blit_length_iff\<close>), so a component proves memory safety as preservation of the length.
\<close>

definition blit :: "string \<Rightarrow> nat \<Rightarrow> string \<Rightarrow> string" where
  "blit dst i src = take i dst @ src @ drop (i + length src) dst"

lemma blit_length [buf_simps]: "i + length src \<le> length dst \<Longrightarrow> length (blit dst i src) = length dst"
  by (simp add: blit_def)

lemma blit_length_iff:
  "i \<le> length dst \<Longrightarrow> src \<noteq> [] \<Longrightarrow>
    length (blit dst i src) = length dst \<longleftrightarrow> i + length src \<le> length dst"
  by (cases src) (auto simp: blit_def)

lemma blit_nth [buf_simps]:
  "i + length src \<le> length dst \<Longrightarrow> k < length dst \<Longrightarrow>
    blit dst i src ! k = (if i \<le> k \<and> k < i + length src then src ! (k - i) else dst ! k)"
  by (auto simp: blit_def nth_append min_def not_less)

lemma blit_Nil [simp]: "i \<le> length dst \<Longrightarrow> blit dst i [] = dst"
  by (simp add: blit_def)

lemma take_blit_end [buf_simps]:
  "i + length src \<le> length dst \<Longrightarrow> take (i + length src) (blit dst i src) = take i dst @ src"
  by (simp add: blit_def)

text \<open>Slices of a function on positions: the bytes at \<open>[off, off + n)\<close> of a file.\<close>

definition fslice :: "(nat \<Rightarrow> char) \<Rightarrow> nat \<Rightarrow> nat \<Rightarrow> string" where
  "fslice f off n = map f [off..<off + n]"

definition patch :: "(nat \<Rightarrow> char) \<Rightarrow> nat \<Rightarrow> string \<Rightarrow> nat \<Rightarrow> char" where
  "patch f off bs = (\<lambda>i. if off \<le> i \<and> i < off + length bs then bs ! (i - off) else f i)"

lemma length_fslice [simp, buf_simps]: "length (fslice f off n) = n"
  by (simp add: fslice_def)

lemma nth_fslice [buf_simps]: "k < n \<Longrightarrow> fslice f off n ! k = f (off + k)"
  by (simp add: fslice_def)

lemma fslice_append [buf_simps]: "fslice f off (m + n) = fslice f off m @ fslice f (off + m) n"
  using upt_add_eq_append [of off "off + m" n] by (simp add: fslice_def add.assoc)

lemma take_fslice [buf_simps]: "take k (fslice f off n) = fslice f off (min k n)"
  by (cases "k \<le> n") (simp_all add: fslice_def take_map min_def)

lemma drop_fslice [buf_simps]: "drop k (fslice f off n) = fslice f (off + k) (n - k)"
  by (cases "k \<le> n") (simp_all add: fslice_def drop_map)

lemma fslice_0 [simp]: "fslice f off 0 = []"
  by (simp add: fslice_def)

lemma fslice_eqI: "length bs = n \<Longrightarrow> (\<And>k. k < n \<Longrightarrow> bs ! k = f (off + k)) \<Longrightarrow> bs = fslice f off n"
  by (rule nth_equalityI) (auto simp: buf_simps)

lemma fslice_cong: "(\<And>k. k < n \<Longrightarrow> f (off + k) = g (off + k)) \<Longrightarrow> fslice f off n = fslice g off n"
  by (rule nth_equalityI) (auto simp: buf_simps)

lemma patch_Nil [simp]: "patch f off [] = f"
  by (rule ext) (auto simp: patch_def)

lemma patch_append: "patch (patch f off as) (off + length as) bs = patch f off (as @ bs)"
  by (rule ext) (auto simp: patch_def nth_append)

lemma patch_fslice: "fslice (patch f off bs) off (length bs) = bs"
  by (rule nth_equalityI) (auto simp: buf_simps patch_def)

lemma patch_self [simp]: "patch f off (fslice f off n) = f"
  by (rule ext) (auto simp: patch_def buf_simps)

lemma patch_overwrite:
  "off \<le> i \<Longrightarrow> i \<le> off + length cs \<Longrightarrow>
    patch f off (take (i - off) cs @ bs @ drop (i - off + length bs) cs) = patch (patch f off cs) i bs"
  by (rule ext) (auto simp: patch_def nth_append)

section \<open>C strings\<close>

abbreviation NUL :: char where "NUL \<equiv> CHR 0x00"
abbreviation SP :: char where "SP \<equiv> CHR 0x20"
abbreviation QUOTE :: char where "QUOTE \<equiv> CHR 0x27"
abbreviation BSLASH :: char where "BSLASH \<equiv> CHR 0x5C"

text \<open>\<open>c_str s\<close> is the C string at the start of the bytes \<open>s\<close>: up to the first NUL.\<close>

definition c_str :: "string \<Rightarrow> string" where
  "c_str s = takeWhile (\<lambda>c. c \<noteq> NUL) s"

text \<open>\<open>strncmp (s, p, strlen (p)) == 0\<close>.\<close>

definition starts_with :: "string \<Rightarrow> string \<Rightarrow> bool" where
  "starts_with p s \<longleftrightarrow> take (length p) s = p"

text \<open>\<open>strsep\<close> on one separator: the token, and what is left of the string (None: exhausted).\<close>

definition strsep :: "char \<Rightarrow> string \<Rightarrow> string \<times> string option" where
  "strsep d s = (takeWhile (\<lambda>c. c \<noteq> d) s,
     (case dropWhile (\<lambda>c. c \<noteq> d) s of [] \<Rightarrow> None | _ # r \<Rightarrow> Some r))"

fun split_on :: "char \<Rightarrow> string \<Rightarrow> string list" where
  "split_on d [] = [[]]"
| "split_on d (c # s) =
    (if c = d then [] # split_on d s
     else case split_on d s of [] \<Rightarrow> [[c]] | t # ts \<Rightarrow> (c # t) # ts)"

lemma c_str_id [text_simps]: "NUL \<notin> set s \<Longrightarrow> c_str s = s"
  by (simp add: c_str_def takeWhile_eq_all_conv) blast

lemma c_str_append_NUL [text_simps]: "NUL \<notin> set s \<Longrightarrow> c_str (s @ NUL # r) = s"
  by (induction s) (auto simp: c_str_def)

lemma c_str_no_NUL [simp]: "NUL \<notin> set (c_str s)"
  by (auto simp: c_str_def dest: set_takeWhileD)

lemma starts_with_append [text_simps]: "starts_with p (p @ s)"
  by (simp add: starts_with_def)

lemma starts_withE: "starts_with p s \<Longrightarrow> (\<And>r. s = p @ r \<Longrightarrow> P) \<Longrightarrow> P"
  by (metis append_take_drop_id starts_with_def)

lemma split_on_nonempty [simp]: "split_on d s \<noteq> []"
  by (induction s) (auto split: list.splits)

lemma split_on_strsep:
  "split_on d s = (case strsep d s of (t, None) \<Rightarrow> [t] | (t, Some r) \<Rightarrow> t # split_on d r)"
  by (induction s) (auto simp: strsep_def split: list.splits)

lemma split_on_no_sep: "t \<in> set (split_on d s) \<Longrightarrow> d \<notin> set t"
  by (induction s arbitrary: t) (auto split: if_splits list.splits)

section \<open>Numbers as text\<close>

text \<open>\<open>%u\<close>, \<open>%lu\<close> and \<open>%o\<close> print \<open>num_text b\<close> of the value, most significant digit first.\<close>

definition digit_char :: "nat \<Rightarrow> char" where
  "digit_char d = char_of (48 + d)"

definition digit_val :: "char \<Rightarrow> nat" where
  "digit_val c = of_char c - 48"

definition isdigit :: "char \<Rightarrow> bool" where
  "isdigit c \<longleftrightarrow> 48 \<le> (of_char c :: nat) \<and> (of_char c :: nat) \<le> 57"

fun num_text :: "nat \<Rightarrow> nat \<Rightarrow> string" where
  "num_text b n = (if b \<le> 1 \<or> n < b then [digit_char n] else num_text b (n div b) @ [digit_char (n mod b)])"

declare num_text.simps [simp del]

abbreviation dec :: "nat \<Rightarrow> string" where "dec \<equiv> num_text 10"
abbreviation oct :: "nat \<Rightarrow> string" where "oct \<equiv> num_text 8"

text \<open>\<open>simple_strtoul (s, NULL, 10)\<close>: the value of the leading digits, in an \<open>unsigned long\<close>.\<close>

definition strtoul :: "string \<Rightarrow> nat" where
  "strtoul s = u64 (int (foldl (\<lambda>a c. a * 10 + digit_val c) 0 (takeWhile isdigit s)))"

definition strtoul_end :: "string \<Rightarrow> string" where
  "strtoul_end s = dropWhile isdigit s"

lemma of_char_digit: "d < 10 \<Longrightarrow> of_char (digit_char d) = 48 + d"
  by (simp add: digit_char_def of_char_of)

lemma isdigit_digit_char [text_simps]: "d < 10 \<Longrightarrow> isdigit (digit_char d)"
  by (simp add: isdigit_def of_char_digit)

lemma digit_val_digit_char [text_simps]: "d < 10 \<Longrightarrow> digit_val (digit_char d) = d"
  by (simp add: digit_val_def of_char_digit)

lemma num_text_nonempty [simp]: "num_text b n \<noteq> []"
  by (subst num_text.simps) simp

lemma dec_digits: "c \<in> set (dec n) \<Longrightarrow> isdigit c"
proof (induction "10 :: nat" n rule: num_text.induct)
  case (1 n)
  show ?case
  proof (cases "n < 10")
    case True
    with 1 show ?thesis by (simp add: num_text.simps [of 10 n] isdigit_digit_char)
  next
    case False
    with 1 show ?thesis by (auto simp: num_text.simps [of 10 n] isdigit_digit_char)
  qed
qed

lemma foldl_dec: "foldl (\<lambda>a c. a * 10 + digit_val c) 0 (dec n) = n"
proof (induction "10 :: nat" n rule: num_text.induct)
  case (1 n)
  then show ?case
    by (cases "n < 10") (simp_all add: num_text.simps [of 10 n] digit_val_digit_char)
qed

lemma strtoul_dec [text_simps]:
  assumes "n < 18446744073709551616" and "rest = [] \<or> \<not> isdigit (hd rest)"
  shows "strtoul (dec n @ rest) = n" and "strtoul_end (dec n @ rest) = rest"
proof -
  have "takeWhile isdigit (dec n @ rest) = dec n @ takeWhile isdigit rest"
    by (rule takeWhile_append2) (auto dest: dec_digits)
  moreover have "takeWhile isdigit rest = []"
    using assms(2) by (cases rest) auto
  ultimately have tw: "takeWhile isdigit (dec n @ rest) = dec n" by simp
  with assms(1) show "strtoul (dec n @ rest) = n"
    by (simp add: strtoul_def foldl_dec u64_def)
  from tw show "strtoul_end (dec n @ rest) = rest"
    by (metis append_eq_conv_conj dropWhile_eq_drop strtoul_end_def)
qed

lemma dec_length: "n < 10 ^ k \<Longrightarrow> 0 < k \<Longrightarrow> length (dec n) \<le> k"
proof (induction k arbitrary: n)
  case 0
  then show ?case by simp
next
  case (Suc k)
  show ?case
  proof (cases "n < 10")
    case True
    then show ?thesis by (simp add: num_text.simps [of 10 n])
  next
    case False
    with Suc.prems have "0 < k" "n div 10 < 10 ^ k"
      by (cases k; simp add: less_mult_imp_div_less mult.commute)+
    with Suc.IH False show ?thesis by (simp add: num_text.simps [of 10 n])
  qed
qed

lemma dec_chars: "c \<in> set (dec n) \<Longrightarrow> c \<noteq> SP \<and> c \<noteq> NL \<and> c \<noteq> QUOTE \<and> c \<noteq> BSLASH \<and> c \<noteq> NUL"
  by (drule dec_digits) (auto simp: isdigit_def)

end
