(* ===== verification/World.thy ===== *)
theory World
  imports Prelude
begin

text \<open>
  The structures of the headers \<open>shfs.h\<close>, \<open>shfs_fs_sb.h\<close> and \<open>shfs_fs_i.h\<close>, and the state the
  module runs in. The kernel outside the module (the socket's \<open>struct file\<close>, the allocator,
  the clock) enters as parameters: a type variable \<open>'f\<close> for the state behind the socket's
  \<open>struct file\<close>, and records of functions.
\<close>

section \<open>File attributes\<close>

record timespec =
  tv_sec :: int
  tv_nsec :: int

record shfs_fattr =
  f_ino :: nat
  f_mode :: umode
  f_nlink :: nat
  f_uid :: nat
  f_gid :: nat
  f_rdev :: nat
  f_size :: nat
  f_atime :: timespec
  f_mtime :: timespec
  f_ctime :: timespec
  f_blksize :: nat
  f_blocks :: nat

record kstatfs =
  st_type :: nat
  st_bsize :: nat
  st_blocks :: nat
  st_bfree :: nat
  st_bavail :: nat
  st_files :: nat
  st_namelen :: nat

section \<open>The super block\<close>

text \<open>
  \<open>struct shfs_sb_info\<close>. \<open>shfs_mutex\<close> says whether the lock is held. \<open>sock\<close> is the open file
  together with the state behind it, so that \<open>fput\<close> and \<open>info->sock = NULL\<close> is \<open>None\<close>.
  \<open>readlnbuf\<close> holds the \<open>readlnbuf_len\<close> valid bytes of the line buffer. The scratch buffer
  \<open>sockbuf\<close> is rewritten from its start by every command and is a local value of the
  operations; the table \<open>fops\<close> is an argument of the operations that call through it.
\<close>

record 'f sb_info =
  shfs_mutex :: bool
  version :: int
  ttl :: int
  uid :: nat
  gid :: nat
  root_mode :: umode
  fmask :: umode
  mount_point :: string
  sock :: "'f option"
  readlnbuf :: string
  fcache_free :: int
  fcache_size :: int
  garbage_read :: int
  garbage_write :: int
  garbage :: bool
  readonly :: bool
  preserve_own :: bool
  stable_symlinks :: bool

text \<open>
  The world of an operation: the super block, and of the running task the credentials, the
  pending \<open>SIGPIPE\<close>, whether a signal waits that interrupts a sleep, and the clock. The
  globals \<open>debug_level\<close> is here too.
\<close>

record 'f world = "'f sb_info" +
  cur_uid :: nat
  cur_groups :: "nat list"
  sigpipe :: bool
  signalled :: bool
  now :: nat
  debug_level :: int

text \<open>
  The kernel's synchronous file I/O on the socket. \<open>do_sync_write\<close> gets the bytes and answers
  the result, whether \<open>SIGPIPE\<close> was raised, and the file's new state; \<open>do_sync_read\<close> gets the
  size of the buffer and answers the result, the bytes stored and the new state. \<open>f_pos\<close> is
  the position the kernel keeps in the file.
\<close>

record 'f sockops =
  do_sync_write :: "'f \<Rightarrow> string \<Rightarrow> int \<times> bool \<times> 'f"
  do_sync_read :: "'f \<Rightarrow> nat \<Rightarrow> int \<times> string \<times> 'f"
  f_pos :: "'f \<Rightarrow> int"

section \<open>Inodes, dentries and the operations of the remote side\<close>

text \<open>
  \<open>SHFS_FCACHE_READ\<close> and \<open>SHFS_FCACHE_WRITE\<close>: the state of a file's cache is clean or dirty.
\<close>

datatype fcache_type = FCACHE_READ | FCACHE_WRITE

record shfs_file =
  fc_type :: fcache_type
  fc_new :: bool
  fc_offset :: nat
  fc_count :: nat
  fc_data :: string

record shfs_inode_info =
  oldmtime :: nat
  unset_write_on_close :: bool
  cache :: "shfs_file option"

record inode =
  i_ino :: nat
  i_mode :: umode
  i_nlink :: nat
  i_uid :: nat
  i_gid :: nat
  i_rdev :: nat
  i_size :: nat
  i_blocks :: nat
  i_atime :: timespec
  i_mtime :: timespec
  i_ctime :: timespec
  i_private :: "shfs_inode_info option"

text \<open>
  A dentry is known by the names on its path, from itself up to (but not including) the root,
  and by its inode (None: a negative dentry).
\<close>

record dentry =
  d_names :: "string list"
  d_inode :: "inode option"

text \<open>
  \<open>struct shfs_fileops\<close>: the operations of the remote side. Every path argument is an in-out
  buffer (the callee may rewrite it), so each operation answers the path as it leaves it. The
  outer option is termination: None is a call that does not return.
\<close>

record 'w shfs_fileops =
  op_stat :: "'w \<Rightarrow> string \<Rightarrow> (int \<times> string \<times> shfs_fattr option \<times> 'w) option"
  op_open :: "'w \<Rightarrow> string \<Rightarrow> nat \<Rightarrow> (int \<times> string \<times> 'w) option"
  op_read :: "'w \<Rightarrow> string \<Rightarrow> nat \<Rightarrow> nat \<Rightarrow> nat \<Rightarrow> (int \<times> string \<times> string \<times> 'w) option"
  op_write :: "'w \<Rightarrow> string \<Rightarrow> nat \<Rightarrow> nat \<Rightarrow> string \<Rightarrow> nat \<Rightarrow> (int \<times> string \<times> 'w) option"
  op_mkdir :: "'w \<Rightarrow> string \<Rightarrow> (int \<times> string \<times> 'w) option"
  op_rmdir :: "'w \<Rightarrow> string \<Rightarrow> (int \<times> string \<times> 'w) option"
  op_rename :: "'w \<Rightarrow> string \<Rightarrow> string \<Rightarrow> (int \<times> string \<times> string \<times> 'w) option"
  op_unlink :: "'w \<Rightarrow> string \<Rightarrow> (int \<times> string \<times> 'w) option"
  op_create :: "'w \<Rightarrow> string \<Rightarrow> umode \<Rightarrow> (int \<times> string \<times> 'w) option"
  op_link :: "'w \<Rightarrow> string \<Rightarrow> string \<Rightarrow> (int \<times> string \<times> string \<times> 'w) option"
  op_symlink :: "'w \<Rightarrow> string \<Rightarrow> string \<Rightarrow> (int \<times> string \<times> string \<times> 'w) option"
  op_readlink :: "'w \<Rightarrow> string \<Rightarrow> string \<Rightarrow> (int \<times> string \<times> string \<times> 'w) option"
  op_chmod :: "'w \<Rightarrow> string \<Rightarrow> umode \<Rightarrow> (int \<times> string \<times> 'w) option"
  op_chown :: "'w \<Rightarrow> string \<Rightarrow> nat \<Rightarrow> (int \<times> string \<times> 'w) option"
  op_chgrp :: "'w \<Rightarrow> string \<Rightarrow> nat \<Rightarrow> (int \<times> string \<times> 'w) option"
  op_trunc :: "'w \<Rightarrow> string \<Rightarrow> nat \<Rightarrow> (int \<times> string \<times> 'w) option"
  op_settime :: "'w \<Rightarrow> string \<Rightarrow> bool \<Rightarrow> bool \<Rightarrow> timespec \<Rightarrow> (int \<times> string \<times> 'w) option"
  op_statfs :: "'w \<Rightarrow> (int \<times> kstatfs \<times> 'w) option"
  op_finish :: "'w \<Rightarrow> (int \<times> 'w) option"

section \<open>The path of a dentry\<close>

text \<open>
  \<open>get_name\<close> (\<open>proc.c\<close>): the path from the root, written from its end backwards into the
  caller's buffer. The first loop adds up the lengths, the second copies the names. The
  result is 0 when the path does not fit, and the buffer is then untouched (None).
\<close>

fun path_len :: "string list \<Rightarrow> nat" where
  "path_len [] = 0"
| "path_len (n # ns) = length n + 1 + path_len ns"

fun path_fill :: "string list \<Rightarrow> nat \<Rightarrow> string \<Rightarrow> string" where
  "path_fill [] len name = name"
| "path_fill (n # ns) len name =
    (let len1 = len - length n; name1 = blit name len1 n; len2 = len1 - 1
     in path_fill ns len2 (name1[len2 := CHR ''/'']))"

definition get_name :: "string list \<Rightarrow> string \<Rightarrow> int \<times> string" where
  "get_name ns name =
    (let len = path_len ns in
     if len + 1 > SHFS_PATH_MAX then (0, name)
     else if len = 0 then (1, name[0 := CHR ''/'', 1 := NUL])
     else (1, path_fill ns len (name[len := NUL])))"

text \<open>The reference: the components from the root down, each behind a slash.\<close>

definition path_of :: "string list \<Rightarrow> string" where
  "path_of ns = (if ns = [] then ''/'' else concat (map (\<lambda>n. CHR ''/'' # n) (rev ns)))"

lemma path_len_concat: "path_len ns = length (concat (map (\<lambda>n. CHR ''/'' # n) (rev ns)))"
  by (induction ns) auto

text \<open>What is already written behind the position stays, what is below is filled in.\<close>

lemma path_fill_spec:
  assumes "path_len ns \<le> length name"
  shows "path_fill ns (path_len ns) name =
    concat (map (\<lambda>n. CHR ''/'' # n) (rev ns)) @ drop (path_len ns) name"
  using assms
proof (induction ns arbitrary: name)
  case Nil
  then show ?case by simp
next
  case (Cons n ns)
  let ?p = "path_len ns"
  let ?name1 = "(blit name (Suc ?p) n)[?p := CHR ''/'']"
  have "drop ?p ?name1 = CHR ''/'' # n @ drop (Suc (?p + length n)) name"
    using Cons.prems by (simp add: blit_def list_update_append drop_update_swap
        min_def Cons_nth_drop_Suc [symmetric])
  moreover have "?p \<le> length ?name1"
    using Cons.prems by (simp add: buf_simps)
  ultimately show ?case
    using Cons.IH [of ?name1] by (simp add: Let_def add.commute)
qed

lemma get_name_fits:
  assumes "length name = SHFS_PATH_MAX" and "path_len ns < SHFS_PATH_MAX"
    and "\<And>n. n \<in> set ns \<Longrightarrow> NUL \<notin> set n"
  shows "fst (get_name ns name) = 1" and "c_str (snd (get_name ns name)) = path_of ns"
    and "length (snd (get_name ns name)) = SHFS_PATH_MAX"
proof -
  let ?c = "concat (map (\<lambda>n. CHR ''/'' # n) (rev ns))"
  show "fst (get_name ns name) = 1"
    using assms(2) by (simp add: get_name_def Let_def)
  have nn: "NUL \<notin> set ?c" using assms(3) by auto
  show "c_str (snd (get_name ns name)) = path_of ns"
  proof (cases "ns = []")
    case True
    then obtain a b r where "name = a # b # r"
      using assms(1) by (cases name; cases "tl name") auto
    with True show ?thesis by (simp add: get_name_def path_of_def c_str_def)
  next
    case False
    then have pos: "path_len ns \<noteq> 0" by (cases ns) auto
    have "drop (path_len ns) (name[path_len ns := NUL]) = NUL # drop (Suc (path_len ns)) name"
      using assms by (simp add: drop_update_swap Cons_nth_drop_Suc [symmetric])
    then have "snd (get_name ns name) = ?c @ NUL # drop (Suc (path_len ns)) name"
      using assms pos path_fill_spec [of ns "name[path_len ns := NUL]"]
      by (simp add: get_name_def Let_def)
    with nn False show ?thesis by (simp add: c_str_append_NUL path_of_def)
  qed
  show "length (snd (get_name ns name)) = SHFS_PATH_MAX"
  proof (cases "ns = []")
    case True
    with assms show ?thesis by (simp add: get_name_def)
  next
    case False
    then have "path_len ns \<noteq> 0" by (cases ns) auto
    with assms path_fill_spec [of ns "name[path_len ns := NUL]"] path_len_concat [of ns]
    show ?thesis by (simp add: get_name_def Let_def)
  qed
qed

lemma get_name_too_long: "SHFS_PATH_MAX \<le> path_len ns \<Longrightarrow> get_name ns name = (0, name)"
  by (simp add: get_name_def Let_def)

lemma get_name_not_negative: "0 \<le> fst (get_name ns name)"
  by (simp add: get_name_def Let_def)

text \<open>
  C23: The path of a dentry: it is written whole, with its terminator and inside the buffer, when it
  fits; otherwise nothing is written and the result is 0. It is never negative, which is what
  most callers test for.
\<close>

theorem get_name_result:
  assumes "length name = SHFS_PATH_MAX" and "\<And>n. n \<in> set ns \<Longrightarrow> NUL \<notin> set n"
  shows "if path_len ns < SHFS_PATH_MAX
    then fst (get_name ns name) = 1 \<and> c_str (snd (get_name ns name)) = path_of ns \<and>
      length (snd (get_name ns name)) = SHFS_PATH_MAX
    else get_name ns name = (0, name)"
  using get_name_fits [OF assms(1) _ assms(2)] get_name_too_long [of ns name] by auto

end
