(* ===== verification/ShellText.thy ===== *)
theory ShellText
  imports World "HOL-Library.Signed_Division"
begin

text \<open>
  The text that \<open>shell.c\<close> composes and takes apart: quoted paths, the credentials of a command,
  dates, and the lines of \<open>ls -lan\<close>. Nothing here uses the socket.
\<close>

section \<open>Quoting\<close>

text \<open>
  \<open>replace_quote\<close> works in place in the \<open>SHFS_PATH_MAX\<close> bytes of the path: it moves the string
  to its new end, from the back, and stops when the last quote is done. \<open>quote_fill r s q\<close> is
  its loop, with \<open>r\<close> one more than the index read.
\<close>

fun quote_fill :: "nat \<Rightarrow> nat \<Rightarrow> nat \<Rightarrow> string \<Rightarrow> string" where
  "quote_fill 0 s q name = name"
| "quote_fill (Suc r) s q name =
    (if q = 0 then name
     else if name ! r = QUOTE
       then quote_fill r (s - 4) (q - 1) (blit name (s - 3) [QUOTE, BSLASH, QUOTE, QUOTE])
     else quote_fill r (s - 1) q (name[s := name ! r]))"

definition replace_quote :: "string \<Rightarrow> int \<times> string" where
  "replace_quote name =
    (let r = length (c_str name);
         q = length (filter (\<lambda>c. c = QUOTE) (c_str name));
         s = r + 3 * q
     in if s + 1 > SHFS_PATH_MAX then (- 1, name)
        else (0, quote_fill r (s - 1) q (name[s := NUL])))"

text \<open>
  \<open>check_path\<close>, on the C string of the path; the bytes of the buffer behind it do not matter
  (\<open>replace_quote_spec\<close>).
\<close>

definition check_path :: "string \<Rightarrow> bool \<times> string" where
  "check_path path =
    (case replace_quote (path @ replicate (SHFS_PATH_MAX - length path) NUL) of (r, b) \<Rightarrow>
      (\<not> r < 0, c_str b))"

section \<open>Credentials\<close>

text \<open>\<open>%d\<close>.\<close>

definition sdec :: "int \<Rightarrow> string" where
  "sdec i = (if i < 0 then CHR ''-'' # dec (nat (- i)) else dec (nat i))"

fun ugid_groups :: "int \<Rightarrow> string \<Rightarrow> nat list \<Rightarrow> string option" where
  "ugid_groups room s [] = Some s"
| "ugid_groups room s (g # gs) =
    (let buffer = sdec (s32 (int g)) @ [SP] in
     if int (length s + length buffer + 2) > room then None
     else ugid_groups room (s @ buffer) gs)"

text \<open>What \<open>get_ugid\<close> appends to the command's name, None when \<open>room\<close> bytes do not hold it.\<close>

definition get_ugid :: "'f world \<Rightarrow> int \<Rightarrow> string option" where
  "get_ugid w room =
    (if room < 2 then None
     else if preserve_own w then
       let buffer = sdec (s32 (int (cur_uid w))) @ [SP, QUOTE] in
       if int (1 + length buffer + 1) > room then None
       else do {
         s \<leftarrow> ugid_groups room (SP # buffer) (cur_groups w);
         Some (butlast s @ [QUOTE, SP])
       }
     else Some [SP])"

section \<open>Dates\<close>

text \<open>The clock is in seconds since 1970.\<close>

definition get_this_year :: "nat \<Rightarrow> nat" where
  "get_this_year clock = u32 (int (1970 + u32 (int (clock div (365 * 24 * 3600 + 24 * 3600 div 4)))))"

fun month_scan :: "int \<Rightarrow> int \<Rightarrow> int list \<Rightarrow> int" where
  "month_scan month secs [] = month"
| "month_scan month secs (d # days) =
    (if secs \<ge> 0 then month_scan (month + 1) (secs - 24 * 3600 * d) days else month)"

definition get_this_month :: "nat \<Rightarrow> nat" where
  "get_this_month clock =
    u32 (month_scan (- 1) (int (clock mod (365 * 24 * 3600 + 24 * 3600 div 4)))
      [31, if get_this_year clock mod 4 \<noteq> 0 then 28 else 29, 31, 30, 31, 30, 31, 31, 30, 31, 30, 31])"

definition months :: "string list" where
  "months = [''Jan'', ''Feb'', ''Mar'', ''Apr'', ''May'', ''Jun'', ''Jul'', ''Aug'', ''Sep'',
     ''Oct'', ''Nov'', ''Dec'']"

fun month_index :: "int \<Rightarrow> string \<Rightarrow> string list \<Rightarrow> int" where
  "month_index i mon [] = - 1"
| "month_index i mon (m # ms) = (if mon = m then i else month_index (i + 1) mon ms)"

definition get_month :: "string \<Rightarrow> int" where
  "get_month mon = month_index 0 mon months"

definition isleap :: "int \<Rightarrow> bool" where
  "isleap year \<longleftrightarrow> year smod 4 = 0 \<and> (year smod 100 \<noteq> 0 \<or> year smod 400 = 0)"

definition spm :: "int list" where
  "spm = [0, 31, 59, 90, 120, 151, 181, 212, 243, 273, 304, 334]"

function year_loop :: "int \<Rightarrow> int \<Rightarrow> int \<times> int" where
  "year_loop i work =
    (let k = (if isleap i then 366 else 365)
     in if work \<ge> k then year_loop (i + 1) (work - k) else (i, work))"
  by pat_completeness auto
termination
  by (relation "measure (\<lambda>(i, work). nat work)") (auto split: if_splits)

declare year_loop.simps [simp del]

fun month_loop :: "nat \<Rightarrow> int \<Rightarrow> nat" where
  "month_loop 0 work = 0"
| "month_loop (Suc i) work = (if spm ! Suc i > work then month_loop i work else Suc i)"

text \<open>The date of a day since 1970: year, month from 0, day of the month.\<close>

definition civil :: "int \<Rightarrow> int \<times> nat \<times> int" where
  "civil days =
    (let (i, work) = year_loop 1970 days;
         leap = isleap i \<and> work > 58;
         day = (if leap \<and> work = 59 then 2 else 1);
         work1 = (if leap then work - 1 else work);
         month = month_loop 11 work1
     in (i, month, day + work1 - spm ! month))"

text \<open>\<open>%.nd\<close>: at least \<open>n\<close> digits.\<close>

definition prec :: "nat \<Rightarrow> int \<Rightarrow> string" where
  "prec n i = (let d = dec (nat \<bar>i\<bar>)
     in (if i < 0 then ''-'' else []) @ replicate (n - length d) (CHR ''0'') @ d)"

definition strctime :: "timespec \<Rightarrow> string" where
  "strctime t =
    (let work = tv_sec t smod (24 * 60 * 60);
         sec = work smod 60; work1 = work sdiv 60;
         mins = work1 smod 60; hour = work1 sdiv 60;
         (year, month, day) = civil (tv_sec t sdiv (24 * 60 * 60))
     in prec 4 year @ prec 2 (int month + 1) @ prec 2 day @ prec 2 hour @ prec 2 mins @ ''.'' @ prec 2 sec)"

section \<open>Lines of a directory listing\<close>

abbreviation (input) DIR_COLS :: nat where "DIR_COLS \<equiv> 9"
abbreviation (input) DIR_PERM :: nat where "DIR_PERM \<equiv> 0"
abbreviation (input) DIR_NLINK :: nat where "DIR_NLINK \<equiv> 1"
abbreviation (input) DIR_UID :: nat where "DIR_UID \<equiv> 2"
abbreviation (input) DIR_GID :: nat where "DIR_GID \<equiv> 3"
abbreviation (input) DIR_SIZE :: nat where "DIR_SIZE \<equiv> 4"
abbreviation (input) DIR_MONTH :: nat where "DIR_MONTH \<equiv> 5"
abbreviation (input) DIR_DAY :: nat where "DIR_DAY \<equiv> 6"
abbreviation (input) DIR_YEAR :: nat where "DIR_YEAR \<equiv> 7"
abbreviation (input) DIR_NAME :: nat where "DIR_NAME \<equiv> 8"

text \<open>
  A byte of the buffer; behind the line there are NULs, since \<open>strncpy\<close> pads with them. The
  pointer \<open>s\<close> of the code is an index.
\<close>

definition byte_at :: "string \<Rightarrow> nat \<Rightarrow> char" where
  "byte_at buf i = (if i < length buf then buf ! i else NUL)"

text \<open>\<open>while (*s && P (*s)) s++\<close>.\<close>

definition skip_while :: "(char \<Rightarrow> bool) \<Rightarrow> string \<Rightarrow> nat \<Rightarrow> nat" where
  "skip_while P buf i = i + length (takeWhile (\<lambda>c. c \<noteq> NUL \<and> P c) (drop i buf))"

lemma skip_while_ge: "i \<le> skip_while P buf i"
  by (simp add: skip_while_def)

text \<open>
  \<open>parse_dir\<close> cuts the line at the blanks that end a column by writing NULs into it; the answer
  is the buffer and the start of each column. The size column of a device has two words.
\<close>

function parse_loop :: "string \<Rightarrow> nat \<Rightarrow> nat list \<Rightarrow> bool \<Rightarrow> bool \<Rightarrow> nat \<Rightarrow> string \<times> nat list" where
  "parse_loop buf s cols is_space device start =
    (if byte_at buf s = NUL \<or> length cols = DIR_COLS then (buf, cols)
     else if buf ! s = SP then
       (if \<not> is_space then
          let s1 = (if length cols = DIR_SIZE + 1 \<and> device
                    then skip_while (\<lambda>c. c \<noteq> SP) buf (skip_while (\<lambda>c. c = SP) buf s) else s)
          in parse_loop (buf[s1 := NUL]) (s1 + 1) cols True device (s1 + 1)
        else parse_loop buf (s + 1) cols is_space device
               (if length cols \<noteq> DIR_NAME then s + 1 else start))
     else if is_space then
       parse_loop buf (s + 1) (cols @ [start]) False
         (device \<or> (length cols = DIR_PERM \<and> (buf ! s = CHR ''b'' \<or> buf ! s = CHR ''c''))) start
     else parse_loop buf (s + 1) cols is_space device start)"
  by pat_completeness auto
termination
proof (relation "measure (\<lambda>(buf, s, _). length buf - s)", goal_cases)
  case (2 buf s cols is_space device start s1)
  then have "s \<le> s1" "s < length buf"
    using skip_while_ge [of s "\<lambda>c. c = SP" buf]
      skip_while_ge [of "skip_while (\<lambda>c. c = SP) buf s" "\<lambda>c. c \<noteq> SP" buf]
    by (auto simp: byte_at_def split: if_splits)
  then show ?case by simp
qed (auto simp: byte_at_def split: if_splits)

declare parse_loop.simps [simp del]

definition parse_dir :: "string \<Rightarrow> string \<times> nat list" where
  "parse_dir s = parse_loop s 0 [] True False 0"

text \<open>The file type letter: the mode, and whether it is a device.\<close>

definition perm_type :: "umode \<Rightarrow> char \<Rightarrow> umode \<times> bool" where
  "perm_type fm c =
    (if c = CHR ''b'' then (if (fm AND S_IFMT) AND S_IFBLK \<noteq> 0 then S_IFBLK else S_IFREG, True)
     else if c = CHR ''c'' then (if (fm AND S_IFMT) AND S_IFCHR \<noteq> 0 then S_IFCHR else S_IFREG, True)
     else if c = CHR ''s'' \<or> c = CHR ''S'' then (S_IFSOCK, False)
     else if c = CHR ''d'' then (S_IFDIR, False)
     else if c = CHR ''l'' then (S_IFLNK, False)
     else if c = CHR ''-'' then (S_IFREG, False)
     else if c = CHR ''p'' then (S_IFIFO, False)
     else (0, False))"

text \<open>The permission letters, \<open>s k\<close> the byte at \<open>s[k]\<close>.\<close>

definition perm_bits :: "(nat \<Rightarrow> char) \<Rightarrow> umode" where
  "perm_bits s =
    (if s 1 = CHR ''r'' then S_IRUSR else 0) OR
    (if s 2 = CHR ''w'' then S_IWUSR else 0) OR
    (if s 3 = CHR ''x'' then S_IXUSR else 0) OR
    (if s 3 = CHR ''s'' then S_IXUSR OR S_ISUID else 0) OR
    (if s 3 = CHR ''S'' then S_ISUID else 0) OR
    (if s 4 = CHR ''r'' then S_IRGRP else 0) OR
    (if s 5 = CHR ''w'' then S_IWGRP else 0) OR
    (if s 6 = CHR ''x'' then S_IXGRP else 0) OR
    (if s 6 = CHR ''s'' then S_IXGRP OR S_ISGID else 0) OR
    (if s 6 = CHR ''S'' then S_ISGID else 0) OR
    (if s 7 = CHR ''r'' then S_IROTH else 0) OR
    (if s 8 = CHR ''w'' then S_IWOTH else 0) OR
    (if s 9 = CHR ''x'' then S_IXOTH else 0) OR
    (if s 9 = CHR ''t'' then S_ISVTX OR S_IXOTH else 0) OR
    (if s 9 = CHR ''T'' then S_ISVTX else 0)"

definition u16 :: "nat \<Rightarrow> nat" where
  "u16 n = n mod 65536"

definition MKDEV :: "nat \<Rightarrow> nat \<Rightarrow> nat" where
  "MKDEV major minor = major * 2 ^ 20 + minor"

text \<open>The size column of a device: major and minor number.\<close>

definition device_number :: "string \<Rightarrow> nat" where
  "device_number s = MKDEV (u16 (strtoul s))
     (u16 (strtoul (dropWhile (\<lambda>c. \<not> isdigit c) (strtoul_end s))))"

text \<open>
  The time of the entry. Month and day may be swapped; a column with a colon is a time of this
  year, or of the last one when the month has not come yet. \<open>mktime\<close> is the kernel's.
\<close>

definition month_day :: "string \<Rightarrow> string \<Rightarrow> nat \<times> nat" where
  "month_day c5 c6 =
    (if get_month c5 < 0 then (u32 (get_month c6), u32 (int (strtoul c5)))
     else (u32 (get_month c5), u32 (int (strtoul c6))))"

definition year_time :: "nat \<Rightarrow> nat \<Rightarrow> nat \<Rightarrow> string \<Rightarrow> nat \<times> nat \<times> nat" where
  "year_time this_year this_month mon s =
    (if CHR '':'' \<notin> set s then (u32 (int (strtoul s)), 12, 0)
     else (if mon > this_month then u32 (int this_year - 1) else this_year,
       u32 (int (strtoul (takeWhile (\<lambda>c. c \<noteq> CHR '':'') s))),
       u32 (int (strtoul (tl (dropWhile (\<lambda>c. c \<noteq> CHR '':'') s))))))"

text \<open>\<open>strstr (name, " -> ")\<close>, and the name cut there.\<close>

fun cut_arrow :: "string \<Rightarrow> string" where
  "cut_arrow [] = []"
| "cut_arrow (c # s) = (if starts_with '' -> '' (c # s) then [] else c # cut_arrow s)"

text \<open>
  The body of the loop in \<open>do_ls\<close> for one line: the name and the attributes, None for a line
  that is skipped (no nine columns, or one of the entries \<open>.\<close> and \<open>..\<close>).
\<close>

type_synonym mktime_fn = "nat \<Rightarrow> nat \<Rightarrow> nat \<Rightarrow> nat \<Rightarrow> nat \<Rightarrow> nat \<Rightarrow> nat"

definition ls_entry ::
  "mktime_fn \<Rightarrow> umode \<Rightarrow> nat \<Rightarrow> nat \<Rightarrow> string \<Rightarrow> (string \<times> shfs_fattr) option" where
  "ls_entry mktime fm this_year this_month line =
    (case parse_dir line of (buf, cols) \<Rightarrow>
      if length cols \<noteq> DIR_COLS then None
      else let col = (\<lambda>k. c_str (drop (cols ! k) buf)); name = col DIR_NAME in
        if name = ''.'' \<or> name = ''..'' then None
        else
          let perm = (\<lambda>k. byte_at buf (cols ! DIR_PERM + k));
              (tmode, device) = perm_type fm (perm 0);
              mode = tmode OR perm_bits perm;
              size = (if device then 0 else strtoul (col DIR_SIZE));
              (mon, day) = month_day (col DIR_MONTH) (col DIR_DAY);
              (year, hour, mins) = year_time this_year this_month mon (col DIR_YEAR);
              t = \<lparr>tv_sec = int (mktime year (u32 (int (mon + 1))) day hour mins 0), tv_nsec = 0\<rparr>
          in Some (if S_ISLNK mode then cut_arrow name else name,
              \<lparr>f_ino = 0, f_mode = (if S_ISREG mode then mode AND fm else mode),
               f_nlink = u32 (int (strtoul (col DIR_NLINK))),
               f_uid = u32 (int (strtoul (col DIR_UID))), f_gid = u32 (int (strtoul (col DIR_GID))),
               f_rdev = (if device then device_number (col DIR_SIZE) else 0), f_size = size,
               f_atime = t, f_mtime = t, f_ctime = t,
               f_blksize = 4096, f_blocks = (size + 511) div 512\<rparr>))"

end
