(* ===== verification/ShellTextSpec.thy ===== *)
theory ShellTextSpec
  imports ShellText
begin

text \<open>
  Properties of the text functions: quoting in place is the quoting of the string, the
  credentials fit their buffer, and the dates are those of the calendar.
\<close>

section \<open>Quoting\<close>

text \<open>The reference: every quote becomes \<open>'\''\<close>.\<close>

definition quote_char :: "char \<Rightarrow> string" where
  "quote_char c = (if c = QUOTE then [QUOTE, BSLASH, QUOTE, QUOTE] else [c])"

definition quoted :: "string \<Rightarrow> string" where
  "quoted p = concat (map quote_char p)"

abbreviation quotes :: "string \<Rightarrow> nat" where
  "quotes p \<equiv> length (filter (\<lambda>c. c = QUOTE) p)"

lemma quoted_simps [simp]: "quoted [] = []" "quoted (c # p) = quote_char c @ quoted p"
  "quoted (p @ p') = quoted p @ quoted p'"
  by (simp_all add: quoted_def)

lemma quoted_length: "length (quoted p) = length p + 3 * quotes p"
  by (induction p) (auto simp: quote_char_def)

lemma quoted_id [text_simps]: "QUOTE \<notin> set p \<Longrightarrow> quoted p = p"
  by (induction p) (auto simp: quote_char_def)

lemma quoted_NUL [simp]: "NUL \<in> set (quoted p) \<longleftrightarrow> NUL \<in> set p"
  by (induction p) (auto simp: quote_char_def)

lemma quoted_NL [simp]: "NL \<in> set (quoted p) \<longleftrightarrow> NL \<in> set p"
  by (induction p) (auto simp: quote_char_def)

text \<open>
  The loop: what is still to be moved is at the front, what has been moved stands behind the
  write index.
\<close>

lemma quote_fill_spec:
  assumes "r + 3 * q \<le> length name" and "q = quotes (take r name)"
  shows "quote_fill r (r + 3 * q - 1) q name = quoted (take r name) @ drop (r + 3 * q) name"
  using assms
proof (induction r arbitrary: q name)
  case 0
  then show ?case by simp
next
  case (Suc r)
  have r: "r < length name" using Suc.prems(1) by simp
  have tk: "take (Suc r) name = take r name @ [name ! r]" using r by (simp add: take_Suc_conv_app_nth)
  show ?case
  proof (cases "q = 0")
    case True
    with Suc.prems(2) have "QUOTE \<notin> set (take (Suc r) name)" by (auto simp: filter_empty_conv)
    with True show ?thesis by (simp add: quoted_id)
  next
    case q: False
    show ?thesis
    proof (cases "name ! r = QUOTE")
      case True
      obtain k where k: "q = Suc k" using q by (cases q) auto
      let ?name = "blit name (r + 3 * k) [QUOTE, BSLASH, QUOTE, QUOTE]"
      have q': "k = quotes (take r name)" using Suc.prems(2) True by (simp add: tk k)
      have ix: "Suc r + 3 * q - 1 - 4 = r + 3 * k - 1" "Suc r + 3 * q - 1 - 3 = r + 3 * k"
        using k by simp_all
      have fit: "r + 3 * k + 4 \<le> length name" using Suc.prems(1) k by simp
      have "take r ?name = take r name" "length ?name = length name"
        using fit by (simp_all add: blit_def)
      moreover have "drop (r + 3 * k) ?name =
          [QUOTE, BSLASH, QUOTE, QUOTE] @ drop (Suc r + 3 * q) name"
        using fit k by (simp add: blit_def numeral_eq_Suc [of num.One] eval_nat_numeral)
      ultimately show ?thesis
        using Suc.IH [of k ?name] fit q q' True k by (simp add: ix tk quote_char_def)
    next
      case False
      let ?name = "name[r + 3 * q := name ! r]"
      have q': "q = quotes (take r name)" using Suc.prems(2) False by (simp add: tk)
      have "take r ?name = take r name" using q by simp
      moreover have "drop (r + 3 * q) ?name = name ! r # drop (Suc r + 3 * q) name"
        using Suc.prems(1) by (simp add: drop_update_swap Cons_nth_drop_Suc [symmetric])
      ultimately show ?thesis
        using Suc.IH [of q ?name] Suc.prems(1) q q' False by (simp add: tk quote_char_def)
    qed
  qed
qed

lemma replace_quote_spec:
  assumes "length buf = SHFS_PATH_MAX" and "buf = p @ NUL # junk" and "NUL \<notin> set p"
  shows "length (quoted p) < SHFS_PATH_MAX \<Longrightarrow> fst (replace_quote buf) = 0 \<and>
      c_str (snd (replace_quote buf)) = quoted p \<and> length (snd (replace_quote buf)) = SHFS_PATH_MAX"
    and "SHFS_PATH_MAX \<le> length (quoted p) \<Longrightarrow> replace_quote buf = (- 1, buf)"
proof -
  have p: "c_str buf = p" using assms by (simp add: c_str_append_NUL)
  let ?s = "length p + 3 * quotes p"
  show "replace_quote buf = (- 1, buf)" if "SHFS_PATH_MAX \<le> length (quoted p)"
    using that by (simp add: replace_quote_def p quoted_length)
  assume fits: "length (quoted p) < SHFS_PATH_MAX"
  then have s: "?s < length buf" using assms(1) by (simp add: quoted_length)
  let ?b = "buf[?s := NUL]"
  have tk: "take (length p) ?b = p" using assms(2) by simp
  have "quote_fill (length p) (?s - 1) (quotes p) ?b = quoted p @ drop ?s ?b"
    using quote_fill_spec [of "length p" "quotes p" ?b] s tk by simp
  also have "drop ?s ?b = NUL # drop (Suc ?s) buf"
    using s by (simp add: drop_update_swap Cons_nth_drop_Suc [symmetric])
  finally have "snd (replace_quote buf) = quoted p @ NUL # drop (Suc ?s) buf"
    using fits by (simp add: replace_quote_def p quoted_length Let_def)
  moreover have "fst (replace_quote buf) = 0"
    using fits by (simp add: replace_quote_def p quoted_length Let_def)
  ultimately show "fst (replace_quote buf) = 0 \<and> c_str (snd (replace_quote buf)) = quoted p \<and>
      length (snd (replace_quote buf)) = SHFS_PATH_MAX"
    using s assms by (simp add: c_str_append_NUL quoted_length)
qed

lemma check_path_ok:
  assumes "NUL \<notin> set p" and "length (quoted p) < SHFS_PATH_MAX"
  shows "check_path p = (True, quoted p)"
proof -
  let ?k = "SHFS_PATH_MAX - length p"
  have k: "length p < SHFS_PATH_MAX" using assms(2) by (simp add: quoted_length)
  then have "replicate ?k NUL = NUL # replicate (?k - 1) NUL" "length (p @ replicate ?k NUL) = SHFS_PATH_MAX"
    by (cases ?k; simp)+
  with replace_quote_spec(1) [of "p @ replicate ?k NUL" p "replicate (?k - 1) NUL"] assms
  show ?thesis by (cases "replace_quote (p @ replicate ?k NUL)") (simp add: check_path_def)
qed

lemma check_path_too_long:
  assumes "NUL \<notin> set p" and "length p < SHFS_PATH_MAX" and "SHFS_PATH_MAX \<le> length (quoted p)"
  shows "check_path p = (False, p)"
proof -
  let ?k = "SHFS_PATH_MAX - length p"
  have "replicate ?k NUL = NUL # replicate (?k - 1) NUL" "length (p @ replicate ?k NUL) = SHFS_PATH_MAX"
    using assms(2) by (cases ?k; simp)+
  with replace_quote_spec(2) [of "p @ replicate ?k NUL" p "replicate (?k - 1) NUL"] assms
  show ?thesis by (simp add: check_path_def c_str_append_NUL split: prod.splits)
qed

text \<open>
  The callers do not copy the path, so a name with quotes is quoted once more by the next
  operation on the same buffer.
\<close>

lemma quoted_twice: "quoted p \<noteq> p \<longleftrightarrow> QUOTE \<in> set p"
proof
  show "QUOTE \<in> set p" if "quoted p \<noteq> p" using that quoted_id by blast
  assume "QUOTE \<in> set p"
  then have "0 < quotes p" by (auto simp: filter_empty_conv)
  then have "length (quoted p) \<noteq> length p" by (simp add: quoted_length)
  then show "quoted p \<noteq> p" by metis
qed

section \<open>The calendar\<close>

text \<open>The reference: the lengths of years and months, and the day number of a date.\<close>

definition year_len :: "int \<Rightarrow> int" where
  "year_len y = (if isleap y then 366 else 365)"

definition month_lens :: "int \<Rightarrow> int list" where
  "month_lens y = [31, if isleap y then 29 else 28, 31, 30, 31, 30, 31, 31, 30, 31, 30, 31]"

definition day_number :: "int \<Rightarrow> nat \<Rightarrow> int \<Rightarrow> int" where
  "day_number y m d = (\<Sum>i = 1970..<y. year_len i) + sum_list (take m (month_lens y)) + d - 1"

lemma year_loop_spec:
  assumes "0 \<le> work" and "year_loop i work = (j, rest)"
  shows "i \<le> j \<and> 0 \<le> rest \<and> rest < year_len j \<and> work = (\<Sum>k = i..<j. year_len k) + rest"
  using assms
proof (induction i work rule: year_loop.induct)
  case (1 i work)
  show ?case
  proof (cases "work \<ge> year_len i")
    case True
    then have "year_loop (i + 1) (work - year_len i) = (j, rest)"
      using "1.prems"(2) by (subst (asm) year_loop.simps) (simp add: year_len_def)
    with "1.IH" True have IH: "i + 1 \<le> j \<and> 0 \<le> rest \<and> rest < year_len j \<and>
        work - year_len i = (\<Sum>k = i + 1..<j. year_len k) + rest"
      by (simp add: year_len_def)
    then have "{i..<j} = insert i {i + 1..<j}" by auto
    then have "(\<Sum>k = i..<j. year_len k) = year_len i + (\<Sum>k = i + 1..<j. year_len k)" by simp
    with IH show ?thesis by simp
  next
    case False
    with "1.prems" show ?thesis
      by (subst (asm) year_loop.simps) (simp add: year_len_def split: if_splits)
  qed
qed

lemma month_loop_spec:
  "0 \<le> work \<Longrightarrow> spm ! month_loop n work \<le> work \<and> month_loop n work \<le> n \<and>
    (month_loop n work < n \<longrightarrow> work < spm ! Suc (month_loop n work))"
  by (induction n) (auto simp: spm_def less_Suc_eq)

lemma months_cases: "m \<le> (11 :: nat) \<Longrightarrow> m = 0 \<or> m = 1 \<or> m = 2 \<or> m = 3 \<or> m = 4 \<or> m = 5 \<or> m = 6 \<or>
    m = 7 \<or> m = 8 \<or> m = 9 \<or> m = 10 \<or> m = 11"
  by presburger

text \<open>The day within the year, from the offset of the month in a common year.\<close>

lemma month_day_spec:
  assumes w: "0 \<le> w" "w < year_len y"
    and leap: "leap = (isleap y \<and> w > 58)"
    and d: "d = (if leap \<and> w = 59 then 2 else 1) + (if leap then w - 1 else w) - spm ! m"
    and m: "m = month_loop 11 (if leap then w - 1 else w)"
  shows "m < 12 \<and> 1 \<le> d \<and> d \<le> month_lens y ! m \<and> w = sum_list (take m (month_lens y)) + d - 1"
proof -
  let ?w = "if leap then w - 1 else w"
  have "0 \<le> ?w" using w leap by auto
  from month_loop_spec [OF this, of 11] have ms: "spm ! m \<le> ?w" "m \<le> 11" "m < 11 \<longrightarrow> ?w < spm ! Suc m"
    by (simp_all add: m)
  from months_cases [OF ms(2)] ms w leap d show ?thesis
    by (elim disjE) (auto simp: spm_def month_lens_def year_len_def eval_nat_numeral split: if_splits)
qed

lemma civil_date:
  assumes "0 \<le> n" and "civil n = (y, m, d)"
  shows "n = day_number y m d \<and> 1970 \<le> y \<and> m < 12 \<and> 1 \<le> d \<and> d \<le> month_lens y ! m"
proof -
  obtain j w where yl: "year_loop 1970 n = (j, w)" by fastforce
  note ys = year_loop_spec [OF assms(1) yl]
  define leap where "leap = (isleap j \<and> w > 58)"
  have eqs: "y = j" "m = month_loop 11 (if leap then w - 1 else w)"
    "d = (if leap \<and> w = 59 then 2 else 1) + (if leap then w - 1 else w) - spm ! m"
    using assms(2) by (auto simp: civil_def yl Let_def leap_def)
  from month_day_spec [OF _ _ leap_def eqs(3,2)] ys eqs(1) show ?thesis
    by (auto simp: day_number_def)
qed

lemma day_hour: "0 \<le> w \<Longrightarrow> w < 86400 \<Longrightarrow> 0 \<le> w div 60 div 60 \<and> w div 60 div 60 < (24 :: int)"
  by linarith

text \<open>
  C26: Seconds since 1970 as a date and a time of day.
\<close>

lemma strctime_date:
  assumes "0 \<le> tv_sec t"
  shows "\<exists>y m d h mi s. strctime t = prec 4 y @ prec 2 (int m + 1) @ prec 2 d @ prec 2 h @ prec 2 mi
        @ ''.'' @ prec 2 s \<and>
      tv_sec t = day_number y m d * 86400 + h * 3600 + mi * 60 + s \<and>
      1970 \<le> y \<and> m < 12 \<and> 1 \<le> d \<and> d \<le> month_lens y ! m \<and>
      0 \<le> h \<and> h < 24 \<and> 0 \<le> mi \<and> mi < 60 \<and> 0 \<le> s \<and> s < 60"
proof -
  let ?t = "tv_sec t"
  have sd: "a sdiv b = a div b" "a smod b = a mod b" if "0 \<le> a" "0 < b" for a b :: int
    using that by (cases "a = 0"; simp add: signed_divide_int_def signed_modulo_int_def)+
  obtain y m d where c: "civil (?t div 86400) = (y, m, d)" by (cases "civil (?t div 86400)")
  have days: "0 \<le> ?t div 86400" using assms by simp
  let ?w = "?t mod 86400"
  have "strctime t = prec 4 y @ prec 2 (int m + 1) @ prec 2 d @ prec 2 (?w div 60 div 60)
      @ prec 2 (?w div 60 mod 60) @ ''.'' @ prec 2 (?w mod 60)"
    using assms c by (simp add: strctime_def sd Let_def)
  moreover have "?t = ?t div 86400 * 86400 + ?w div 60 div 60 * 3600 + ?w div 60 mod 60 * 60 + ?w mod 60"
    using div_mult_mod_eq [of ?t 86400] div_mult_mod_eq [of ?w 60] div_mult_mod_eq [of "?w div 60" 60]
    by linarith
  moreover have "0 \<le> ?w div 60 div 60 \<and> ?w div 60 div 60 < 24"
    using day_hour pos_mod_bound [of 86400 ?t] pos_mod_sign [of 86400 ?t] by simp
  moreover have "0 \<le> ?w div 60 mod 60 \<and> ?w div 60 mod 60 < 60 \<and> 0 \<le> ?w mod 60 \<and> ?w mod 60 < 60"
    by simp
  moreover have "?t div 86400 = day_number y m d \<and> 1970 \<le> y \<and> m < 12 \<and> 1 \<le> d \<and> d \<le> month_lens y ! m"
    by (rule civil_date [OF days c])
  ultimately show ?thesis by metis
qed

text \<open>
  The current year is computed from the mean length of a year, so it is off by one on some New
  Year's Days; the 1st of January 2023 is one.
\<close>

lemma new_year_2023: "civil (1672531200 div 86400) = (2023, 0, 1)" "get_this_year 1672531200 = 2022"
proof -
  show "civil (1672531200 div 86400) = (2023, 0, 1)" by code_simp
  show "get_this_year 1672531200 = 2022" by (simp add: get_this_year_def u32_def)
qed

section \<open>Credentials\<close>

text \<open>Whatever the groups, the text fits the room given, with a byte to spare for the NUL.\<close>

lemma ugid_groups_fits:
  assumes "ugid_groups room s gs = Some s'" and "int (length s) + 1 \<le> room"
  shows "int (length s') + 1 \<le> room \<and> (gs \<noteq> [] \<longrightarrow> int (length s') + 2 \<le> room)"
  using assms
proof (induction gs arbitrary: s)
  case (Cons g gs)
  from Cons.prems(1) have fit: "int (length (s @ sdec (s32 (int g)) @ [SP])) + 2 \<le> room"
    and rec: "ugid_groups room (s @ sdec (s32 (int g)) @ [SP]) gs = Some s'"
    by (auto simp: Let_def split: if_splits)
  from Cons.IH [OF rec] fit Cons.prems(1) rec show ?case
    by (cases gs) (auto simp: Let_def)
qed simp

lemma get_ugid_fits:
  assumes "get_ugid w room = Some s" and "cur_groups w \<noteq> [] \<or> \<not> preserve_own w"
  shows "int (length s) + 1 \<le> room"
proof (cases "preserve_own w")
  case False
  with assms show ?thesis by (auto simp: get_ugid_def split: if_splits)
next
  case True
  let ?b = "sdec (s32 (int (cur_uid w))) @ [SP, QUOTE]"
  from assms True obtain s' where s: "s = butlast s' @ [QUOTE, SP]" "int (1 + length ?b + 1) \<le> room"
    "ugid_groups room (SP # ?b) (cur_groups w) = Some s'"
    unfolding get_ugid_def by (auto simp: Let_def split: if_splits elim!: bind_SomeE)
  with ugid_groups_fits [OF s(3)] assms(2) True show ?thesis by auto
qed

text \<open>
  A task without supplementary groups: the byte in front of the terminator is the opening
  quote, so it is overwritten, and the line has a single quote.
\<close>

lemma get_ugid_no_groups:
  assumes "preserve_own w" and "cur_groups w = []" and "2 \<le> room"
    and "get_ugid w room = Some s"
  shows "s = [SP] @ sdec (s32 (int (cur_uid w))) @ [SP] @ [QUOTE, SP]"
  using assms by (auto simp: get_ugid_def Let_def butlast_append split: if_splits)

section \<open>Quoting as a property of the code\<close>

text \<open>
  C24: Quoting in place is the quoting of the string: the loop that moves the path from its end
  yields the string with every quote escaped, inside the \<open>SHFS_PATH_MAX\<close> bytes of the buffer,
  exactly when it fits; otherwise the buffer is untouched.
\<close>

theorem quote_in_place:
  assumes "length buf = SHFS_PATH_MAX" and "buf = p @ NUL # junk" and "NUL \<notin> set p"
  shows "if length (quoted p) < SHFS_PATH_MAX
    then fst (replace_quote buf) = 0 \<and> c_str (snd (replace_quote buf)) = quoted p \<and>
      length (snd (replace_quote buf)) = SHFS_PATH_MAX
    else replace_quote buf = (- 1, buf)"
  using replace_quote_spec [OF assms] by simp

end
