(* ===== verification/Protocol.thy ===== *)
theory Protocol
  imports ShellTextSpec
begin

text \<open>
  The syntax of the command lines that \<open>shell.c\<close> writes and the servers read: words separated by
  single blanks, each either plain or between quotes with its own quotes escaped.
\<close>

definition spells :: "string \<Rightarrow> string \<Rightarrow> bool" where
  "spells t w \<longleftrightarrow>
     t = w \<and> w \<noteq> [] \<and> (\<forall>c\<in>set w. c \<noteq> SP \<and> c \<noteq> NL \<and> c \<noteq> QUOTE) \<or>
     t = [QUOTE] @ quoted w @ [QUOTE]"

fun line_text :: "string list \<Rightarrow> string" where
  "line_text [] = []"
| "line_text [t] = t"
| "line_text (t # ts) = t @ [SP] @ line_text ts"

lemma line_text_Cons: "ts \<noteq> [] \<Longrightarrow> line_text (t # ts) = t @ [SP] @ line_text ts"
  by (cases ts) auto

lemma line_text_append: "ts \<noteq> [] \<Longrightarrow>
    line_text (us @ ts) = concat (map (\<lambda>t. t @ [SP]) us) @ line_text ts"
  by (induction us) (auto simp: line_text_Cons)

lemma spells_dec [intro, simp]: "spells (dec n) (dec n)"
  using dec_chars [of _ n] by (auto simp: spells_def)

lemma spells_quoted [intro, simp]: "spells (QUOTE # quoted w @ [QUOTE]) w"
  by (simp add: spells_def)

section \<open>The credentials as words\<close>

text \<open>
  What \<open>get_ugid\<close> puts behind the command's name: no word, or the user and the list of groups.
\<close>

definition cred_words :: "bool \<Rightarrow> string list \<Rightarrow> string \<Rightarrow> bool" where
  "cred_words pres ts u \<longleftrightarrow> u = [SP] @ concat (map (\<lambda>t. t @ [SP]) ts) \<and>
     length ts = (if pres then 2 else 0) \<and> (\<exists>ws. list_all2 spells ts ws)"

lemma spells_sdec: "spells (sdec i) (sdec i)"
proof -
  have "CHR ''-'' \<noteq> SP \<and> CHR ''-'' \<noteq> NL \<and> CHR ''-'' \<noteq> QUOTE" by simp
  then show ?thesis using dec_chars by (auto simp: spells_def sdec_def)
qed

lemma sdec_no_QUOTE: "QUOTE \<notin> set (sdec i)"
  using dec_chars by (auto simp: sdec_def)

lemma ugid_groups_text:
  "ugid_groups room s gs = Some s' \<Longrightarrow> s' = s @ concat (map (\<lambda>g. sdec (s32 (int g)) @ [SP]) gs)"
proof (induction gs arbitrary: s)
  case (Cons g gs)
  from Cons.prems have "ugid_groups room (s @ sdec (s32 (int g)) @ [SP]) gs = Some s'"
    by (simp add: Let_def split: if_splits)
  from Cons.IH [OF this] show ?case by simp
qed simp

lemma get_ugid_words:
  assumes "get_ugid w room = Some u" and "preserve_own w \<Longrightarrow> cur_groups w \<noteq> []"
  shows "\<exists>ts. cred_words (preserve_own w) ts u"
proof (cases "preserve_own w")
  case False
  with assms show ?thesis
    by (intro exI [of _ "[]"]) (auto simp: cred_words_def get_ugid_def split: if_splits)
next
  case True
  let ?uid = "sdec (s32 (int (cur_uid w)))"
  let ?gs = "concat (map (\<lambda>g. sdec (s32 (int g)) @ [SP]) (cur_groups w))"
  obtain gs g where g: "cur_groups w = gs @ [g]" using assms(2) [OF True] by (metis rev_exhaust)
  obtain s where s: "ugid_groups room (SP # ?uid @ [SP, QUOTE]) (cur_groups w) = Some s"
    "u = butlast s @ [QUOTE, SP]"
    using assms(1) True unfolding get_ugid_def
    by (auto simp: Let_def split: if_splits elim!: bind_SomeE)
  have u: "u = [SP] @ ?uid @ [SP] @ [QUOTE] @ butlast ?gs @ [QUOTE, SP]"
    unfolding s(2) ugid_groups_text [OF s(1)] g by (simp add: butlast_append)
  have "QUOTE \<notin> set ?gs" using sdec_no_QUOTE by auto
  then have "quoted (butlast ?gs) = butlast ?gs"
    by (intro quoted_id) (auto dest: in_set_butlastD)
  then have "spells (QUOTE # butlast ?gs @ [QUOTE]) (butlast ?gs)"
    using spells_quoted [of "butlast ?gs"] by simp
  then have "list_all2 spells [?uid, QUOTE # butlast ?gs @ [QUOTE]] [?uid, butlast ?gs]"
    by (simp add: spells_sdec)
  with u True show ?thesis
    by (intro exI [of _ "[?uid, QUOTE # butlast ?gs @ [QUOTE]]"]) (auto simp: cred_words_def)
qed

section \<open>Files as bytes at positions\<close>

text \<open>A file shows NULs behind its end, as the servers pad what they send.\<close>

definition file_byte :: "string \<Rightarrow> nat \<Rightarrow> char" where
  "file_byte b i = (if i < length b then b ! i else NUL)"

lemma file_byte_slice:
  "fslice (file_byte b) off n = take n (drop off b) @ replicate (n - length (take n (drop off b))) NUL"
  by (rule nth_equalityI) (auto simp: buf_simps file_byte_def nth_append)

end
