(* ===== verification/Proc.thy ===== *)
theory Proc
  imports World
begin

text \<open>
  The socket layer of \<open>proc.c\<close> and \<open>proc.h\<close>: the lock, reading and writing bytes and lines on
  the connection, and the recovery from half-finished exchanges (\<open>garbage\<close>). The code is that of
  kernels from 2.6.19 on. The socket's state \<open>'f\<close> and its I/O are parameters (\<open>sockops\<close>); the
  outer option is termination. Counts are below \<open>2 ^ 31\<close>, so that C's \<open>int\<close> holds them.
\<close>

section \<open>The lock\<close>

text \<open>
  \<open>mutex_lock_interruptible\<close>. A task that finds the mutex held sleeps; a waiting signal ends the
  sleep. Without one, a task that waits for a lock it holds itself waits forever (None).
\<close>

definition sock_lock :: "'f world \<Rightarrow> (bool \<times> 'f world) option" where
  "sock_lock w =
    (if \<not> shfs_mutex w then Some (True, w\<lparr>shfs_mutex := True\<rparr>)
     else if signalled w then Some (False, w)
     else None)"

definition sock_unlock :: "'f world \<Rightarrow> 'f world" where
  "sock_unlock w = w\<lparr>shfs_mutex := False\<rparr>"

section \<open>Response codes and garbage\<close>

definition reply :: "string \<Rightarrow> int" where
  "reply s = (if \<not> starts_with ''### '' s then 0 else s32 (int (strtoul (drop 4 s))))"

definition set_garbage :: "'f world \<Rightarrow> bool \<Rightarrow> int \<Rightarrow> 'f world" where
  "set_garbage w write count =
    (let w1 = w\<lparr>garbage := True\<rparr>
     in if write then w1\<lparr>garbage_write := count\<rparr> else w1\<lparr>garbage_read := count\<rparr>)"

section \<open>Bytes and lines on the socket\<close>

text \<open>
  \<open>sock_send\<close>, \<open>sock_recv\<close> and \<open>readln_loop\<close> are \<open>sock_write\<close>, \<open>sock_read\<close> and \<open>sock_readln\<close>
  behind their test of \<open>garbage\<close>. \<open>sigpipe_fix\<close> is the bracket around the I/O: a broken pipe is
  answered as \<open>-EIO\<close> and its signal taken back, unless \<open>SIGPIPE\<close> was pending before.
\<close>

definition sigpipe_fix :: "'f world \<Rightarrow> bool \<Rightarrow> int \<Rightarrow> int \<times> 'f world" where
  "sigpipe_fix w raised result =
    (if result = - EPIPE \<and> \<not> sigpipe w then (- EIO, w)
     else (result, w\<lparr>sigpipe := sigpipe w \<or> raised\<rparr>))"

definition sock_send :: "'f sockops \<Rightarrow> 'f world \<Rightarrow> string \<Rightarrow> int \<times> 'f world" where
  "sock_send so w buffer =
    (case sock w of None \<Rightarrow> (- EIO, w)
     | Some f \<Rightarrow>
        (case do_sync_write so f buffer of (result, raised, f1) \<Rightarrow>
         case sigpipe_fix w raised result of (result2, w1) \<Rightarrow>
           let w2 = w1\<lparr>sock := if result < 0 then None else Some f1\<rparr>
           in if result2 < 0
              then (result2, set_garbage w2 True
                     (s32 (int (length buffer) - (f_pos so f1 - f_pos so f))))
              else (int (length buffer), w2)))"

definition sock_recv :: "'f sockops \<Rightarrow> 'f world \<Rightarrow> nat \<Rightarrow> int \<times> string \<times> 'f world" where
  "sock_recv so w count =
    (case sock w of None \<Rightarrow> (- EIO, [], w)
     | Some f \<Rightarrow>
        (let LEN = length (readlnbuf w);
             c = (if count > LEN then LEN else count);
             pre = take c (readlnbuf w);
             w1 = w\<lparr>readlnbuf := drop c (readlnbuf w)\<rparr>;
             c1 = count - c
         in if c1 = 0 then (int count, pre, w1)
            else (case do_sync_read so f c1 of (result0, bs, f1) \<Rightarrow>
              let result = (if result0 = 0 then - EIO else result0) in
              case sigpipe_fix w1 False result of (result2, w2) \<Rightarrow>
                let w3 = w2\<lparr>sock := if result < 0 then None else Some f1\<rparr>
                in if result2 < 0
                   then (result2, pre @ bs, set_garbage w3 False
                          (s32 (int count - (f_pos so f1 - f_pos so f))))
                   else (int count, pre @ bs, w3))))"

text \<open>
  The loop of \<open>sock_readln\<close>: \<open>count\<close> is the size of the caller's buffer, \<open>l\<close> the number of reads
  so far, \<open>buffer\<close> the C string in the caller's buffer, which stays when no line comes. A full
  line buffer without a newline gets one in the place of its last byte.
\<close>

partial_function (option) readln_loop ::
  "'f sockops \<Rightarrow> nat \<Rightarrow> nat \<Rightarrow> string \<Rightarrow> 'f world \<Rightarrow> (int \<times> string \<times> 'f world) option" where
  "readln_loop so count l buffer w =
    (case sock w of None \<Rightarrow> Some (- EIO, buffer, w)
     | Some f \<Rightarrow>
        (if NL \<in> set (readlnbuf w) then
           let line = takeWhile (\<lambda>c. c \<noteq> NL) (readlnbuf w);
               buffer1 = take (count - 1) (c_str line)
           in Some (int (length buffer1), buffer1,
                    w\<lparr>readlnbuf := drop (length line + 1) (readlnbuf w)\<rparr>)
         else let c = READLNBUF_SIZE - length (readlnbuf w) in
           if c = 0 then
             readln_loop so count l buffer
               (w\<lparr>readlnbuf := (readlnbuf w)[READLNBUF_SIZE - 1 := NL]\<rparr>)
           else (case do_sync_read so f c of (result0, bs, f1) \<Rightarrow>
             case sigpipe_fix w False result0 of (result1, w1) \<Rightarrow>
               let result = (if result1 = 0 then - EIO else result1) in
               if result = - EAGAIN then
                 readln_loop so count l buffer (w1\<lparr>sock := Some f1\<rparr>)
               else if result < 0 then
                 Some (result, buffer, set_garbage (w1\<lparr>sock := None\<rparr>) False (int c))
               else let w2 = w1\<lparr>sock := Some f1, readlnbuf := readlnbuf w @ bs\<rparr> in
                 if l > READLNBUF_SIZE \<and> readlnbuf w2 = [] then Some (- EINVAL, buffer, w2)
                 else readln_loop so count (l + 1) buffer w2)))"

section \<open>Clearing garbage\<close>

text \<open>
  \<open>clear_garbage\<close>: the bytes still owed to the peer are sent as spaces, those still owed by it
  are read, in pieces of at most 256 bytes; then a ping is sent and its answer looked for, line
  by line. Every inner call runs with \<open>garbage\<close> reset, so it does not recurse.
\<close>

fun clear_write :: "'f sockops \<Rightarrow> nat \<Rightarrow> 'f world \<Rightarrow> int \<times> 'f world" where
  "clear_write so g w =
    (if g = 0 then (0, w)
     else let c = (if g < 256 then g else 256) in
       case sock_send so (w\<lparr>garbage := False\<rparr>) (replicate c SP) of (result, w1) \<Rightarrow>
         if result < 0 then (result, w1\<lparr>garbage_write := int g\<rparr>)
         else clear_write so (g - c) w1)"

fun clear_read :: "'f sockops \<Rightarrow> nat \<Rightarrow> 'f world \<Rightarrow> int \<times> 'f world" where
  "clear_read so g w =
    (if g = 0 then (0, w)
     else let c = (if g < 256 then g else 256) in
       case sock_recv so (w\<lparr>garbage := False\<rparr>) c of (result, _, w1) \<Rightarrow>
         if result < 0 then (result, w1\<lparr>garbage_read := int g\<rparr>)
         else clear_read so (g - c) w1)"

declare clear_write.simps [simp del] clear_read.simps [simp del]

abbreviation ping_seq :: nat where "ping_seq \<equiv> 12345"

definition ping :: string where
  "ping = [NL, NL] @ ''s_ping '' @ dec ping_seq"

text \<open>One line of the answer: None when it completes the answer, otherwise the next state.\<close>

definition ping_step :: "nat \<Rightarrow> string \<Rightarrow> nat option" where
  "ping_step state buffer =
    (if (state = 0 \<or> state = 1) \<and> reply buffer = REP_PRELIM then Some 1
     else if state = 1 \<and> strtoul buffer = ping_seq - 1 then Some 2
     else if state = 2 \<and> reply buffer = REP_NOP then None
     else Some 0)"

fun ping_loop :: "'f sockops \<Rightarrow> nat \<Rightarrow> nat \<Rightarrow> int \<Rightarrow> string \<Rightarrow> 'f world \<Rightarrow> (int \<times> 'f world) option" where
  "ping_loop so n state result buffer w =
    (if n = 0 then Some (result, w\<lparr>garbage := True\<rparr>)
     else do {
       (result1, buffer1, w1) \<leftarrow> readln_loop so 256 0 buffer (w\<lparr>garbage := False\<rparr>);
       if result1 < 0 then Some (result1, w1\<lparr>garbage := True\<rparr>)
       else (case ping_step state buffer1 of None \<Rightarrow> Some (0, w1)
         | Some state1 \<Rightarrow> ping_loop so (n - 1) state1 result1 buffer1 w1)
     })"

declare ping_loop.simps [simp del]

definition clear_garbage :: "'f sockops \<Rightarrow> 'f world \<Rightarrow> (int \<times> 'f world) option" where
  "clear_garbage so w =
    (case clear_write so (nat (garbage_write w)) w of (r1, w1) \<Rightarrow>
     if r1 < 0 then Some (r1, w1\<lparr>garbage := True\<rparr>)
     else case clear_read so (nat (garbage_read w1)) (w1\<lparr>garbage_write := 0\<rparr>) of (r2, w2) \<Rightarrow>
     if r2 < 0 then Some (r2, w2\<lparr>garbage := True\<rparr>)
     else case sock_send so (w2\<lparr>garbage_read := 0, garbage := False\<rparr>) ping of (r3, w3) \<Rightarrow>
     if r3 < 0 then Some (r3, w3\<lparr>garbage := True\<rparr>)
     else ping_loop so 100000 0 r3 ping w3)"

section \<open>The entry points\<close>

text \<open>The test of \<open>garbage\<close>; the first component says whether the call goes on.\<close>

definition resync :: "'f sockops \<Rightarrow> 'f world \<Rightarrow> (int \<times> 'f world) option" where
  "resync so w = (if garbage w then clear_garbage so w else Some (0, w))"

definition sock_write :: "'f sockops \<Rightarrow> 'f world \<Rightarrow> string \<Rightarrow> (int \<times> 'f world) option" where
  "sock_write so w buffer =
    (if sock w = None then Some (- EIO, w)
     else do {
       (r, w1) \<leftarrow> resync so w;
       if r < 0 then Some (r, w1) else Some (sock_send so w1 buffer)
     })"

definition sock_read :: "'f sockops \<Rightarrow> 'f world \<Rightarrow> nat \<Rightarrow> (int \<times> string \<times> 'f world) option" where
  "sock_read so w count =
    (if sock w = None then Some (- EIO, [], w)
     else do {
       (r, w1) \<leftarrow> resync so w;
       if r < 0 then Some (r, [], w1) else Some (sock_recv so w1 count)
     })"

definition sock_readln ::
  "'f sockops \<Rightarrow> 'f world \<Rightarrow> string \<Rightarrow> nat \<Rightarrow> (int \<times> string \<times> 'f world) option" where
  "sock_readln so w buffer count =
    (if sock w = None then Some (- EIO, buffer, w)
     else do {
       (r, w1) \<leftarrow> resync so w;
       if r < 0 then Some (r, buffer, w1) else readln_loop so count 0 buffer w1
     })"

end
