(* ===== verification/ProcSpec.thy ===== *)
theory ProcSpec
  imports Proc
begin

text \<open>
  What the socket layer promises over a working connection. The contract of the connection is the
  locale \<open>connection\<close>: the peer is a machine \<open>react\<close> that turns the bytes it gets into bytes it
  sends, which wait in \<open>outq\<close> until they are read. Reads may be short there; \<open>prompt_connection\<close>
  delivers all that waits, which is what \<open>sock_read\<close> needs to be right.
\<close>

section \<open>The state of the connection\<close>

text \<open>
  \<open>conn_at\<close>: the connection is open and in step, the peer is in state \<open>s\<close>, and the bytes still
  to be read are \<open>q\<close>, some of them in the line buffer already. \<open>same_but_conn\<close>: nothing else of
  the world has changed.
\<close>

definition conn_at :: "('f \<Rightarrow> string) \<Rightarrow> ('f \<Rightarrow> 's) \<Rightarrow> 'f world \<Rightarrow> 's \<Rightarrow> string \<Rightarrow> bool" where
  "conn_at outq core w s q \<longleftrightarrow>
     (\<exists>f. sock w = Some f \<and> core f = s \<and> readlnbuf w @ outq f = q) \<and>
     length (readlnbuf w) \<le> READLNBUF_SIZE \<and> \<not> garbage w"

definition same_but_conn :: "'f world \<Rightarrow> 'f world \<Rightarrow> bool" where
  "same_but_conn w w' \<longleftrightarrow> w' = w\<lparr>sock := sock w', readlnbuf := readlnbuf w'\<rparr>"

lemma same_but_conn_refl [simp]: "same_but_conn w w"
  by (simp add: same_but_conn_def)

lemma same_but_conn_upd [simp]: "same_but_conn w (w\<lparr>sock := a, readlnbuf := b\<rparr>)"
  "same_but_conn w (w\<lparr>sock := a\<rparr>)"
  by (simp_all add: same_but_conn_def)

lemma same_but_conn_trans: "same_but_conn u v \<Longrightarrow> same_but_conn v w \<Longrightarrow> same_but_conn u w"
  unfolding same_but_conn_def by (cases u; cases v; cases w) simp

lemma same_but_connD:
  assumes "same_but_conn w w'"
  shows "shfs_mutex w' = shfs_mutex w" "fcache_size w' = fcache_size w"
    "fcache_free w' = fcache_free w" "preserve_own w' = preserve_own w" "cur_uid w' = cur_uid w"
    "cur_groups w' = cur_groups w" "garbage w' = garbage w" "sigpipe w' = sigpipe w"
    "signalled w' = signalled w" "fmask w' = fmask w" "now w' = now w"
  by (subst assms [unfolded same_but_conn_def], simp)+

lemma sigpipe_fix_ok [simp]: "0 \<le> r \<Longrightarrow> sigpipe_fix w False r = (r, w)"
  by (cases w) (simp add: sigpipe_fix_def)

section \<open>The contract\<close>

locale connection =
  fixes so :: "'f sockops" and outq :: "'f \<Rightarrow> string" and core :: "'f \<Rightarrow> 's"
    and react :: "'s \<Rightarrow> string \<Rightarrow> string \<times> 's"
  assumes write_all: "\<exists>f'. do_sync_write so f bs = (int (length bs), False, f') \<and>
      outq f' = outq f @ fst (react (core f) bs) \<and> core f' = snd (react (core f) bs)"
    and read_some: "outq f \<noteq> [] \<Longrightarrow> 0 < n \<Longrightarrow> \<exists>m f'. 0 < m \<and> m \<le> n \<and> m \<le> length (outq f) \<and>
      do_sync_read so f n = (int m, take m (outq f), f') \<and> outq f' = drop m (outq f) \<and>
      core f' = core f"

locale prompt_connection = connection +
  assumes read_all: "outq f \<noteq> [] \<Longrightarrow> 0 < n \<Longrightarrow> \<exists>f'.
      do_sync_read so f n = (int (min n (length (outq f))), take n (outq f), f') \<and>
      outq f' = drop n (outq f) \<and> core f' = core f"

context connection
begin

lemma send_ok:
  assumes "conn_at outq core w s q" and "react s bs = (a, s')"
  shows "\<exists>w'. sock_send so w bs = (int (length bs), w') \<and> conn_at outq core w' s' (q @ a) \<and>
    same_but_conn w w'"
proof -
  from assms(1) obtain f where f: "sock w = Some f" "core f = s" "readlnbuf w @ outq f = q"
    by (auto simp: conn_at_def)
  from write_all [of f bs] f(2) assms(2) obtain f' where
    "do_sync_write so f bs = (int (length bs), False, f')" "outq f' = outq f @ a" "core f' = s'"
    by auto
  with f assms(1) show ?thesis
    by (intro exI [of _ "w\<lparr>sock := Some f'\<rparr>"]) (auto simp: sock_send_def conn_at_def)
qed

lemma readln_loop_ok:
  assumes "conn_at outq core w s (line @ NL # rest)" and "NL \<notin> set line"
    and "length line < READLNBUF_SIZE"
  shows "\<exists>w'. readln_loop so count l buffer w =
      Some (int (length (take (count - 1) (c_str line))), take (count - 1) (c_str line), w') \<and>
    conn_at outq core w' s rest \<and> same_but_conn w w'"
proof -
  have "sock w = Some f \<Longrightarrow> conn_at outq core w s (line @ NL # rest) \<Longrightarrow> ?thesis" for f
  proof (induction "length (outq f)" arbitrary: f w l rule: less_induct)
    case less
    note f = less.prems(1)
    from less.prems have q: "readlnbuf w @ outq f = line @ NL # rest" "core f = s"
      "length (readlnbuf w) \<le> READLNBUF_SIZE" "\<not> garbage w"
      by (auto simp: conn_at_def)
    show ?case
    proof (cases "NL \<in> set (readlnbuf w)")
      case True
      have le: "length line < length (readlnbuf w)"
      proof (rule ccontr)
        assume "\<not> length line < length (readlnbuf w)"
        then have "readlnbuf w = take (length (readlnbuf w)) line"
          using arg_cong [OF q(1), of "take (length (readlnbuf w))"] by simp
        with True assms(2) show False by (metis in_set_takeD)
      qed
      then obtain rb where rb: "readlnbuf w = line @ NL # rb"
        using arg_cong [OF q(1), of "take (length (readlnbuf w))"]
        by (cases "length (readlnbuf w) - length line") auto
      have tw: "takeWhile (\<lambda>c. c \<noteq> NL) (readlnbuf w) = line"
        unfolding rb using assms(2) by (subst takeWhile_append2) auto
      have "readln_loop so count l buffer w = Some (int (length (take (count - 1) (c_str line))),
          take (count - 1) (c_str line), w\<lparr>readlnbuf := rb\<rparr>)"
        by (subst readln_loop.simps) (simp add: f True Let_def tw, simp add: rb)
      moreover have "conn_at outq core (w\<lparr>readlnbuf := rb\<rparr>) s rest"
        using q f unfolding conn_at_def by (auto simp: rb)
      moreover have "same_but_conn w (w\<lparr>readlnbuf := rb\<rparr>)" by (simp add: same_but_conn_def)
      ultimately show ?thesis by blast
    next
      case False
      have len: "length (readlnbuf w) \<le> length line"
      proof (rule ccontr)
        assume "\<not> ?thesis"
        then have "NL \<in> set (take (length (readlnbuf w)) (line @ NL # rest))"
          by (simp add: take_Cons')
        with False q(1) show False by (metis append_eq_conv_conj)
      qed
      have c: "READLNBUF_SIZE - length (readlnbuf w) \<noteq> 0" using len assms(3) by simp
      have ne: "outq f \<noteq> []" using False q(1) by auto
      obtain m f' where m: "0 < m" "m \<le> READLNBUF_SIZE - length (readlnbuf w)" "m \<le> length (outq f)"
        and rd: "do_sync_read so f (READLNBUF_SIZE - length (readlnbuf w)) = (int m, take m (outq f), f')"
        and f': "outq f' = drop m (outq f)" "core f' = core f"
        using read_some [OF ne, of "READLNBUF_SIZE - length (readlnbuf w)"] c by auto
      define w2 where "w2 = w\<lparr>sock := Some f', readlnbuf := readlnbuf w @ take m (outq f)\<rparr>"
      have ne2: "readlnbuf w2 \<noteq> []" using m ne by (auto simp: w2_def)
      have step: "readln_loop so count l buffer w = readln_loop so count (l + 1) buffer w2"
        using m(1) ne2 by (subst readln_loop.simps)
          (simp only: f option.case False if_False Let_def c rd prod.case sigpipe_fix_ok of_nat_0_le_iff
            of_nat_eq_0_iff m(1) [THEN neq0_conv [THEN iffD2]] w2_def [symmetric] simp_thms,
           simp)
      have at: "conn_at outq core w2 s (line @ NL # rest)"
        unfolding conn_at_def
      proof (intro conjI exI [of _ f'])
        show "sock w2 = Some f'" "core f' = s" "\<not> garbage w2" using q f' by (simp_all add: w2_def)
        show "readlnbuf w2 @ outq f' = line @ NL # rest" using q(1) f'(1) by (simp add: w2_def)
        show "length (readlnbuf w2) \<le> READLNBUF_SIZE" using m c by (simp add: w2_def)
      qed
      have lt: "length (outq f') < length (outq f)" using m ne f'(1) by simp
      have s2: "sock w2 = Some f'" by (simp add: w2_def)
      have sb: "same_but_conn w w2" by (simp add: w2_def)
      from less.hyps [OF lt s2 at, of "l + 1"] same_but_conn_trans [OF sb] show ?thesis
        unfolding step by blast
    qed
  qed
  with assms(1) show ?thesis by (auto simp: conn_at_def)
qed

end

context prompt_connection
begin

lemma recv_ok:
  assumes "conn_at outq core w s (bs @ rest)"
  shows "\<exists>w'. sock_recv so w (length bs) = (int (length bs), bs, w') \<and>
    conn_at outq core w' s rest \<and> same_but_conn w w'"
proof -
  from assms obtain f where f: "sock w = Some f" "core f = s" "readlnbuf w @ outq f = bs @ rest"
    "length (readlnbuf w) \<le> READLNBUF_SIZE" "\<not> garbage w"
    by (auto simp: conn_at_def)
  show ?thesis
  proof (cases "length bs \<le> length (readlnbuf w)")
    case True
    then have pre: "take (length bs) (readlnbuf w) = bs"
      using arg_cong [OF f(3), of "take (length bs)"] by simp
    moreover have "drop (length bs) (readlnbuf w) @ outq f = rest"
      using True arg_cong [OF f(3), of "drop (length bs)"] by simp
    ultimately show ?thesis
      using True f by (intro exI [of _ "w\<lparr>readlnbuf := drop (length bs) (readlnbuf w)\<rparr>"])
        (auto simp: sock_recv_def Let_def conn_at_def same_but_conn_def)
  next
    case False
    let ?L = "length (readlnbuf w)" and ?n = "length bs - length (readlnbuf w)"
    have bs: "bs = readlnbuf w @ take ?n (outq f)" "drop ?n (outq f) = rest"
      using False arg_cong [OF f(3), of "take (length bs)"] arg_cong [OF f(3), of "drop (length bs)"]
      by simp_all
    have len: "?n \<le> length (outq f)" using arg_cong [OF f(3), of length] False by simp
    have ne: "outq f \<noteq> []" using len False by auto
    from read_all [OF ne, of ?n] False obtain f' where
      "do_sync_read so f ?n = (int (min ?n (length (outq f))), take ?n (outq f), f')"
      "outq f' = drop ?n (outq f)" "core f' = core f"
      by auto
    then have rd: "do_sync_read so f ?n = (int ?n, take ?n (outq f), f')"
      "outq f' = rest" "core f' = core f"
      using len bs by (simp_all add: min_absorb1)
    have "sock_recv so w (length bs) =
        (int (length bs), readlnbuf w @ take ?n (outq f), w\<lparr>readlnbuf := [], sock := Some f'\<rparr>)"
      using False f rd(1) by (simp add: sock_recv_def Let_def)
    moreover have "conn_at outq core (w\<lparr>readlnbuf := [], sock := Some f'\<rparr>) s rest"
      using f rd by (auto simp: conn_at_def)
    ultimately show ?thesis
      unfolding bs(1) [symmetric] by (intro exI) (auto simp: same_but_conn_def)
  qed
qed

end

context connection
begin

lemma at_open: "conn_at outq core w s q \<Longrightarrow> sock w \<noteq> None" "conn_at outq core w s q \<Longrightarrow> \<not> garbage w"
  by (auto simp: conn_at_def)

lemma write_ok:
  assumes "conn_at outq core w s q" and "react s bs = (a, s')"
  shows "\<exists>w'. sock_write so w bs = Some (int (length bs), w') \<and> conn_at outq core w' s' (q @ a) \<and>
    same_but_conn w w'"
  using send_ok [OF assms] at_open [OF assms(1)] by (auto simp: sock_write_def resync_def)

lemma readln_ok:
  assumes "conn_at outq core w s (line @ NL # rest)" and "NL \<notin> set line" "NUL \<notin> set line"
    and "length line < count" and "length line < READLNBUF_SIZE"
  shows "\<exists>w'. sock_readln so w buffer count = Some (int (length line), line, w') \<and>
    conn_at outq core w' s rest \<and> same_but_conn w w'"
proof -
  have tk: "take (count - 1) (c_str line) = line"
    using assms(3,4) by (simp add: c_str_id)
  from readln_loop_ok [OF assms(1,2,5), of count 0 buffer, unfolded tk] at_open [OF assms(1)]
  show ?thesis by (auto simp: sock_readln_def resync_def)
qed

end

context prompt_connection
begin

lemma read_ok:
  assumes "conn_at outq core w s (bs @ rest)"
  shows "\<exists>w'. sock_read so w (length bs) = Some (int (length bs), bs, w') \<and>
    conn_at outq core w' s rest \<and> same_but_conn w w'"
  using recv_ok [OF assms] at_open [OF assms] by (auto simp: sock_read_def resync_def)

end

section \<open>Failures\<close>

text \<open>
  After an error on the socket the connection is closed, and every later call answers \<open>-EIO\<close>
  without touching anything.
\<close>

lemma closed_calls:
  assumes "sock w = None"
  shows "sock_write so w bs = Some (- EIO, w)" and "sock_read so w n = Some (- EIO, [], w)"
    and "sock_readln so w buffer n = Some (- EIO, buffer, w)"
  using assms by (simp_all add: sock_write_def sock_read_def sock_readln_def)

lemma send_error:
  assumes "sock w = Some f" and "do_sync_write so f bs = (e, raised, f')" and "e < 0"
  shows "fst (sock_send so w bs) < 0" and "sock (snd (sock_send so w bs)) = None"
    and "garbage (snd (sock_send so w bs))"
    and "e = - EPIPE \<Longrightarrow> \<not> sigpipe w \<Longrightarrow> fst (sock_send so w bs) = - EIO \<and> \<not> sigpipe (snd (sock_send so w bs))"
  using assms by (auto simp: sock_send_def sigpipe_fix_def set_garbage_def Let_def)

lemma recv_end_of_file:
  assumes "sock w = Some f" and "readlnbuf w = []" and "do_sync_read so f n = (0, bs, f')" and "0 < n"
  shows "fst (sock_recv so w n) = - EIO" and "sock (snd (snd (sock_recv so w n))) = None"
  using assms by (simp_all add: sock_recv_def sigpipe_fix_def set_garbage_def Let_def)

text \<open>
  A short read is answered as a full one: the caller gets \<open>count\<close> with fewer bytes.
\<close>

lemma recv_short:
  assumes "sock w = Some f" and "readlnbuf w = []"
    and "do_sync_read so f n = (int m, bs, f')" and "0 < m" "m < n" "length bs = m"
  shows "\<exists>w'. sock_recv so w n = (int n, bs, w') \<and> length bs < n"
  using assms by (simp add: sock_recv_def Let_def)

text \<open>
  The resynchronisation looks for the number before the one it sent. A peer that echoes the
  number sent, as the servers do, is never recognised: the state never gets past 1.
\<close>

lemma ping_step_never:
  assumes "strtoul b \<noteq> ping_seq - 1" and "state \<le> 1"
  shows "\<exists>state'\<le>1. ping_step state b = Some state'"
  using assms by (auto simp: ping_step_def)

end
