(* ===== verification/Shell.thy ===== *)
theory Shell
  imports Proc ShellText
begin

text \<open>
  The client of the remote shell, \<open>shell.c\<close>: every operation of \<open>struct shfs_fileops\<close> takes the
  lock, sends one command line, reads the answer and drops the lock. \<open>info->sockbuf\<close>, which every
  command rewrites from its start, is the local text \<open>sockbuf\<close>; the path arguments are quoted in
  place, so each operation answers them as it leaves them. None is a call that does not return.
\<close>

section \<open>Commands\<close>

text \<open>The bracket of the lock; \<open>a\<close> is the answer when the lock is not had.\<close>

definition locked ::
  "'f world \<Rightarrow> 'a \<Rightarrow> ('f world \<Rightarrow> (int \<times> 'a \<times> 'f world) option) \<Rightarrow> (int \<times> 'a \<times> 'f world) option" where
  "locked w a body = do {
     (ok, w1) \<leftarrow> sock_lock w;
     if \<not> ok then Some (- EINTR, a, w1)
     else do { (result, b, w2) \<leftarrow> body w1; Some (result, b, sock_unlock w2) }
   }"

text \<open>A command's name with the credentials, and how much room the buffer has behind them.\<close>

definition command_head :: "'f world \<Rightarrow> string \<Rightarrow> string option" where
  "command_head w cmd = do {
     s \<leftarrow> get_ugid w (int SOCKBUF_SIZE - int (length cmd));
     Some (cmd @ s)
   }"

definition room :: "string \<Rightarrow> nat" where
  "room s = SOCKBUF_SIZE - length s - 1"

definition command_result :: "int \<Rightarrow> int" where
  "command_result r =
    (if r = REP_COMPLETE then 0
     else if r = REP_EPERM then - EPERM
     else if r = REP_ENOENT then - ENOENT
     else if r = REP_NOTEMPTY then 1
     else - EIO)"

text \<open>
  \<open>do_command\<close>, with \<open>args\<close> the text its format produces. \<open>vsnprintf\<close> cuts it to the room left;
  the result of \<open>sock_readln\<close> is not looked at, so without a line the command's own text is
  parsed.
\<close>

definition do_command ::
  "'f sockops \<Rightarrow> 'f world \<Rightarrow> string \<Rightarrow> string \<Rightarrow> (int \<times> 'f world) option" where
  "do_command so w cmd args = do {
     (result, _, w1) \<leftarrow> locked w () (\<lambda>w.
       case command_head w cmd of None \<Rightarrow> Some (- ENAMETOOLONG, (), w)
       | Some s \<Rightarrow>
          let sockbuf = s @ take (room s) args in
          if length sockbuf + 2 > SOCKBUF_SIZE then Some (- ENAMETOOLONG, (), w)
          else do {
            (result, w1) \<leftarrow> sock_write so w (sockbuf @ [NL]);
            if result < 0 then Some (result, (), w1)
            else do {
              (_, line, w2) \<leftarrow> sock_readln so w1 (sockbuf @ [NL]) SOCKBUF_SIZE;
              Some (command_result (reply line), (), w2)
            }
          });
     Some (result, w1)
   }"

text \<open>One path argument, and two.\<close>

definition quote1 :: "string \<Rightarrow> string" where
  "quote1 file = [QUOTE] @ file @ [QUOTE]"

definition path_command ::
  "'f sockops \<Rightarrow> 'f world \<Rightarrow> string \<Rightarrow> string \<Rightarrow> (string \<Rightarrow> string) \<Rightarrow> (int \<times> string \<times> 'f world) option" where
  "path_command so w file cmd args =
    (case check_path file of (ok, file1) \<Rightarrow>
      if \<not> ok then Some (- ENAMETOOLONG, file1, w)
      else do { (result, w1) \<leftarrow> do_command so w cmd (args file1); Some (result, file1, w1) })"

definition two_path_command ::
  "'f sockops \<Rightarrow> 'f world \<Rightarrow> string \<Rightarrow> string \<Rightarrow> string \<Rightarrow> (int \<times> string \<times> string \<times> 'f world) option" where
  "two_path_command so w old new cmd =
    (case check_path old of (ok, old1) \<Rightarrow>
      if \<not> ok then Some (- ENAMETOOLONG, old1, new, w)
      else case check_path new of (ok, new1) \<Rightarrow>
      if \<not> ok then Some (- ENAMETOOLONG, old1, new1, w)
      else do {
        (result, w1) \<leftarrow> do_command so w cmd (quote1 old1 @ [SP] @ quote1 new1);
        Some (result, old1, new1, w1)
      })"

section \<open>Directory listings\<close>

text \<open>
  The loop of \<open>do_ls\<close>. \<open>entry\<close> says that the caller wants one entry (\<open>s_stat\<close>); otherwise each
  entry goes to \<open>fill\<close> (\<open>shfs_fill_cache\<close>, a parameter), which stops the listing by answering 0.
  The entry found and the state of \<open>fill\<close> are carried along.
\<close>

partial_function (option) ls_loop ::
  "'f sockops \<Rightarrow> mktime_fn \<Rightarrow> ('c \<Rightarrow> string \<Rightarrow> shfs_fattr \<Rightarrow> int \<times> 'c) \<Rightarrow> bool \<Rightarrow> string
    \<Rightarrow> shfs_fattr option \<times> 'c \<Rightarrow> 'f world \<Rightarrow> (int \<times> (shfs_fattr option \<times> 'c) \<times> 'f world) option" where
  "ls_loop so mktime fill entry sockbuf acc w = do {
     (result, line, w1) \<leftarrow> sock_readln so w sockbuf SOCKBUF_SIZE;
     if \<not> result > 0 then Some (result, acc, w1)
     else if reply line = REP_COMPLETE then Some (0, acc, w1)
     else if reply line = REP_EPERM then Some (- EPERM, acc, w1)
     else if reply line = REP_ENOENT then Some (- ENOENT, acc, w1)
     else if reply line = REP_ERROR then Some (- EIO, acc, w1)
     else case ls_entry mktime (fmask w1) (get_this_year (now w)) (get_this_month (now w)) line of
         None \<Rightarrow> ls_loop so mktime fill entry line acc w1
       | Some (name, fattr) \<Rightarrow>
           if entry then ls_loop so mktime fill entry line (Some fattr, snd acc) w1
           else case fill (snd acc) name fattr of (r, c) \<Rightarrow>
             if r = 0 then Some (0, (fst acc, c), w1)
             else ls_loop so mktime fill entry line (fst acc, c) w1
   }"

definition do_ls ::
  "'f sockops \<Rightarrow> mktime_fn \<Rightarrow> ('c \<Rightarrow> string \<Rightarrow> shfs_fattr \<Rightarrow> int \<times> 'c) \<Rightarrow> 'f world \<Rightarrow> string \<Rightarrow> bool \<Rightarrow> 'c
    \<Rightarrow> (int \<times> string \<times> (shfs_fattr option \<times> 'c) \<times> 'f world) option" where
  "do_ls so mktime fill w file entry c =
    (case check_path file of (ok, file1) \<Rightarrow>
      if \<not> ok then Some (- ENAMETOOLONG, file1, (None, c), w)
      else do {
        (result, acc, w1) \<leftarrow> locked w (None, c) (\<lambda>w.
          case command_head w (if entry then ''s_stat'' else ''s_lsdir'') of
            None \<Rightarrow> Some (- ENAMETOOLONG, (None, c), w)
          | Some s \<Rightarrow>
             if length s + length file1 + 4 > SOCKBUF_SIZE then Some (- ENAMETOOLONG, (None, c), w)
             else let sockbuf = s @ quote1 file1 @ [NL] in do {
               (result, w1) \<leftarrow> sock_write so w sockbuf;
               if result < 0 then Some (result, (None, c), w1)
               else ls_loop so mktime fill entry sockbuf (None, c) w1
             });
        Some (result, file1, acc, w1)
      })"

definition shell_readdir ::
  "'f sockops \<Rightarrow> mktime_fn \<Rightarrow> ('c \<Rightarrow> string \<Rightarrow> shfs_fattr \<Rightarrow> int \<times> 'c) \<Rightarrow> 'f world \<Rightarrow> string \<Rightarrow> 'c
    \<Rightarrow> (int \<times> string \<times> 'c \<times> 'f world) option" where
  "shell_readdir so mktime fill w dir c = do {
     (result, dir1, acc, w1) \<leftarrow> do_ls so mktime fill w dir False c;
     Some (result, dir1, snd acc, w1)
   }"

definition shell_stat ::
  "'f sockops \<Rightarrow> mktime_fn \<Rightarrow> 'f world \<Rightarrow> string \<Rightarrow> (int \<times> string \<times> shfs_fattr option \<times> 'f world) option" where
  "shell_stat so mktime w file = do {
     (result, file1, acc, w1) \<leftarrow> do_ls so mktime (\<lambda>c _ _. (0, c)) w file True ();
     Some (result, file1, fst acc, w1)
   }"

section \<open>Reading and writing files\<close>

definition shell_open :: "'f sockops \<Rightarrow> 'f world \<Rightarrow> string \<Rightarrow> nat \<Rightarrow> (int \<times> string \<times> 'f world) option" where
  "shell_open so w file mode =
    (let bufmode = (if mode = 0 then ''R'' else if mode = 1 then ''W'' else ''RW'')
     in path_command so w file ''s_open'' (\<lambda>f. quote1 f @ [SP] @ bufmode))"

text \<open>The offset, the block size and the count in blocks: one block when the offset allows it.\<close>

definition read_block :: "nat \<Rightarrow> nat \<Rightarrow> nat \<times> nat \<times> nat" where
  "read_block offset count =
    (if count \<noteq> 0 \<and> offset mod count = 0 then (count, offset div count, 1) else (1, offset, count))"

definition read_args :: "string \<Rightarrow> nat \<Rightarrow> nat \<Rightarrow> nat \<Rightarrow> string" where
  "read_args file offset count ino =
    (case read_block offset count of (bs, offset2, count2) \<Rightarrow>
      quote1 file @ [SP] @ dec offset @ [SP] @ dec count @ [SP] @ dec bs @ [SP] @ dec offset2
        @ [SP] @ dec count2 @ (if ino \<noteq> 0 then [SP] @ dec (u64 (int ino)) else []) @ [NL])"

text \<open>The last part of \<open>shell_read\<close>: the bytes and the closing answer.\<close>

definition read_data ::
  "'f sockops \<Rightarrow> 'f world \<Rightarrow> string \<Rightarrow> nat \<Rightarrow> (int \<times> string \<times> 'f world) option" where
  "read_data so w sockbuf count = do {
     (result, bs, w1) \<leftarrow> sock_read so w count;
     if result < 0 then Some (result, bs, w1)
     else do {
       (result, line, w2) \<leftarrow> sock_readln so w1 sockbuf SOCKBUF_SIZE;
       if result < 0 then Some (result, bs, w2)
       else if reply line = REP_COMPLETE then Some (s32 (int count), bs, w2)
       else if reply line = REP_EPERM then Some (- EPERM, bs, w2)
       else if reply line = REP_ENOENT then Some (- ENOENT, bs, w2)
       else Some (- EIO, bs, w2)
     }
   }"

text \<open>
  \<open>shell_read\<close>; with an inode number the server answers how many bytes it sends, and that
  number is the count from then on.
\<close>

definition shell_read ::
  "'f sockops \<Rightarrow> 'f world \<Rightarrow> string \<Rightarrow> nat \<Rightarrow> nat \<Rightarrow> nat \<Rightarrow> (int \<times> string \<times> string \<times> 'f world) option" where
  "shell_read so w file offset count ino =
    (case check_path file of (ok, file1) \<Rightarrow>
      if \<not> ok then Some (- ENAMETOOLONG, file1, [], w)
      else do {
        (result, bs, w1) \<leftarrow> locked w [] (\<lambda>w.
          case command_head w (if ino \<noteq> 0 then ''s_sread'' else ''s_read'') of
            None \<Rightarrow> Some (- ENAMETOOLONG, [], w)
          | Some s \<Rightarrow>
             let sockbuf = s @ take (room s) (read_args file1 offset count ino) in do {
               (result, w1) \<leftarrow> sock_write so w sockbuf;
               if result < 0 then Some (result, [], w1)
               else do {
                 (result, line, w2) \<leftarrow> sock_readln so w1 sockbuf SOCKBUF_SIZE;
                 if result < 0 then Some (result, [], set_garbage w2 False (s32 (int count)))
                 else if reply line = REP_EPERM then Some (- EPERM, [], w2)
                 else if reply line = REP_ENOENT then Some (- ENOENT, [], w2)
                 else if reply line \<noteq> REP_PRELIM
                   then Some (- EIO, [], set_garbage w2 False (s32 (int count)))
                 else if ino \<noteq> 0 then do {
                   (result, line2, w3) \<leftarrow> sock_readln so w2 line SOCKBUF_SIZE;
                   if result < 0 then Some (result, [], w3)
                   else read_data so w3 line2 (u32 (int (strtoul line2)))
                 }
                 else read_data so w2 line count
               }
             });
        Some (result, file1, bs, w1)
      })"

definition write_args :: "string \<Rightarrow> nat \<Rightarrow> nat \<Rightarrow> nat \<Rightarrow> nat \<Rightarrow> nat \<Rightarrow> string" where
  "write_args file offset count bs offset2 ino =
    quote1 file @ [SP] @ dec offset @ [SP] @ dec count @ [SP] @ dec bs @ [SP] @ dec offset2
      @ [SP] @ dec (u64 (int ino)) @ [NL]"

text \<open>The last part of \<open>shell_write\<close>: the bytes and the closing answer.\<close>

definition write_data ::
  "'f sockops \<Rightarrow> 'f world \<Rightarrow> string \<Rightarrow> string \<Rightarrow> (int \<times> 'f world) option" where
  "write_data so w sockbuf data = do {
     (result, w1) \<leftarrow> sock_write so w data;
     if result < 0 then Some (result, w1)
     else do {
       (result, line, w2) \<leftarrow> sock_readln so w1 sockbuf SOCKBUF_SIZE;
       if result < 0 then Some (result, w2)
       else if reply line = REP_COMPLETE then Some (s32 (int (length data)), w2)
       else if reply line = REP_EPERM then Some (- EPERM, w2)
       else if reply line = REP_ENOENT then Some (- ENOENT, w2)
       else if reply line = REP_ENOSPC
         then Some (- ENOSPC, set_garbage w2 True (s32 (int (length data))))
       else Some (- EIO, w2)
     }
   }"

text \<open>\<open>shell_write\<close>. A cache size of 0 is a division by zero (None).\<close>

definition shell_write ::
  "'f sockops \<Rightarrow> 'f world \<Rightarrow> string \<Rightarrow> nat \<Rightarrow> nat \<Rightarrow> string \<Rightarrow> nat \<Rightarrow> (int \<times> string \<times> 'f world) option" where
  "shell_write so w file offset count buffer ino =
    (case check_path file of (ok, file1) \<Rightarrow>
      if \<not> ok then Some (- ENAMETOOLONG, file1, w)
      else if u32 (fcache_size w) = 0 then None
      else let fsize = u32 (fcache_size w);
               (offset2, bs) = (if offset mod fsize = 0 then (offset div fsize, fsize) else (offset, 1))
      in do {
        (result, _, w1) \<leftarrow> locked w () (\<lambda>w.
          case command_head w ''s_write'' of None \<Rightarrow> Some (- ENAMETOOLONG, (), w)
          | Some s \<Rightarrow>
             let sockbuf = s @ take (room s) (write_args file1 offset count bs offset2 ino) in do {
               (result, w1) \<leftarrow> sock_write so w sockbuf;
               if result < 0 then Some (result, (), w1)
               else do {
                 (result, line, w2) \<leftarrow> sock_readln so w1 sockbuf SOCKBUF_SIZE;
                 if result < 0 then Some (result, (), set_garbage w2 True (s32 (int count)))
                 else if reply line = REP_EPERM then Some (- EPERM, (), w2)
                 else if reply line = REP_ENOENT then Some (- ENOENT, (), w2)
                 else if reply line \<noteq> REP_PRELIM then Some (- EIO, (), w2)
                 else do {
                   (result, w3) \<leftarrow> write_data so w2 line (take count buffer);
                   Some (result, (), w3)
                 }
               }
             });
        Some (result, file1, w1)
      })"

section \<open>The other operations\<close>

definition shell_mkdir :: "'f sockops \<Rightarrow> 'f world \<Rightarrow> string \<Rightarrow> (int \<times> string \<times> 'f world) option" where
  "shell_mkdir so w dir = path_command so w dir ''s_mkdir'' quote1"

definition shell_rmdir :: "'f sockops \<Rightarrow> 'f world \<Rightarrow> string \<Rightarrow> (int \<times> string \<times> 'f world) option" where
  "shell_rmdir so w dir = path_command so w dir ''s_rmdir'' quote1"

definition shell_rename ::
  "'f sockops \<Rightarrow> 'f world \<Rightarrow> string \<Rightarrow> string \<Rightarrow> (int \<times> string \<times> string \<times> 'f world) option" where
  "shell_rename so w old new = two_path_command so w old new ''s_mv''"

definition shell_unlink :: "'f sockops \<Rightarrow> 'f world \<Rightarrow> string \<Rightarrow> (int \<times> string \<times> 'f world) option" where
  "shell_unlink so w file = path_command so w file ''s_rm'' quote1"

definition shell_create ::
  "'f sockops \<Rightarrow> 'f world \<Rightarrow> string \<Rightarrow> umode \<Rightarrow> (int \<times> string \<times> 'f world) option" where
  "shell_create so w file mode =
    path_command so w file ''s_creat'' (\<lambda>f. quote1 f @ [SP] @ oct (unat (mode AND S_IALLUGO)))"

definition shell_link ::
  "'f sockops \<Rightarrow> 'f world \<Rightarrow> string \<Rightarrow> string \<Rightarrow> (int \<times> string \<times> string \<times> 'f world) option" where
  "shell_link so w old new = two_path_command so w old new ''s_ln''"

definition shell_symlink ::
  "'f sockops \<Rightarrow> 'f world \<Rightarrow> string \<Rightarrow> string \<Rightarrow> (int \<times> string \<times> string \<times> 'f world) option" where
  "shell_symlink so w old new = two_path_command so w old new ''s_sln''"

text \<open>
  \<open>shell_readlink\<close>: the target is the first line, unless that line is a refusal; the second
  must complete the answer, otherwise the connection counts as out of step. \<open>real_name\<close> is the
  string in the caller's buffer, which is quoted too.
\<close>

definition shell_readlink ::
  "'f sockops \<Rightarrow> 'f world \<Rightarrow> string \<Rightarrow> string \<Rightarrow> (int \<times> string \<times> string \<times> 'f world) option" where
  "shell_readlink so w name real_name =
    (case check_path name of (ok, name1) \<Rightarrow>
      if \<not> ok then Some (- ENAMETOOLONG, name1, real_name, w)
      else case check_path real_name of (ok, real1) \<Rightarrow>
      if \<not> ok then Some (- ENAMETOOLONG, name1, real1, w)
      else do {
        (result, real2, w1) \<leftarrow> locked w real1 (\<lambda>w.
          case command_head w ''s_readlink'' of None \<Rightarrow> Some (- ENAMETOOLONG, real1, w)
          | Some s \<Rightarrow>
             if length s + length name1 + 4 > SOCKBUF_SIZE then Some (- ENAMETOOLONG, real1, w)
             else let sockbuf = s @ quote1 name1 @ [NL] in do {
               (result, w1) \<leftarrow> sock_write so w sockbuf;
               if result < 0 then Some (result, real1, w1)
               else do {
                 (result, line, w2) \<leftarrow> sock_readln so w1 sockbuf SOCKBUF_SIZE;
                 if result < 0 then Some (result, real1, w2)
                 else if reply line = REP_COMPLETE then Some (- EIO, real1, w2)
                 else if reply line = REP_EPERM then Some (- EPERM, real1, w2)
                 else let real2 = take (SHFS_PATH_MAX - 1) line in do {
                   (result, line2, w3) \<leftarrow> sock_readln so w2 line SOCKBUF_SIZE;
                   if result < 0 then Some (result, real2, w3)
                   else if reply line2 = REP_COMPLETE then Some (0, real2, w3)
                   else if reply line2 = REP_EPERM then Some (- EPERM, real2, w3)
                   else Some (- EIO, real2, w3\<lparr>garbage := True\<rparr>)
                 }
               }
             });
        Some (result, name1, real2, w1)
      })"

definition shell_chmod ::
  "'f sockops \<Rightarrow> 'f world \<Rightarrow> string \<Rightarrow> umode \<Rightarrow> (int \<times> string \<times> 'f world) option" where
  "shell_chmod so w file mode =
    path_command so w file ''s_chmod'' (\<lambda>f. quote1 f @ [SP] @ oct (unat mode))"

definition shell_chown ::
  "'f sockops \<Rightarrow> 'f world \<Rightarrow> string \<Rightarrow> nat \<Rightarrow> (int \<times> string \<times> 'f world) option" where
  "shell_chown so w file user = path_command so w file ''s_chown'' (\<lambda>f. quote1 f @ [SP] @ dec user)"

definition shell_chgrp ::
  "'f sockops \<Rightarrow> 'f world \<Rightarrow> string \<Rightarrow> nat \<Rightarrow> (int \<times> string \<times> 'f world) option" where
  "shell_chgrp so w file grp = path_command so w file ''s_chgrp'' (\<lambda>f. quote1 f @ [SP] @ dec grp)"

text \<open>\<open>shell_trunc\<close>: size and block count for \<open>dd\<close>, the size cut to 32 bits.\<close>

definition trunc_args :: "nat \<Rightarrow> string" where
  "trunc_args len =
    (let (size1, seek) = (if len = 0 then (1, 0) else (len, 1))
     in dec (u32 (int size1)) @ [SP] @ dec seek)"

definition shell_trunc ::
  "'f sockops \<Rightarrow> 'f world \<Rightarrow> string \<Rightarrow> nat \<Rightarrow> (int \<times> string \<times> 'f world) option" where
  "shell_trunc so w file len =
    path_command so w file ''s_trunc'' (\<lambda>f. quote1 f @ [SP] @ trunc_args len)"

definition shell_settime ::
  "'f sockops \<Rightarrow> 'f world \<Rightarrow> string \<Rightarrow> bool \<Rightarrow> bool \<Rightarrow> timespec \<Rightarrow> (int \<times> string \<times> 'f world) option" where
  "shell_settime so w file atime mtime time =
    path_command so w file ''s_settime''
      (\<lambda>f. quote1 f @ [SP] @ (if atime then ''a'' else []) @ (if mtime then ''m'' else []) @ [SP]
         @ strctime time)"

text \<open>
  \<open>shell_statfs\<close>: the defaults, then up to three numbers of the answer, in KB, turned into
  blocks of 4 KB. The second is the space used. \<open>f_bavail\<close> is set twice before.
\<close>

definition statfs_default :: kstatfs where
  "statfs_default = \<lparr>st_type = SHFS_SUPER_MAGIC, st_bsize = 4096, st_blocks = 0, st_bfree = 0,
     st_bavail = 1, st_files = 1, st_namelen = SHFS_PATH_MAX\<rparr>"

definition statfs_line :: "kstatfs \<Rightarrow> string \<Rightarrow> kstatfs" where
  "statfs_line a line =
    (case strsep SP line of (p1, r1) \<Rightarrow>
      let a1 = a\<lparr>st_blocks := strtoul p1 div 4\<rparr> in
      case r1 of None \<Rightarrow> a1
      | Some s1 \<Rightarrow> (case strsep SP s1 of (p2, r2) \<Rightarrow>
          let a2 = a1\<lparr>st_bfree := u64 (int (st_blocks a1) - int (strtoul p2 div 4))\<rparr> in
          case r2 of None \<Rightarrow> a2
          | Some s2 \<Rightarrow> (case strsep SP s2 of (p3, _) \<Rightarrow> a2\<lparr>st_bavail := strtoul p3 div 4\<rparr>)))"

definition shell_statfs :: "'f sockops \<Rightarrow> 'f world \<Rightarrow> (int \<times> kstatfs \<times> 'f world) option" where
  "shell_statfs so w =
    locked w statfs_default (\<lambda>w.
      case command_head w ''s_statfs'' of None \<Rightarrow> Some (- ENAMETOOLONG, statfs_default, w)
      | Some s \<Rightarrow>
         let sockbuf = s @ [NL] in do {
           (result, w1) \<leftarrow> sock_write so w sockbuf;
           if result < 0 then Some (result, statfs_default, w1)
           else do {
             (result, line, w2) \<leftarrow> sock_readln so w1 sockbuf SOCKBUF_SIZE;
             if result < 0 then Some (result, statfs_default, w2)
             else let attr = statfs_line statfs_default line in do {
               (result, line2, w3) \<leftarrow> sock_readln so w2 line SOCKBUF_SIZE;
               if result < 0 then Some (result, attr, w3)
               else if reply line2 = REP_COMPLETE then Some (0, attr, w3)
               else if reply line2 = REP_EPERM then Some (- EPERM, attr, w3)
               else Some (- EIO, attr, w3\<lparr>garbage := True\<rparr>)
             }
           }
         })"

definition shell_finish :: "'f sockops \<Rightarrow> 'f world \<Rightarrow> (int \<times> 'f world) option" where
  "shell_finish so w = do_command so w ''s_finish'' []"

text \<open>The table, but for \<open>readdir\<close>, whose callback depends on the caller.\<close>

definition shell_fops :: "'f sockops \<Rightarrow> mktime_fn \<Rightarrow> 'f world shfs_fileops" where
  "shell_fops so mktime =
    \<lparr>op_stat = shell_stat so mktime, op_open = shell_open so, op_read = shell_read so,
     op_write = shell_write so, op_mkdir = shell_mkdir so, op_rmdir = shell_rmdir so,
     op_rename = shell_rename so, op_unlink = shell_unlink so, op_create = shell_create so,
     op_link = shell_link so, op_symlink = shell_symlink so, op_readlink = shell_readlink so,
     op_chmod = shell_chmod so, op_chown = shell_chown so, op_chgrp = shell_chgrp so,
     op_trunc = shell_trunc so, op_settime = shell_settime so, op_statfs = shell_statfs so,
     op_finish = shell_finish so\<rparr>"

end
