(* ===== verification/FCache.thy ===== *)
theory FCache
  imports World
begin

text \<open>
  The file cache, \<open>fcache.c\<close>: one buffer per inode that is either a clean read-ahead window of
  the remote file (\<open>FCACHE_READ\<close>) or a dirty run of bytes not yet sent (\<open>FCACHE_WRITE\<close>). The
  operations get the table \<open>fops\<close>, the allocator, the uninitialised stack buffer \<open>stk\<close> that
  \<open>get_name\<close> fills, the world and the dentry (None: a file without dentry), and answer the
  result with the new dentry and world; the outer option is termination.
\<close>

section \<open>Allocation\<close>

text \<open>
  The allocator: whether \<open>kmem_cache_alloc\<close> succeeds, and what \<open>vmalloc\<close> answers for a size.
\<close>

record allocator =
  kmem_ok :: bool
  vmalloc :: "nat \<Rightarrow> string option"

definition alloc_fcache :: "allocator \<Rightarrow> 'f world \<Rightarrow> shfs_file option \<times> 'f world" where
  "alloc_fcache mm w =
    (if fcache_free w \<le> 0 then (None, w)
     else let w1 = w\<lparr>fcache_free := fcache_free w - 1\<rparr> in
       if \<not> kmem_ok mm then (None, w1)
       else case vmalloc mm (nat (fcache_size w)) of
           None \<Rightarrow> (None, w1)
         | Some d \<Rightarrow> (Some \<lparr>fc_type = FCACHE_READ, fc_new = True, fc_offset = 0, fc_count = 0,
                            fc_data = d\<rparr>, w1))"

definition free_fcache :: "'f world \<Rightarrow> shfs_file \<Rightarrow> 'f world" where
  "free_fcache w c = w\<lparr>fcache_free := fcache_free w + 1\<rparr>"

section \<open>Opening, flushing and closing\<close>

text \<open>
  The checks that open the operations: the dentry and its inode, then the inode's kind and
  private data; they answer the inode and its \<open>shfs_inode_info\<close>.
\<close>

definition fcache_inode :: "dentry option \<Rightarrow> (dentry \<times> inode) option" where
  "fcache_inode fd = (case fd of None \<Rightarrow> None
     | Some d \<Rightarrow> (case d_inode d of None \<Rightarrow> None | Some i \<Rightarrow> Some (d, i)))"

definition inode_info_ok :: "inode \<Rightarrow> shfs_inode_info option" where
  "inode_info_ok i = (if S_ISDIR (i_mode i) then None else i_private i)"

definition set_cache :: "dentry \<Rightarrow> inode \<Rightarrow> shfs_inode_info \<Rightarrow> shfs_file option \<Rightarrow> dentry" where
  "set_cache d i p c = d\<lparr>d_inode := Some (i\<lparr>i_private := Some (p\<lparr>cache := c\<rparr>)\<rparr>)\<rparr>"

definition fcache_file_open ::
  "allocator \<Rightarrow> 'f world \<Rightarrow> dentry option \<Rightarrow> int \<times> dentry option \<times> 'f world" where
  "fcache_file_open mm w fd =
    (case fcache_inode fd of None \<Rightarrow> (- EINVAL, fd, w)
     | Some (d, i) \<Rightarrow>
        (case inode_info_ok i of None \<Rightarrow> (- EINVAL, fd, w)
         | Some p \<Rightarrow>
            (case cache p of Some c \<Rightarrow> (0, fd, w)
             | None \<Rightarrow> (case alloc_fcache mm w of (c, w1) \<Rightarrow> (0, Some (set_cache d i p c), w1)))))"

definition fcache_file_sync ::
  "'f world shfs_fileops \<Rightarrow> string \<Rightarrow> 'f world \<Rightarrow> dentry option
    \<Rightarrow> (int \<times> dentry option \<times> 'f world) option" where
  "fcache_file_sync fops stk w fd =
    (case fcache_inode fd of None \<Rightarrow> Some (- EINVAL, fd, w)
     | Some (d, i) \<Rightarrow>
        (case inode_info_ok i of None \<Rightarrow> Some (- EINVAL, fd, w)
         | Some p \<Rightarrow>
            (case cache p of None \<Rightarrow> Some (0, fd, w)
             | Some c \<Rightarrow>
                if fc_count c \<noteq> 0 \<and> fc_type c = FCACHE_WRITE then
                  (case get_name (d_names d) stk of (gn, name) \<Rightarrow>
                    if gn < 0 then Some (- ENAMETOOLONG, fd, w)
                    else do {
                      (result, _, w1) \<leftarrow> op_write fops w (c_str name) (u32 (int (fc_offset c)))
                        (u32 (int (fc_count c))) (fc_data c) (i_ino i);
                      Some (if result < 0 then result else 0,
                        Some (set_cache d i p (Some (c\<lparr>fc_type := FCACHE_READ, fc_count := 0\<rparr>))), w1)
                    })
                else Some (0, fd, w))))"

definition fcache_file_close ::
  "'f world shfs_fileops \<Rightarrow> string \<Rightarrow> 'f world \<Rightarrow> dentry option
    \<Rightarrow> (int \<times> dentry option \<times> 'f world) option" where
  "fcache_file_close fops stk w fd = do {
     (result, fd1, w1) \<leftarrow> fcache_file_sync fops stk w fd;
     if result = 0 then
       (case fcache_inode fd1 of None \<Rightarrow> Some (- EINVAL, fd1, w1)
        | Some (d, i) \<Rightarrow>
           (case i_private i of None \<Rightarrow> Some (- EINVAL, fd1, w1)
            | Some p \<Rightarrow>
               (case cache p of None \<Rightarrow> Some (0, fd1, w1)
                | Some c \<Rightarrow> Some (0, Some (set_cache d i p None), free_fcache w1 c))))
     else Some (if result < 0 then result else 0, fd1, w1)
   }"

definition fcache_file_clear :: "inode option \<Rightarrow> int \<times> inode option" where
  "fcache_file_clear io =
    (case io of None \<Rightarrow> (- EINVAL, io)
     | Some i \<Rightarrow>
        if S_ISDIR (i_mode i) then (- EINVAL, io)
        else (case i_private i of None \<Rightarrow> (- EINVAL, io)
          | Some p \<Rightarrow>
             (case cache p of None \<Rightarrow> (0, io)
              | Some c \<Rightarrow>
                 if fc_count c \<noteq> 0 \<and> fc_type c \<noteq> FCACHE_WRITE
                 then (0, Some (i\<lparr>i_private := Some (p\<lparr>cache := Some (c\<lparr>fc_count := 0\<rparr>)\<rparr>)\<rparr>))
                 else (0, io))))"

section \<open>Reading\<close>

text \<open>
  How many bytes of a request the cache holds (0: no hit). The bytes are those at
  \<open>offset - cache->offset\<close> of the buffer.
\<close>

definition fcache_hit :: "shfs_file \<Rightarrow> nat \<Rightarrow> nat \<Rightarrow> nat" where
  "fcache_hit c offset count =
    (if fc_offset c \<le> offset \<and> offset < fc_offset c + fc_count c then
       let o1 = offset - fc_offset c
       in if count > fc_count c - o1 then fc_count c - o1 else count
     else 0)"

text \<open>
  The inner loop \<open>while (y && z) if (y > z) y %= z; else z %= y;\<close> and its result: the greatest
  common divisor (\<open>hd_loop_gcd\<close>), here of the page's offset and the read-ahead.
\<close>

function hd_loop :: "nat \<Rightarrow> nat \<Rightarrow> nat" where
  "hd_loop y z =
    (if y \<noteq> 0 \<and> z \<noteq> 0 then (if y > z then hd_loop (y mod z) z else hd_loop y (z mod y))
     else if y > z then y else z)"
  by pat_completeness auto
termination
  by (relation "measure (\<lambda>(y, z). y + z)") (auto intro: less_le_trans [OF mod_less_divisor])

declare hd_loop.simps [simp del]

text \<open>
  The choice of the window to read for the position \<open>off\<close>: the new state of the cache's window
  and the read-ahead, with the wrap-arounds of \<open>unsigned\<close>. None is the division by zero of
  \<open>o % readahead\<close>.
\<close>

definition readahead :: "int \<Rightarrow> shfs_file \<Rightarrow> nat \<Rightarrow> nat \<Rightarrow> (shfs_file \<times> nat) option" where
  "readahead fsize c off cnt =
    (let o1 = off - off mod PAGE_SIZE;
         x = off - o1;
         (c1, ra0) = (if fc_offset c + fc_count c = off then (c, u32 (int (fc_count c)))
                      else (c\<lparr>fc_offset := o1, fc_count := 0\<rparr>, 0));
         ra1 = (if ra0 < u32 (int (x + cnt)) then u32 (int (x + cnt)) else ra0);
         ra2 = u32 (int ((ra1 + PAGE_SIZE - 1) div PAGE_SIZE * PAGE_SIZE));
         ra3 = (if ra2 > u32 fsize then u32 fsize else ra2)
     in if ra3 = 0 then None
        else let ra4 = (if o1 mod ra3 \<noteq> 0 then hd_loop o1 ra3 else ra3);
                 c2 = (if fc_count c1 + ra4 > u64 fsize
                       then c1\<lparr>fc_offset := o1, fc_count := 0\<rparr> else c1)
             in Some (c2, ra4))"

text \<open>The loop \<open>while (count)\<close> that fills the rest of the request from the remote side.\<close>

partial_function (option) fcache_read_loop ::
  "'f world shfs_fileops \<Rightarrow> nat \<Rightarrow> nat \<Rightarrow> nat \<Rightarrow> shfs_file \<Rightarrow> string \<Rightarrow> string \<Rightarrow> 'f world
    \<Rightarrow> (int \<times> string \<times> shfs_file \<times> 'f world) option" where
  "fcache_read_loop fops off cnt rd c name buf w =
    (if cnt = 0 then Some (s32 (int rd), buf, c, w)
     else do {
       (c1, ra) \<leftarrow> readahead (fcache_size w) c off cnt;
       (result, name1, bs, w1) \<leftarrow> op_read fops w name (off - off mod PAGE_SIZE) ra 0;
       let x = off mod PAGE_SIZE;
       let d = blit (fc_data c1) (fc_count c1) bs;
       if result < 0 then Some (result, buf, c1\<lparr>fc_data := d, fc_count := 0\<rparr>, w1)
       else
         let n0 = u32 (result - int x);
             n = (if n0 > cnt then cnt else n0)
         in fcache_read_loop fops (u32 (int (off + n))) (cnt - n) (u32 (int (rd + n)))
              (c1\<lparr>fc_data := d, fc_count := fc_count c1 + nat result\<rparr>) name1
              (buf @ take n (drop (fc_count c1 + x) d)) w1
     })"

text \<open>The flush that a read does when a dirty cache does not hold the whole request.\<close>

definition fcache_read_flush ::
  "'f world shfs_fileops \<Rightarrow> nat \<Rightarrow> nat \<Rightarrow> nat \<Rightarrow> shfs_file \<Rightarrow> string \<Rightarrow> 'f world
    \<Rightarrow> (shfs_file \<times> string \<times> 'f world) option" where
  "fcache_read_flush fops ino off cnt c name w =
    (if cnt \<noteq> 0 \<and> fc_type c = FCACHE_WRITE then do {
       (_, name1, w1) \<leftarrow> op_write fops w name (u32 (int (fc_offset c))) (u32 (int (fc_count c)))
         (fc_data c) ino;
       Some (c\<lparr>fc_type := FCACHE_READ, fc_offset := off, fc_count := 0\<rparr>, name1, w1)
     } else Some (c, name, w))"

definition fcache_read_cached ::
  "'f world shfs_fileops \<Rightarrow> nat \<Rightarrow> shfs_file \<Rightarrow> string \<Rightarrow> nat \<Rightarrow> nat \<Rightarrow> 'f world
    \<Rightarrow> (int \<times> string \<times> shfs_file \<times> 'f world) option" where
  "fcache_read_cached fops ino c name offset count w =
    (let n = fcache_hit c offset count;
         buf = take n (drop (offset - fc_offset c) (fc_data c));
         off1 = u32 (int (offset + n))
     in do {
       (c1, name1, w1) \<leftarrow> fcache_read_flush fops ino off1 (count - n) c name w;
       fcache_read_loop fops off1 (count - n) n c1 name1 buf w1
     })"

text \<open>
  \<open>fcache_file_read\<close>: the result, the bytes stored in the caller's buffer, the dentry and the
  world. Without a cache and without memory for one the remote side is read directly.
\<close>

definition fcache_file_read ::
  "'f world shfs_fileops \<Rightarrow> allocator \<Rightarrow> string \<Rightarrow> 'f world \<Rightarrow> dentry option \<Rightarrow> nat \<Rightarrow> nat
    \<Rightarrow> (int \<times> string \<times> dentry option \<times> 'f world) option" where
  "fcache_file_read fops mm stk w fd offset count =
    (case fcache_inode fd of None \<Rightarrow> Some (- EINVAL, [], fd, w)
     | Some (d, i) \<Rightarrow>
        (case get_name (d_names d) stk of (gn, name) \<Rightarrow>
          if gn < 0 then Some (- ENAMETOOLONG, [], fd, w)
          else case inode_info_ok i of None \<Rightarrow> Some (- EINVAL, [], fd, w)
          | Some p \<Rightarrow>
             (case (case cache p of Some c \<Rightarrow> (Some c, w) | None \<Rightarrow> alloc_fcache mm w) of
                (None, w1) \<Rightarrow> do {
                  (result, _, bs, w2) \<leftarrow> op_read fops w1 (c_str name) offset count 0;
                  Some (result, bs, Some (set_cache d i p None), w2)
                }
              | (Some c, w1) \<Rightarrow> do {
                  (result, bs, c1, w2) \<leftarrow>
                    fcache_read_cached fops (i_ino i) c (c_str name) offset count w1;
                  Some (result, bs, Some (set_cache d i p (Some c1)), w2)
                })))"

section \<open>Writing\<close>

text \<open>
  The part of a write that falls on bytes the cache holds, and the part that extends them; both
  answer how many bytes they took. \<open>fcache_size - o\<close> is computed in \<open>unsigned\<close>,
  \<open>fcache_size - cache->count\<close> in \<open>unsigned long\<close>.
\<close>

definition fcache_write_hit :: "int \<Rightarrow> shfs_file \<Rightarrow> nat \<Rightarrow> string \<Rightarrow> nat \<Rightarrow> shfs_file \<times> nat" where
  "fcache_write_hit fsize c offset buf count =
    (if fc_offset c \<le> offset \<and> offset < fc_offset c + fc_count c then
       let o1 = offset - fc_offset c;
           room = u32 (fsize - int o1);
           n = (if count > room then room else count)
       in (c\<lparr>fc_data := blit (fc_data c) o1 (take n buf),
             fc_count := if o1 + n > fc_count c then o1 + n else fc_count c\<rparr>, n)
     else (c, 0))"

definition fcache_write_append :: "int \<Rightarrow> shfs_file \<Rightarrow> nat \<Rightarrow> string \<Rightarrow> nat \<Rightarrow> shfs_file \<times> nat" where
  "fcache_write_append fsize c offset buf count =
    (if count \<noteq> 0 \<and> offset = fc_offset c + fc_count c then
       let o1 = offset - fc_offset c;
           room = u64 (fsize - int (fc_count c));
           n = (if count > room then room else count)
       in (c\<lparr>fc_data := blit (fc_data c) o1 (take n buf), fc_count := fc_count c + n\<rparr>, n)
     else (c, 0))"

text \<open>The loop that sends the full buffer and starts a new one, until the request is taken.\<close>

partial_function (option) fcache_write_loop ::
  "'f world shfs_fileops \<Rightarrow> nat \<Rightarrow> nat \<Rightarrow> nat \<Rightarrow> nat \<Rightarrow> int \<Rightarrow> shfs_file \<Rightarrow> string \<Rightarrow> string
    \<Rightarrow> 'f world \<Rightarrow> (int \<times> nat \<times> shfs_file \<times> string \<times> 'f world) option" where
  "fcache_write_loop fops ino off cnt wrote result c name buf w =
    (if cnt = 0 then Some (result, wrote, c, name, w)
     else do {
       (res, name1, w1) \<leftarrow> op_write fops w name (u32 (int (fc_offset c)))
         (u32 (int (fc_count c))) (fc_data c) ino;
       if res < 0 then Some (res, wrote, c, name1, w1)
       else
         let n = (if cnt > u32 (fcache_size w1) then u32 (fcache_size w1) else cnt)
         in fcache_write_loop fops ino (u32 (int (off + n))) (cnt - n) (u32 (int (wrote + n))) res
              (c\<lparr>fc_data := blit (fc_data c) 0 (take n buf), fc_offset := off, fc_count := n\<rparr>)
              name1 (drop n buf) w1
     })"

text \<open>
  The work on the cache: a clean cache starts a dirty run at the write's offset; the bytes go
  into the run, then behind it, then the loop; a new cache sends its first byte at once, so
  that a file that cannot be written is reported early.
\<close>

definition fcache_write_cached ::
  "'f world shfs_fileops \<Rightarrow> nat \<Rightarrow> shfs_file \<Rightarrow> string \<Rightarrow> nat \<Rightarrow> nat \<Rightarrow> string \<Rightarrow> 'f world
    \<Rightarrow> (int \<times> shfs_file \<times> 'f world) option" where
  "fcache_write_cached fops ino c name offset count buf w =
    (let c0 = (if fc_type c = FCACHE_READ
               then c\<lparr>fc_offset := offset, fc_count := 0, fc_type := FCACHE_WRITE\<rparr> else c);
         (c1, n1) = fcache_write_hit (fcache_size w) c0 offset buf count;
         off1 = u32 (int (offset + n1)); cnt1 = count - n1; buf1 = drop n1 buf;
         (c2, n2) = fcache_write_append (fcache_size w) c1 off1 buf1 cnt1;
         off2 = u32 (int (off1 + n2)); cnt2 = cnt1 - n2; buf2 = drop n2 buf1
     in do {
       (result, wrote, c3, name1, w1) \<leftarrow>
         fcache_write_loop fops ino off2 cnt2 (u32 (int (n1 + n2))) 0 c2 name buf2 w;
       (result2, c4, w2) \<leftarrow>
         (if fc_new c3 \<and> wrote \<noteq> 0 then do {
            (res, _, w2) \<leftarrow> op_write fops w1 name1 (u32 (int (fc_offset c3))) 1 (fc_data c3) ino;
            Some (res, c3\<lparr>fc_new := False\<rparr>, w2)
          } else Some (result, c3, w1));
       Some (if result2 \<ge> 0 then s32 (int wrote) else result2, c4, w2)
     })"

definition fcache_file_write ::
  "'f world shfs_fileops \<Rightarrow> allocator \<Rightarrow> string \<Rightarrow> 'f world \<Rightarrow> dentry \<Rightarrow> nat \<Rightarrow> nat \<Rightarrow> string
    \<Rightarrow> (int \<times> dentry \<times> 'f world) option" where
  "fcache_file_write fops mm stk w d offset count buf =
    (case d_inode d of None \<Rightarrow> Some (- EINVAL, d, w)
     | Some i \<Rightarrow>
        (case get_name (d_names d) stk of (gn, name) \<Rightarrow>
          if gn < 0 then Some (- ENAMETOOLONG, d, w)
          else case inode_info_ok i of None \<Rightarrow> Some (- EINVAL, d, w)
          | Some p \<Rightarrow>
             (case (case cache p of Some c \<Rightarrow> (Some c, w) | None \<Rightarrow> alloc_fcache mm w) of
                (None, w1) \<Rightarrow> do {
                  (result, _, w2) \<leftarrow> op_write fops w1 (c_str name) offset count buf (i_ino i);
                  Some (result, set_cache d i p None, w2)
                }
              | (Some c, w1) \<Rightarrow> do {
                  (result, c1, w2) \<leftarrow>
                    fcache_write_cached fops (i_ino i) c (c_str name) offset count buf w1;
                  Some (result, set_cache d i p (Some c1), w2)
                })))"

end
