(* ===== verification/FCacheSpec.thy ===== *)
theory FCacheSpec
  imports FCache
begin

text \<open>
  What the file cache promises. The abstract state of a cached file is one function from
  positions to bytes, \<open>fc_view\<close>: the remote content with the dirty run laid over it. Reads answer
  slices of the view, writes patch it, and a flush makes the remote content equal to it. The
  contract the cache needs of the remote side is the locale \<open>remote_file\<close>.
\<close>

section \<open>The abstraction and the invariants\<close>

definition fc_view :: "shfs_file \<Rightarrow> (nat \<Rightarrow> char) \<Rightarrow> nat \<Rightarrow> char" where
  "fc_view c f = (if fc_type c = FCACHE_WRITE
     then patch f (fc_offset c) (take (fc_count c) (fc_data c)) else f)"

text \<open>Memory safety: the buffer keeps its allocated size and the window lies in it.\<close>

definition fc_wf :: "nat \<Rightarrow> shfs_file \<Rightarrow> bool" where
  "fc_wf S c \<longleftrightarrow> length (fc_data c) = S \<and> fc_count c \<le> S"

text \<open>A clean window shows the remote bytes and, unless it is empty, lies on page boundaries.\<close>

definition fc_clean :: "shfs_file \<Rightarrow> (nat \<Rightarrow> char) \<Rightarrow> bool" where
  "fc_clean c f \<longleftrightarrow> fc_type c = FCACHE_READ \<and>
     take (fc_count c) (fc_data c) = fslice f (fc_offset c) (fc_count c) \<and>
     (fc_count c = 0 \<or> PAGE_SIZE dvd fc_offset c \<and> PAGE_SIZE dvd fc_count c)"

definition fc_ok :: "nat \<Rightarrow> shfs_file \<Rightarrow> (nat \<Rightarrow> char) \<Rightarrow> bool" where
  "fc_ok S c f \<longleftrightarrow> fc_wf S c \<and>
     (fc_type c = FCACHE_READ \<longrightarrow> fc_clean c f) \<and>
     fc_offset c + fc_count c < 4294967296"

text \<open>The size of the cache is a positive number of pages, and an \<open>int\<close>.\<close>

definition fsize_ok :: "nat \<Rightarrow> bool" where
  "fsize_ok S \<longleftrightarrow> 0 < S \<and> PAGE_SIZE dvd S \<and> S < 2147483648"

lemma view_clean [simp]: "fc_type c = FCACHE_READ \<Longrightarrow> fc_view c f = f"
  by (simp add: fc_view_def)

section \<open>The choice of the window\<close>

lemma hd_loop_gcd: "hd_loop y z = gcd y z"
proof (induction y z rule: hd_loop.induct)
  case (1 y z)
  show ?case
  proof (cases "y \<noteq> 0 \<and> z \<noteq> 0")
    case True
    with 1 show ?thesis
      by (simp add: hd_loop.simps [of y z] gcd.commute gcd_red_nat [symmetric])
  next
    case False
    then show ?thesis by (auto simp: hd_loop.simps [of y z])
  qed
qed

lemma page_dvd_base: "PAGE_SIZE dvd off - off mod PAGE_SIZE"
  by (simp add: minus_mod_eq_mult_div)

text \<open>
  The window chosen is page aligned, not empty, within the buffer, and divides the page's
  offset, so the remote side can read it as one block; the cache is either extended in place
  or restarted at the page.
\<close>

lemma readahead_spec:
  assumes S: "fsize_ok S" and wf: "fc_wf S c" and cnt: "0 < cnt"
    and fits: "off + cnt + S + PAGE_SIZE < 4294967296"
  obtains c2 ra where "readahead (int S) c off cnt = Some (c2, ra)"
    and "0 < ra" and "PAGE_SIZE dvd ra" and "ra \<le> S" and "ra dvd off - off mod PAGE_SIZE"
    and "fc_count c2 + ra \<le> S" and "fc_data c2 = fc_data c" and "fc_type c2 = fc_type c"
    and "fc_new c2 = fc_new c"
    and "c2 = c \<and> fc_offset c + fc_count c = off \<or>
         fc_offset c2 = off - off mod PAGE_SIZE \<and> fc_count c2 = 0"
proof -
  let ?o = "off - off mod PAGE_SIZE" and ?x = "off mod PAGE_SIZE"
  define c1 where "c1 = (if fc_offset c + fc_count c = off then c
    else c\<lparr>fc_offset := ?o, fc_count := 0\<rparr>)"
  define ra0 where "ra0 = (if fc_offset c + fc_count c = off then fc_count c else 0)"
  define ra1 where "ra1 = max ra0 (?x + cnt)"
  define ra2 where "ra2 = (ra1 + PAGE_SIZE - 1) div PAGE_SIZE * PAGE_SIZE"
  define ra3 where "ra3 = min ra2 S"
  define ra4 where "ra4 = gcd ?o ra3"
  define c2 where "c2 = (if fc_count c1 + ra4 > S then c1\<lparr>fc_offset := ?o, fc_count := 0\<rparr> else c1)"
  have S': "S < 2147483648" "0 < S" "PAGE_SIZE dvd S" using S by (auto simp: fsize_ok_def)
  have cc: "fc_count c \<le> S" using wf by (simp add: fc_wf_def)
  have x: "?x + cnt \<le> off + cnt" by (simp add: mod_less_eq_dividend)
  have ra0: "ra0 \<le> S" using cc by (simp add: ra0_def)
  have ra1: "ra1 + PAGE_SIZE < 4294967296" "0 < ra1"
    using ra0 x fits S' cnt by (auto simp: ra1_def)
  have ra2: "ra2 < 4294967296" "0 < ra2" "PAGE_SIZE dvd ra2"
    using ra1 by (auto simp: ra2_def)
  have ra3: "0 < ra3" "ra3 \<le> S" "PAGE_SIZE dvd ra3"
    using ra2 S' by (auto simp: ra3_def min_def)
  have ra4: "0 < ra4" "ra4 \<le> ra3" "PAGE_SIZE dvd ra4" "ra4 dvd ?o"
    using ra3 page_dvd_base [of off] by (auto simp: ra4_def intro: gcd_le2_nat)
  have hd: "(if ?o mod ra3 \<noteq> 0 then hd_loop ?o ra3 else ra3) = ra4"
    by (auto simp: ra4_def hd_loop_gcd gcd_nat.absorb2 mod_eq_0_iff_dvd)
  have xs: "off - ?o = ?x" by (simp add: mod_less_eq_dividend)
  have c1c: "fc_count c1 \<le> S" using cc by (simp add: c1_def)
  have pair: "(if fc_offset c + fc_count c = off then (c, u32 (int (fc_count c)))
      else (c\<lparr>fc_offset := ?o, fc_count := 0\<rparr>, 0)) = (c1, ra0)"
    using cc S' by (simp add: c1_def ra0_def)
  have u: "u32 (int (?x + cnt)) = ?x + cnt" "u32 (int S) = S" "u64 (int S) = S"
    "u32 (int ((ra1 + PAGE_SIZE - 1) div PAGE_SIZE * PAGE_SIZE)) = ra2"
    using x fits S' ra2 by (simp_all add: u64_def ra2_def)
  have sel: "(if ra0 < ?x + cnt then ?x + cnt else ra0) = ra1" "(if S < ra2 then S else ra2) = ra3"
    by (auto simp: ra1_def ra3_def)
  have eq: "readahead (int S) c off cnt = Some (c2, ra4)"
    unfolding readahead_def Let_def xs pair prod.case u sel hd c2_def
    using ra3 by simp
  show thesis
  proof (rule that [OF eq])
    show "0 < ra4" "PAGE_SIZE dvd ra4" "ra4 dvd ?o" by (fact ra4)+
    show "ra4 \<le> S" using ra4 ra3 by simp
    then show "fc_count c2 + ra4 \<le> S" by (simp add: c2_def)
    show "fc_data c2 = fc_data c" "fc_type c2 = fc_type c" "fc_new c2 = fc_new c"
      by (simp_all add: c2_def c1_def)
    show "c2 = c \<and> fc_offset c + fc_count c = off \<or> fc_offset c2 = ?o \<and> fc_count c2 = 0"
      by (simp add: c2_def c1_def)
  qed
qed

section \<open>The remote side as the cache sees it\<close>

text \<open>
  The contract of \<open>fops.read\<close> and \<open>fops.write\<close>: in a good state of the connection a read of a
  non-empty block answers exactly the bytes of the block, a write of \<open>n\<close> bytes patches the file
  with them, and both leave the path buffer and the state good.
\<close>

locale remote_file =
  fixes fops :: "'f world shfs_fileops"
    and content :: "'f world \<Rightarrow> string \<Rightarrow> nat \<Rightarrow> char"
    and good :: "'f world \<Rightarrow> string \<Rightarrow> bool"
  assumes read_spec: "good w name \<Longrightarrow> 0 < n \<Longrightarrow> n < 2147483648 \<Longrightarrow> off + n < 4294967296 \<Longrightarrow>
      \<exists>w'. op_read fops w name off n 0 = Some (int n, name, fslice (content w name) off n, w') \<and>
        content w' name = content w name \<and> good w' name \<and> fcache_size w' = fcache_size w \<and>
        fcache_free w' = fcache_free w"
    and write_spec: "good w name \<Longrightarrow> n \<le> length data \<Longrightarrow> n < 2147483648 \<Longrightarrow>
      off + n < 4294967296 \<Longrightarrow>
      \<exists>w'. op_write fops w name off n data ino = Some (int n, name, w') \<and>
        content w' name = patch (content w name) off (take n data) \<and> good w' name \<and>
        fcache_size w' = fcache_size w \<and> fcache_free w' = fcache_free w"
    and slots_irrelevant: "good (w\<lparr>fcache_free := k\<rparr>) name = good w name"
      "content (w\<lparr>fcache_free := k\<rparr>) = content w"

text \<open>
  One filled window: the block read at the page's offset goes behind the bytes the window holds,
  and the request's bytes are found at the page's remainder in it.
\<close>

definition fill_window :: "shfs_file \<Rightarrow> (nat \<Rightarrow> char) \<Rightarrow> nat \<Rightarrow> nat \<Rightarrow> shfs_file" where
  "fill_window c f base ra =
    c\<lparr>fc_data := blit (fc_data c) (fc_count c) (fslice f base ra), fc_count := fc_count c + ra\<rparr>"

lemma fill_window_data:
  assumes "fc_wf S c" and "fc_count c + ra \<le> S"
  shows "take (fc_count c + ra) (fc_data (fill_window c f base ra)) =
    take (fc_count c) (fc_data c) @ fslice f base ra"
  using assms take_blit_end [of "fc_count c" "fslice f base ra" "fc_data c"]
  by (simp add: fill_window_def fc_wf_def)

lemma fill_window_wf:
  assumes "fc_wf S c" and "fc_count c + ra \<le> S"
  shows "fc_wf S (fill_window c f base ra)" and "fc_type (fill_window c f base ra) = fc_type c"
    and "fc_new (fill_window c f base ra) = fc_new c"
  using assms by (simp_all add: fill_window_def fc_wf_def buf_simps)

lemma fill_window_bytes:
  assumes "fc_wf S c" and "fc_count c + ra \<le> S" and "x + n \<le> ra"
  shows "take n (drop (fc_count c + x) (fc_data (fill_window c f base ra))) = fslice f (base + x) n"
proof -
  let ?d = "fc_data (fill_window c f base ra)"
  have "take n (drop (fc_count c + x) ?d) = take n (drop (fc_count c + x) (take (fc_count c + ra) ?d))"
    using assms(3) by (simp add: drop_take min_def)
  also have "\<dots> = fslice f (base + x) n"
    using assms(1,2) assms(3)
    by (simp add: fill_window_data [OF assms(1,2)] fc_wf_def buf_simps min_absorb1)
  finally show ?thesis .
qed

lemma fill_window_clean:
  assumes "fc_wf S c" and "fc_count c + ra \<le> S" and "PAGE_SIZE dvd ra" and "fc_type c = FCACHE_READ"
    and "PAGE_SIZE dvd fc_offset c" and "PAGE_SIZE dvd fc_count c"
    and "fc_offset c + fc_count c = base"
    and "take (fc_count c) (fc_data c) = fslice f (fc_offset c) (fc_count c)"
  shows "fc_clean (fill_window c f base ra) f"
  using assms fill_window_data [OF assms(1,2), of f base]
  by (auto simp: fc_clean_def fill_window_def fslice_append)

text \<open>
  The window chosen for a position, once filled, is clean if the window before it was (an empty
  one counts only at a page boundary), and if it ends where the next block begins.
\<close>

lemma chosen_window_clean:
  assumes wf: "fc_wf S c2" "fc_count c2 + ra \<le> S" "PAGE_SIZE dvd ra" "fc_type c2 = FCACHE_READ"
    and c2: "c2 = c \<and> fc_offset c + fc_count c = off \<or>
         fc_offset c2 = off - off mod PAGE_SIZE \<and> fc_count c2 = 0"
  shows "fc_clean c f \<Longrightarrow> fc_count c \<noteq> 0 \<or> PAGE_SIZE dvd off \<Longrightarrow>
      fc_clean (fill_window c2 f (off - off mod PAGE_SIZE) ra) f"
    and "fc_offset c + fc_count c = off \<Longrightarrow> fc_count c = 0 \<or> fc_clean c f \<Longrightarrow>
      fc_offset c2 + fc_count c2 + off mod PAGE_SIZE = off \<Longrightarrow>
      fc_clean (fill_window c2 f (off - off mod PAGE_SIZE) ra) f"
proof -
  note fw = fill_window_clean [OF wf]
  show "fc_clean (fill_window c2 f (off - off mod PAGE_SIZE) ra) f"
    if cl: "fc_clean c f" "fc_count c \<noteq> 0 \<or> PAGE_SIZE dvd off"
    using c2
  proof (elim disjE conjE)
    assume eq: "c2 = c" "fc_offset c + fc_count c = off"
    with cl have "PAGE_SIZE dvd off" by (auto simp: fc_clean_def)
    with eq cl show ?thesis by (intro fw) (auto simp: fc_clean_def)
  next
    assume "fc_offset c2 = off - off mod PAGE_SIZE" "fc_count c2 = 0"
    then show ?thesis by (intro fw) (auto simp: page_dvd_base)
  qed
  assume fr: "fc_offset c + fc_count c = off" "fc_count c = 0 \<or> fc_clean c f"
    and *: "fc_offset c2 + fc_count c2 + off mod PAGE_SIZE = off"
  show "fc_clean (fill_window c2 f (off - off mod PAGE_SIZE) ra) f"
    using c2
  proof (elim disjE conjE)
    assume eq: "c2 = c" "fc_offset c + fc_count c = off"
    with * have "off mod PAGE_SIZE = 0" by simp
    with eq fr show ?thesis by (intro fw) (auto simp: fc_clean_def)
  next
    assume "fc_offset c2 = off - off mod PAGE_SIZE" "fc_count c2 = 0"
    then show ?thesis by (intro fw) (auto simp: page_dvd_base)
  qed
qed

context remote_file
begin

text \<open>One round of the loop takes a non-empty part of the request.\<close>

lemma read_step:
  assumes S: "fsize_ok S" and w: "good w name" "fcache_size w = int S" and c: "fc_wf S c" "fc_type c = FCACHE_READ"
    and fresh: "fc_offset c + fc_count c = off \<Longrightarrow> fc_count c = 0 \<or> fc_clean c (content w name)"
    and fits: "off + cnt + S + PAGE_SIZE < 4294967296" and rd: "rd + cnt < 2147483648"
    and cnt: "0 < cnt"
  obtains n c3 w1 where "0 < n" "n \<le> cnt"
    and "fcache_read_loop fops off cnt rd c name buf w =
        fcache_read_loop fops (off + n) (cnt - n) (rd + n) c3 name
          (buf @ fslice (content w name) off n) w1"
    and "content w1 name = content w name" "good w1 name" "fcache_size w1 = fcache_size w"
    and "fcache_free w1 = fcache_free w" and "fc_wf S c3" "fc_type c3 = FCACHE_READ"
    and "fc_new c3 = fc_new c"
    and "fc_clean c (content w name) \<Longrightarrow> fc_count c \<noteq> 0 \<or> PAGE_SIZE dvd off \<Longrightarrow>
      fc_clean c3 (content w name)"
    and "n < cnt \<Longrightarrow> PAGE_SIZE dvd off + n"
    and "n < cnt \<Longrightarrow> fc_offset c3 + fc_count c3 = off + n \<Longrightarrow> fc_clean c3 (content w name)"
    and "fc_offset c3 + fc_count c3 < 4294967296"
proof -
  let ?o = "off - off mod PAGE_SIZE" and ?x = "off mod PAGE_SIZE" and ?f = "content w name"
  obtain c2 ra where ra: "readahead (int S) c off cnt = Some (c2, ra)" "0 < ra" "PAGE_SIZE dvd ra"
    "ra \<le> S" "fc_count c2 + ra \<le> S" "fc_data c2 = fc_data c" "fc_type c2 = fc_type c"
    "fc_new c2 = fc_new c" and c2: "c2 = c \<and> fc_offset c + fc_count c = off \<or>
       fc_offset c2 = ?o \<and> fc_count c2 = 0"
    using readahead_spec [OF S c(1) cnt fits] by blast
  have xo: "?o + ?x = off" "?x < PAGE_SIZE" "?o \<le> off" by simp_all
  have "PAGE_SIZE \<le> ra" using ra by (simp add: dvd_imp_le)
  with xo have x_ra: "?x < ra" by linarith
  have "ra < 2147483648" "?o + ra < 4294967296"
    using ra xo fits S by (simp_all add: fsize_ok_def)
  from read_spec [OF w(1) \<open>0 < ra\<close> this] obtain w1 where
    w1: "op_read fops w name ?o ra 0 = Some (int ra, name, fslice ?f ?o ra, w1)"
    "content w1 name = ?f" "good w1 name" "fcache_size w1 = fcache_size w"
    "fcache_free w1 = fcache_free w"
    by blast
  define n where "n = min cnt (ra - ?x)"
  define c3 where "c3 = fill_window c2 ?f ?o ra"
  have n: "0 < n" "n \<le> cnt" "?x + n \<le> ra" using cnt x_ra by (auto simp: n_def)
  have wf2: "fc_wf S c2" "fc_type c2 = FCACHE_READ"
    using c ra c2 by (auto simp: fc_wf_def)
  have sel: "(if cnt < u32 (int ra - int ?x) then cnt else u32 (int ra - int ?x)) = n"
    using x_ra \<open>ra < 2147483648\<close> by (auto simp: n_def)
  have num: "u32 (int off + int n) = off + n" "u32 (int rd + int n) = rd + n"
    using n fits rd by simp_all
  have c3: "c2\<lparr>fc_data := fc_data c3, fc_count := fc_count c2 + ra\<rparr> = c3"
    "blit (fc_data c2) (fc_count c2) (fslice ?f ?o ra) = fc_data c3"
    by (simp_all add: c3_def fill_window_def)
  have bytes: "take n (drop (fc_count c2 + ?x) (fc_data c3)) = fslice ?f off n"
    using fill_window_bytes [OF wf2(1) ra(5) n(3), of ?f ?o] xo(1) by (simp add: c3_def)
  have step: "fcache_read_loop fops off cnt rd c name buf w =
      fcache_read_loop fops (off + n) (cnt - n) (rd + n) c3 name (buf @ fslice ?f off n) w1"
    using cnt by (subst fcache_read_loop.simps)
      (simp add: w(2) ra(1) w1(1) Let_def c3 sel num bytes)
  note clean = chosen_window_clean [OF wf2(1) ra(5,3) wf2(2) c2, of ?f, folded c3_def]
  have fresh3: "fc_clean c3 ?f" if "n < cnt" "fc_offset c3 + fc_count c3 = off + n"
  proof -
    from that(1) have "n = ra - ?x" by (auto simp: n_def)
    with that(2) x_ra have *: "fc_offset c2 + fc_count c2 + ?x = off"
      by (simp add: c3_def fill_window_def)
    show ?thesis
    proof (cases "fc_offset c + fc_count c = off")
      case True
      with clean(2) fresh * show ?thesis by blast
    next
      case False
      with c2 show ?thesis
        using fill_window_clean [OF wf2(1) ra(5,3) wf2(2), of ?o ?f]
        by (simp add: c3_def page_dvd_base)
    qed
  qed
  have off3: "fc_offset c3 + fc_count c3 < 4294967296"
    using c2 ra(4) xo fits by (auto simp: c3_def fill_window_def)
  have page: "PAGE_SIZE dvd off + n" if "n < cnt"
  proof -
    from that x_ra xo have "off + n = ?o + ra" by (auto simp: n_def min_def split: if_splits)
    then show ?thesis by (simp only: dvd_add [OF page_dvd_base ra(3)])
  qed
  show thesis
    using that [OF n(1,2) step w1(2-5) _ _ _ clean(1) page fresh3 off3]
      fill_window_wf [OF wf2(1) ra(5), of ?f ?o] wf2(2) ra(8) by (simp add: c3_def)
qed

lemma read_loop:
  assumes S: "fsize_ok S" and w: "good w name" "fcache_size w = int S"
    and c: "fc_wf S c" "fc_type c = FCACHE_READ"
    and fresh: "fc_offset c + fc_count c = off \<Longrightarrow> fc_count c = 0 \<or> fc_clean c (content w name)"
    and fits: "off + cnt + S + PAGE_SIZE < 4294967296" and rd: "rd + cnt < 2147483648"
  shows "\<exists>c' w'. fcache_read_loop fops off cnt rd c name buf w =
      Some (int (rd + cnt), buf @ fslice (content w name) off cnt, c', w') \<and>
      content w' name = content w name \<and> good w' name \<and> fcache_size w' = fcache_size w \<and>
      fcache_free w' = fcache_free w \<and> fc_wf S c' \<and> fc_type c' = FCACHE_READ \<and>
      fc_new c' = fc_new c \<and>
      (fc_clean c (content w name) \<longrightarrow> fc_count c \<noteq> 0 \<or> PAGE_SIZE dvd off \<longrightarrow>
        fc_clean c' (content w name)) \<and>
      (fc_offset c + fc_count c < 4294967296 \<longrightarrow> fc_offset c' + fc_count c' < 4294967296)"
  using assms(2-)
proof (induction cnt arbitrary: off rd c buf w rule: less_induct)
  case (less cnt)
  show ?case
  proof (cases "cnt = 0")
    case True
    with less.prems show ?thesis by (subst fcache_read_loop.simps) simp
  next
    case False
    let ?f = "content w name"
    obtain n c3 w1 where n: "0 < n" "n \<le> cnt"
      and step: "fcache_read_loop fops off cnt rd c name buf w =
        fcache_read_loop fops (off + n) (cnt - n) (rd + n) c3 name (buf @ fslice ?f off n) w1"
      and w1: "content w1 name = ?f" "good w1 name" "fcache_size w1 = fcache_size w"
        "fcache_free w1 = fcache_free w"
      and c3: "fc_wf S c3" "fc_type c3 = FCACHE_READ" "fc_new c3 = fc_new c"
        "fc_clean c ?f \<longrightarrow> fc_count c \<noteq> 0 \<or> PAGE_SIZE dvd off \<longrightarrow> fc_clean c3 ?f"
        "n < cnt \<longrightarrow> PAGE_SIZE dvd off + n"
        "n < cnt \<longrightarrow> fc_offset c3 + fc_count c3 = off + n \<longrightarrow> fc_clean c3 ?f"
        "fc_offset c3 + fc_count c3 < 4294967296"
      using read_step [OF S less.prems] False by (metis neq0_conv)
    have app: "buf @ fslice ?f off cnt = (buf @ fslice ?f off n) @ fslice ?f (off + n) (cnt - n)"
      using n fslice_append [of ?f off n "cnt - n"] by simp
    show ?thesis
    proof (cases "n = cnt")
      case True
      with less.prems(7) w1 c3 show ?thesis
        unfolding step by (subst fcache_read_loop.simps) simp
    next
      case False
      have le: "cnt - n < cnt" using n by simp
      have pre: "fcache_size w1 = int S" "off + n + (cnt - n) + S + PAGE_SIZE < 4294967296"
        "rd + n + (cnt - n) < 2147483648" "int (rd + n + (cnt - n)) = int (rd + cnt)"
        using w1(3) less.prems(2,6,7) n by simp_all
      have fr: "fc_count c3 = 0 \<or> fc_clean c3 (content w1 name)"
        if "fc_offset c3 + fc_count c3 = off + n"
        using c3(6) that False n w1(1) by simp
      have pg: "PAGE_SIZE dvd off + n" using c3(5) False n by simp
      obtain c' w' where "fcache_read_loop fops (off + n) (cnt - n) (rd + n) c3 name
          (buf @ fslice ?f off n) w1 = Some (int (rd + cnt),
          (buf @ fslice ?f off n) @ fslice ?f (off + n) (cnt - n), c', w')"
        "content w' name = ?f" "good w' name" "fcache_size w' = fcache_size w"
        "fcache_free w' = fcache_free w" "fc_wf S c'" "fc_type c' = FCACHE_READ"
        "fc_new c' = fc_new c" "fc_clean c3 ?f \<longrightarrow> fc_clean c' ?f"
        "fc_offset c' + fc_count c' < 4294967296"
        using less.IH [OF le w1(2) pre(1) c3(1,2) fr pre(2,3), of "buf @ fslice ?f off n"]
        unfolding pre(4) using w1 c3(3,7) pg by auto
      with c3(4) show ?thesis
        unfolding step app by auto
    qed
  qed
qed

end

text \<open>The bytes of a hit are those of the view.\<close>

lemma hit_bytes:
  assumes "fc_ok S c f"
  shows "take (fcache_hit c offset count) (drop (offset - fc_offset c) (fc_data c)) =
    fslice (fc_view c f) offset (fcache_hit c offset count)"
proof (cases "fc_offset c \<le> offset \<and> offset < fc_offset c + fc_count c")
  case True
  define n where "n = fcache_hit c offset count"
  define k where "k = offset - fc_offset c"
  let ?W = "take (fc_count c) (fc_data c)"
  have nk: "k + n \<le> fc_count c" "offset = fc_offset c + k"
    using True by (auto simp: n_def k_def fcache_hit_def Let_def)
  have len: "length ?W = fc_count c" using assms by (simp add: fc_ok_def fc_wf_def)
  have "take n (drop k (fc_data c)) = take n (drop k ?W)"
    using nk(1) by (simp add: drop_take min_absorb1)
  also have "\<dots> = fslice (fc_view c f) offset n"
  proof (cases "fc_type c")
    case FCACHE_READ
    then show ?thesis using assms nk
      by (simp add: fc_ok_def fc_clean_def fc_view_def buf_simps min_absorb1)
  next
    case FCACHE_WRITE
    then show ?thesis using nk len
      by (intro fslice_eqI) (auto simp: fc_view_def patch_def)
  qed
  finally show ?thesis by (simp add: n_def k_def)
next
  case False
  then show ?thesis by (auto simp: fcache_hit_def)
qed

lemma hit_le: "fcache_hit c offset count \<le> count"
  by (simp add: fcache_hit_def Let_def)

context remote_file
begin

lemma flush_dirty:
  assumes "good w name" and "fc_ok S c (content w name)" and "fc_type c = FCACHE_WRITE" and "fsize_ok S"
  shows "\<exists>w'. op_write fops w name (u32 (int (fc_offset c))) (u32 (int (fc_count c))) (fc_data c) ino =
      Some (int (fc_count c), name, w') \<and> content w' name = fc_view c (content w name) \<and>
      good w' name \<and> fcache_size w' = fcache_size w \<and> fcache_free w' = fcache_free w"
proof -
  have "fc_count c \<le> length (fc_data c)" "fc_count c < 2147483648"
    "fc_offset c + fc_count c < 4294967296"
    using assms by (auto simp: fc_ok_def fc_wf_def fsize_ok_def)
  with write_spec [OF assms(1) this, of ino] assms(3) show ?thesis
    by (simp add: fc_view_def)
qed

text \<open>
  A read through the cache answers the bytes of the view and keeps the view. The window it
  leaves is clean when the one it found was; a dirty one is left untouched when it held all of
  the request.
\<close>

lemma read_cached:
  assumes S: "fsize_ok S" and w: "good w name" "fcache_size w = int S"
    and c: "fc_ok S c (content w name)"
    and fits: "offset + count + S + PAGE_SIZE < 4294967296" and count: "count < 2147483648"
  shows "\<exists>c' w'. fcache_read_cached fops ino c name offset count w =
      Some (int count, fslice (fc_view c (content w name)) offset count, c', w') \<and>
      fc_view c' (content w' name) = fc_view c (content w name) \<and> good w' name \<and>
      fcache_size w' = fcache_size w \<and> fcache_free w' = fcache_free w \<and>
      fc_wf S c' \<and> fc_new c' = fc_new c \<and>
      (fc_type c = FCACHE_READ \<longrightarrow> content w' name = content w name \<and>
         (PAGE_SIZE dvd offset \<longrightarrow> fc_ok S c' (content w' name))) \<and>
      (fc_type c = FCACHE_WRITE \<longrightarrow> fcache_hit c offset count = count \<longrightarrow> c' = c \<and> w' = w) \<and>
      (fc_type c = FCACHE_WRITE \<longrightarrow> fcache_hit c offset count < count \<longrightarrow>
         fc_type c' = FCACHE_READ \<and> content w' name = fc_view c (content w name) \<and>
         (PAGE_SIZE dvd offset + fcache_hit c offset count \<longrightarrow> fc_ok S c' (content w' name)))"
proof -
  define n where "n = fcache_hit c offset count"
  let ?f = "content w name" and ?v = "fc_view c (content w name)"
  have n: "n \<le> count" by (simp add: n_def hit_le)
  have u: "u32 (int offset + int n) = offset + n" using n fits by simp
  have hit: "take n (drop (offset - fc_offset c) (fc_data c)) = fslice ?v offset n"
    using hit_bytes [OF c] by (simp add: n_def)
  have split: "fslice ?v offset count = fslice ?v offset n @ fslice ?v (offset + n) (count - n)"
    using n fslice_append [of ?v offset n "count - n"] by simp
  have fits': "offset + n + (count - n) + S + PAGE_SIZE < 4294967296" "n + (count - n) < 2147483648"
    "n + (count - n) = count"
    using n fits count by simp_all
  show ?thesis
  proof (cases "count - n \<noteq> 0 \<and> fc_type c = FCACHE_WRITE")
    case True
    obtain w1 where w1: "op_write fops w name (u32 (int (fc_offset c))) (u32 (int (fc_count c)))
        (fc_data c) ino = Some (int (fc_count c), name, w1)" "content w1 name = ?v" "good w1 name"
        "fcache_size w1 = fcache_size w" "fcache_free w1 = fcache_free w"
      using flush_dirty [OF w(1) c _ S] True by blast
    define c1 where "c1 = c\<lparr>fc_type := FCACHE_READ, fc_offset := offset + n, fc_count := 0\<rparr>"
    have c1: "fc_wf S c1" "fc_type c1 = FCACHE_READ" "fc_count c1 = 0" "fc_offset c1 = offset + n"
      "fc_new c1 = fc_new c" "PAGE_SIZE dvd offset + n \<Longrightarrow> fc_clean c1 ?v"
      using c by (auto simp: c1_def fc_ok_def fc_wf_def fc_clean_def)
    have "fcache_read_cached fops ino c name offset count w =
        fcache_read_loop fops (offset + n) (count - n) n c1 name (fslice ?v offset n) w1"
      using True w1 by (simp add: fcache_read_cached_def fcache_read_flush_def Let_def u hit
          c1_def flip: n_def)
    moreover obtain c' w' where "fcache_read_loop fops (offset + n) (count - n) n c1 name
        (fslice ?v offset n) w1 = Some (int count, fslice ?v offset n @ fslice ?v (offset + n) (count - n), c', w')"
      "content w' name = ?v" "good w' name" "fcache_size w' = fcache_size w"
      "fcache_free w' = fcache_free w" "fc_wf S c'" "fc_type c' = FCACHE_READ" "fc_new c' = fc_new c"
      "PAGE_SIZE dvd offset + n \<longrightarrow> fc_clean c' ?v" "fc_offset c' + fc_count c' < 4294967296"
      using read_loop [OF S w1(3) _ c1(1,2) _ fits'(1,2), of "fslice ?v offset n"] w(2) w1 c1 fits n
      unfolding fits'(3) by auto
    ultimately show ?thesis
      using True by (simp add: split fc_ok_def flip: n_def)
  next
    case False
    then have "fcache_read_cached fops ino c name offset count w =
        fcache_read_loop fops (offset + n) (count - n) n c name (fslice ?v offset n) w"
      by (auto simp: fcache_read_cached_def fcache_read_flush_def Let_def u hit simp flip: n_def)
    note eq = this
    show ?thesis
    proof (cases "fc_type c")
      case FCACHE_READ
      then have cl: "fc_clean c ?f" "fc_wf S c" "fc_offset c + fc_count c < 4294967296"
        using c by (auto simp: fc_ok_def)
      have pg: "PAGE_SIZE dvd offset \<longrightarrow> fc_count c \<noteq> 0 \<or> PAGE_SIZE dvd offset + n"
        by (cases "n = 0") (auto simp: n_def fcache_hit_def split: if_splits)
      have v: "?v = ?f" using FCACHE_READ by (simp add: fc_view_def)
      obtain c' w' where "fcache_read_loop fops (offset + n) (count - n) n c name
          (fslice ?v offset n) w = Some (int count, fslice ?v offset n @ fslice ?v (offset + n) (count - n), c', w')"
        "content w' name = ?f" "good w' name" "fcache_size w' = fcache_size w"
        "fcache_free w' = fcache_free w" "fc_wf S c'" "fc_type c' = FCACHE_READ" "fc_new c' = fc_new c"
        "PAGE_SIZE dvd offset \<longrightarrow> fc_clean c' ?f" "fc_offset c' + fc_count c' < 4294967296"
        using read_loop [OF S w cl(2) FCACHE_READ _ fits'(1,2), of "fslice ?v offset n"] cl pg
        unfolding fits'(3) v by auto
      then show ?thesis
        unfolding eq split using FCACHE_READ by (simp add: fc_ok_def)
    next
      case FCACHE_WRITE
      with False n have "n = count" by simp
      then show ?thesis
        unfolding eq using FCACHE_WRITE c w count
        by (subst fcache_read_loop.simps) (simp add: fc_ok_def flip: n_def)
    qed
  qed
qed

end

section \<open>The window as a property of the code\<close>

text \<open>
  C22: For every position and size of a request there is a window (no division by zero): it is not
  empty, page aligned, fits the buffer behind the bytes that stay in it, and its size divides the
  page's offset, so that the remote side reads it as one block; the arithmetic of the loop that
  looks for it is the greatest common divisor. The window is extended only where it ends at the
  request, and restarted at the request's page otherwise.
\<close>

theorem readahead_window:
  assumes "fsize_ok S" and "fc_wf S c" and "0 < cnt" and "off + cnt + S + PAGE_SIZE < 4294967296"
  shows "\<exists>c2 ra. readahead (int S) c off cnt = Some (c2, ra) \<and> 0 < ra \<and> PAGE_SIZE dvd ra \<and>
    ra dvd off - off mod PAGE_SIZE \<and> fc_count c2 + ra \<le> S \<and>
    (c2 = c \<and> fc_offset c + fc_count c = off \<or>
     fc_offset c2 = off - off mod PAGE_SIZE \<and> fc_count c2 = 0) \<and>
    (\<forall>y z. hd_loop y z = gcd y z)"
  by (rule readahead_spec [OF assms]) (auto simp: hd_loop_gcd)

end
