(* ===== verification/FCacheWrite.thy ===== *)
theory FCacheWrite
  imports FCacheSpec
begin

text \<open>
  Writing through the file cache: every part of \<open>fcache_file_write\<close> lays bytes over the view,
  and together they lay the whole request over it.
\<close>

text \<open>
  What a part of a write does to a dirty cache: \<open>n\<close> bytes of the request are laid over the view,
  within the buffer.
\<close>

definition write_part :: "nat \<Rightarrow> shfs_file \<Rightarrow> nat \<Rightarrow> string \<Rightarrow> shfs_file \<times> nat \<Rightarrow> bool" where
  "write_part S c offset buf r \<longleftrightarrow> (case r of (c1, n) \<Rightarrow>
     n \<le> length buf \<and> fc_wf S c1 \<and> fc_type c1 = FCACHE_WRITE \<and> fc_new c1 = fc_new c \<and>
     (\<forall>f. fc_view c1 f = patch (fc_view c f) offset (take n buf)) \<and>
     fc_count c \<le> fc_count c1 \<and> (0 < n \<longrightarrow> 0 < fc_count c1) \<and>
     fc_offset c1 + fc_count c1 < 4294967296)"

text \<open>Bytes laid into a dirty run, overlapping it or right behind it.\<close>

lemma view_blit:
  assumes wf: "fc_wf S c" "fc_type c = FCACHE_WRITE" and k: "k \<le> fc_count c" "k + length bs \<le> S"
  shows "fc_view (c\<lparr>fc_data := blit (fc_data c) k bs, fc_count := max (fc_count c) (k + length bs)\<rparr>) f =
    patch (fc_view c f) (fc_offset c + k) bs"
proof -
  let ?W = "take (fc_count c) (fc_data c)"
  have len: "length (fc_data c) = S" "fc_count c \<le> S" using wf(1) by (auto simp: fc_wf_def)
  have "take (max (fc_count c) (k + length bs)) (blit (fc_data c) k bs) =
      take k ?W @ bs @ drop (k + length bs) ?W"
  proof (cases "fc_count c \<le> k + length bs")
    case True
    with len k show ?thesis by (simp add: max_absorb2 take_blit_end min_absorb2 min_absorb1)
  next
    case False
    with len k show ?thesis
      by (simp add: max_absorb1 blit_def drop_take min_absorb1 min_absorb2)
  qed
  moreover have "patch f (fc_offset c) (take k ?W @ bs @ drop (k + length bs) ?W) =
      patch (patch f (fc_offset c) ?W) (fc_offset c + k) bs"
    using patch_overwrite [of "fc_offset c" "fc_offset c + k" ?W f bs] len k by simp
  ultimately show ?thesis using wf(2) by (simp add: fc_view_def)
qed

lemma write_hit_part:
  assumes c: "fc_wf S c" "fc_type c = FCACHE_WRITE" "fc_offset c + fc_count c < 4294967296"
    and S: "S < 2147483648" and off: "offset + length buf < 4294967296"
  shows "write_part S c offset buf (fcache_write_hit (int S) c offset buf (length buf))"
proof (cases "fc_offset c \<le> offset \<and> offset < fc_offset c + fc_count c")
  case True
  define k where "k = offset - fc_offset c"
  define n where "n = (if length buf > S - k then S - k else length buf)"
  have k: "k < fc_count c" "offset = fc_offset c + k" "k \<le> S" "S < 4294967296"
    using True c(1) S by (auto simp: k_def fc_wf_def)
  have n: "n \<le> length buf" "k + n \<le> S" using k by (auto simp: n_def)
  have "fcache_write_hit (int S) c offset buf (length buf) =
      (c\<lparr>fc_data := blit (fc_data c) k (take n buf), fc_count := max (fc_count c) (k + n)\<rparr>, n)"
    using True k by (simp add: fcache_write_hit_def Let_def n_def max_def flip: k_def)
  with view_blit [OF c(1,2), of k "take n buf"] k n off c show ?thesis
    by (auto simp: write_part_def fc_wf_def buf_simps min_absorb2)
next
  case False
  then have "fcache_write_hit (int S) c offset buf (length buf) = (c, 0)"
    by (auto simp: fcache_write_hit_def)
  with c show ?thesis by (simp add: write_part_def)
qed

lemma write_append_part:
  assumes c: "fc_wf S c" "fc_type c = FCACHE_WRITE" "fc_offset c + fc_count c < 4294967296"
    and S: "S < 2147483648" and off: "offset + length buf < 4294967296"
  shows "write_part S c offset buf (fcache_write_append (int S) c offset buf (length buf))"
proof (cases "length buf \<noteq> 0 \<and> offset = fc_offset c + fc_count c")
  case True
  define n where "n = (if length buf > S - fc_count c then S - fc_count c else length buf)"
  have cc: "fc_count c \<le> S" using c(1) by (simp add: fc_wf_def)
  have n: "n \<le> length buf" "fc_count c + n \<le> S" using cc by (auto simp: n_def)
  have room: "u64 (int S - int (fc_count c)) = S - fc_count c"
    using cc S by (simp add: u64_def nat_diff_distrib)
  have "fcache_write_append (int S) c offset buf (length buf) =
      (c\<lparr>fc_data := blit (fc_data c) (fc_count c) (take n buf), fc_count := fc_count c + n\<rparr>, n)"
    using True by (simp add: fcache_write_append_def Let_def room n_def)
  with view_blit [OF c(1,2), of "fc_count c" "take n buf"] n off True c show ?thesis
    by (auto simp: write_part_def fc_wf_def buf_simps min_absorb2 max_def)
next
  case False
  then have "fcache_write_append (int S) c offset buf (length buf) = (c, 0)"
    by (auto simp: fcache_write_append_def)
  with c show ?thesis by (simp add: write_part_def)
qed

context remote_file
begin

lemma write_loop:
  assumes S: "fsize_ok S" and w: "good w name" "fcache_size w = int S"
    and c: "fc_wf S c" "fc_type c = FCACHE_WRITE" "fc_offset c + fc_count c < 4294967296"
    and off: "off + length buf < 4294967296" and wr: "wrote + length buf < 4294967296"
    and cw: "0 < wrote \<Longrightarrow> 0 < fc_count c" and res: "0 \<le> result"
  shows "\<exists>res c' w'. fcache_write_loop fops ino off (length buf) wrote result c name buf w =
      Some (res, wrote + length buf, c', name, w') \<and> 0 \<le> res \<and>
      fc_view c' (content w' name) = patch (fc_view c (content w name)) off buf \<and>
      good w' name \<and> fcache_size w' = fcache_size w \<and> fcache_free w' = fcache_free w \<and>
      fc_ok S c' (content w' name) \<and> fc_type c' = FCACHE_WRITE \<and> fc_new c' = fc_new c \<and>
      (0 < wrote + length buf \<longrightarrow> 0 < fc_count c')"
  using assms(2-)
proof (induction "length buf" arbitrary: off wrote result c buf w rule: less_induct)
  case less
  show ?case
  proof (cases "buf = []")
    case True
    with less.prems show ?thesis by (subst fcache_write_loop.simps) (simp add: fc_ok_def)
  next
    case False
    obtain w1 where w1: "op_write fops w name (u32 (int (fc_offset c))) (u32 (int (fc_count c)))
        (fc_data c) ino = Some (int (fc_count c), name, w1)"
        "content w1 name = fc_view c (content w name)" "good w1 name"
        "fcache_size w1 = fcache_size w" "fcache_free w1 = fcache_free w"
      using flush_dirty [OF less.prems(1) _ less.prems(4) S] less.prems(3-5)
      by (auto simp: fc_ok_def)
    define n where "n = (if length buf > S then S else length buf)"
    define c3 where "c3 = c\<lparr>fc_data := blit (fc_data c) 0 (take n buf), fc_offset := off, fc_count := n\<rparr>"
    have S': "0 < S" "S < 2147483648" using S by (auto simp: fsize_ok_def)
    have n: "0 < n" "n \<le> length buf" "n \<le> S" using False S' by (auto simp: n_def)
    have c3: "fc_wf S c3" "fc_type c3 = FCACHE_WRITE" "fc_offset c3 + fc_count c3 < 4294967296"
      "fc_new c3 = fc_new c" "0 < fc_count c3"
      "fc_view c3 (content w1 name) = patch (content w1 name) off (take n buf)"
      using less.prems n by (auto simp: c3_def fc_wf_def buf_simps min_absorb2 fc_view_def blit_def)
    have step: "fcache_write_loop fops ino off (length buf) wrote result c name buf w =
        fcache_write_loop fops ino (off + n) (length (drop n buf)) (wrote + n) (int (fc_count c)) c3
          name (drop n buf) w1"
      using False n w1 less.prems S'
      by (subst fcache_write_loop.simps) (simp add: Let_def c3_def cong: if_cong flip: n_def)
    have le: "length (drop n buf) < length buf" using n by simp
    have pre: "fcache_size w1 = int S" "off + n + length (drop n buf) < 4294967296"
      "wrote + n + length (drop n buf) < 4294967296"
      "wrote + n + length (drop n buf) = wrote + length buf"
      using less.prems n w1 by simp_all
    have pa: "patch (patch f off (take n buf)) (off + n) (drop n buf) = patch f off buf" for f
      using patch_append [of f off "take n buf" "drop n buf"] n by (simp add: min_absorb2)
    show ?thesis
      using less.hyps [OF le w1(3) pre(1) c3(1-3) pre(2,3) c3(5) of_nat_0_le_iff] w1 c3(4,6)
      unfolding step pre(4) by (auto simp: pa)
  qed
qed

end

text \<open>Two parts of a write, one behind the other, are one part.\<close>

lemma write_part_trans:
  assumes "write_part S c offset buf (c1, m)" and "write_part S c1 (offset + m) (drop m buf) (c2, n)"
  shows "write_part S c offset buf (c2, m + n)"
proof -
  have "patch (patch v offset (take m buf)) (offset + m) (take n (drop m buf)) =
      patch v offset (take (m + n) buf)" for v
    using assms(1) patch_append [of v offset "take m buf" "take n (drop m buf)"]
    by (simp add: write_part_def min_absorb2 take_add)
  with assms show ?thesis by (auto simp: write_part_def)
qed

text \<open>A clean cache that takes a write becomes an empty dirty run; the view stays.\<close>

definition start_dirty :: "shfs_file \<Rightarrow> nat \<Rightarrow> shfs_file" where
  "start_dirty c offset = (if fc_type c = FCACHE_READ
     then c\<lparr>fc_offset := offset, fc_count := 0, fc_type := FCACHE_WRITE\<rparr> else c)"

lemma start_dirty:
  assumes "fc_ok S c f" and "offset < 4294967296"
  shows "fc_wf S (start_dirty c offset)" and "fc_type (start_dirty c offset) = FCACHE_WRITE"
    and "fc_offset (start_dirty c offset) + fc_count (start_dirty c offset) < 4294967296"
    and "fc_view (start_dirty c offset) f = fc_view c f"
    and "fc_new (start_dirty c offset) = fc_new c"
  using assms by (cases "fc_type c"; auto simp: start_dirty_def fc_ok_def fc_wf_def fc_view_def)+

text \<open>The two parts that need no communication, composed as the code composes them.\<close>

lemma write_parts:
  assumes S: "S < 2147483648" and c: "fc_ok S c f" and off: "offset + length buf < 4294967296"
  obtains c1 n1 c2 n2 where
    "fcache_write_hit (int S) (start_dirty c offset) offset buf (length buf) = (c1, n1)"
    and "fcache_write_append (int S) c1 (offset + n1) (drop n1 buf) (length buf - n1) = (c2, n2)"
    and "write_part S (start_dirty c offset) offset buf (c2, n1 + n2)" and "n1 \<le> length buf"
proof -
  have c0: "fc_wf S (start_dirty c offset)" "fc_type (start_dirty c offset) = FCACHE_WRITE"
    "fc_offset (start_dirty c offset) + fc_count (start_dirty c offset) < 4294967296"
    using start_dirty [OF c, of offset] off by auto
  obtain c1 n1 where h: "fcache_write_hit (int S) (start_dirty c offset) offset buf (length buf) = (c1, n1)"
    by force
  have p1: "write_part S (start_dirty c offset) offset buf (c1, n1)"
    using write_hit_part [OF c0 S off] by (simp add: h)
  then have c1: "fc_wf S c1" "fc_type c1 = FCACHE_WRITE" "fc_offset c1 + fc_count c1 < 4294967296"
    and n1: "n1 \<le> length buf"
    by (auto simp: write_part_def)
  obtain c2 n2 where a: "fcache_write_append (int S) c1 (offset + n1) (drop n1 buf) (length buf - n1) = (c2, n2)"
    by force
  have "write_part S c1 (offset + n1) (drop n1 buf) (c2, n2)"
    using write_append_part [OF c1 S, of "offset + n1" "drop n1 buf"] off n1 by (simp add: a)
  with h a n1 write_part_trans [OF p1] that show thesis by blast
qed

context remote_file
begin

text \<open>The byte sent at once from a new cache is one the view has already.\<close>

lemma early_byte:
  assumes w: "good w name" and c: "fc_ok S c (content w name)" "fc_type c = FCACHE_WRITE" "0 < fc_count c"
  shows "\<exists>w'. op_write fops w name (u32 (int (fc_offset c))) 1 (fc_data c) ino = Some (1, name, w') \<and>
    fc_view (c\<lparr>fc_new := False\<rparr>) (content w' name) = fc_view c (content w name) \<and>
    good w' name \<and> fcache_size w' = fcache_size w \<and> fcache_free w' = fcache_free w"
proof -
  have "1 \<le> length (fc_data c)" "(1::nat) < 2147483648" "fc_offset c + 1 < 4294967296"
    using c by (auto simp: fc_ok_def fc_wf_def)
  moreover have "patch (patch f (fc_offset c) (take 1 (fc_data c))) (fc_offset c)
      (take (fc_count c) (fc_data c)) = patch f (fc_offset c) (take (fc_count c) (fc_data c))" for f
    using c by (intro ext) (auto simp: patch_def fc_ok_def fc_wf_def)
  ultimately show ?thesis
    using write_spec [OF w, of 1 "fc_data c" "fc_offset c" ino] c(2) by (auto simp: fc_view_def)
qed

text \<open>
  A write lays its bytes over the view, all of them, whatever the cache held; the cache it
  leaves is a dirty one that is no longer new.
\<close>

lemma write_cached:
  assumes S: "fsize_ok S" and w: "good w name" "fcache_size w = int S"
    and c: "fc_ok S c (content w name)"
    and off: "offset + length buf < 4294967296" and len: "length buf < 2147483648" "buf \<noteq> []"
  shows "\<exists>c' w'. fcache_write_cached fops ino c name offset (length buf) buf w =
      Some (int (length buf), c', w') \<and>
      fc_view c' (content w' name) = patch (fc_view c (content w name)) offset buf \<and>
      good w' name \<and> fcache_size w' = fcache_size w \<and> fcache_free w' = fcache_free w \<and>
      fc_ok S c' (content w' name) \<and> fc_type c' = FCACHE_WRITE \<and> \<not> fc_new c'"
proof -
  let ?f = "content w name" and ?c0 = "start_dirty c offset"
  have S': "S < 2147483648" using S by (simp add: fsize_ok_def)
  obtain c1 n1 c2 n2 where h: "fcache_write_hit (int S) ?c0 offset buf (length buf) = (c1, n1)"
    and a: "fcache_write_append (int S) c1 (offset + n1) (drop n1 buf) (length buf - n1) = (c2, n2)"
    and p: "write_part S ?c0 offset buf (c2, n1 + n2)" and n1: "n1 \<le> length buf"
    using write_parts [OF S' c off] by blast
  define m buf2 where "m = n1 + n2" and "buf2 = drop m buf"
  have m: "m \<le> length buf" "length buf2 = length buf - m" "m + length buf2 = length buf"
    "offset + m + length buf2 < 4294967296" "m + length buf2 < 4294967296"
    using p off len by (auto simp: write_part_def m_def buf2_def)
  have c2: "fc_wf S c2" "fc_type c2 = FCACHE_WRITE" "fc_offset c2 + fc_count c2 < 4294967296"
    "0 < m \<Longrightarrow> 0 < fc_count c2" "fc_view c2 ?f = patch (fc_view c ?f) offset (take m buf)"
    using p start_dirty [OF c, of offset] off by (auto simp: write_part_def m_def)
  have v2: "patch (fc_view c2 ?f) (offset + m) buf2 = patch (fc_view c ?f) offset buf"
    using patch_append [of "fc_view c ?f" offset "take m buf" buf2] m(1)
    by (simp add: c2(5) buf2_def min_absorb2)
  from write_loop [OF S w c2(1-3) m(4,5) c2(4) order_refl, of ino]
  obtain res c3 w1 where l: "fcache_write_loop fops ino (offset + m) (length buf2) m 0 c2
        name buf2 w = Some (res, length buf, c3, name, w1)" "0 \<le> res"
    "fc_view c3 (content w1 name) = patch (fc_view c ?f) offset buf"
    "good w1 name" "fcache_size w1 = int S" "fcache_free w1 = fcache_free w"
    "fc_ok S c3 (content w1 name)" "fc_type c3 = FCACHE_WRITE" "0 < fc_count c3"
    using v2 m(3) len(2) w(2) by auto
  have u: "u32 (int offset + int n1) = offset + n1" "u32 (int n1 + int n2) = m"
    "u32 (int offset + int n1 + int n2) = offset + m" "length buf - n1 - n2 = length buf2"
    "drop n2 (drop n1 buf) = buf2"
    using n1 m off len u32_int [of "offset + m"] by (simp_all add: m_def buf2_def add.commute add.left_commute)
  have start: "fcache_write_cached fops ino c name offset (length buf) buf w =
      (do {
        (result2, c4, w2) \<leftarrow>
         (if fc_new c3 then do {
            (r, _, w2) \<leftarrow> op_write fops w1 name (u32 (int (fc_offset c3))) 1 (fc_data c3) ino;
            Some (r, c3\<lparr>fc_new := False\<rparr>, w2)
          } else Some (res, c3, w1));
        Some (if result2 \<ge> 0 then int (length buf) else result2, c4, w2)
      })"
    by (simp add: fcache_write_cached_def Let_def w(2) h a l(1) u len cong: if_cong
        del: drop_drop diff_diff_left flip: start_dirty_def)
  show ?thesis
  proof (cases "fc_new c3")
    case False
    with l start w(2) show ?thesis by simp
  next
    case True
    with early_byte [OF l(4,7,8,9), of ino] start l w(2) show ?thesis
      by (auto simp: fc_ok_def fc_wf_def)
  qed
qed

end

end
