(* ===== verification/FCacheFile.thy ===== *)
theory FCacheFile
  imports FCacheWrite
begin

text \<open>
  The operations of \<open>fcache.c\<close> on an open file, as transformations of its abstract state
  \<open>fd_view\<close>, proved from the contract \<open>remote_file\<close>; and what they do without that contract,
  when the remote side fails.
\<close>

section \<open>Open files\<close>

text \<open>
  The cache behind a dentry, the bytes a user of the file sees, and the states a dentry with a
  regular inode is in while it is used.
\<close>

definition cache_of :: "dentry \<Rightarrow> shfs_file option" where
  "cache_of d = (case d_inode d of None \<Rightarrow> None
     | Some i \<Rightarrow> (case i_private i of None \<Rightarrow> None | Some p \<Rightarrow> cache p))"

definition fd_view :: "dentry \<Rightarrow> (nat \<Rightarrow> char) \<Rightarrow> nat \<Rightarrow> char" where
  "fd_view d f = (case cache_of d of None \<Rightarrow> f | Some c \<Rightarrow> fc_view c f)"

definition fd_ok :: "nat \<Rightarrow> dentry \<Rightarrow> (nat \<Rightarrow> char) \<Rightarrow> bool" where
  "fd_ok S d f \<longleftrightarrow>
     (case d_inode d of None \<Rightarrow> False | Some i \<Rightarrow>
        inode_info_ok i \<noteq> None \<and> (case cache_of d of None \<Rightarrow> True | Some c \<Rightarrow> fc_ok S c f))"

definition fd_name :: "dentry \<Rightarrow> string \<Rightarrow> string \<Rightarrow> bool" where
  "fd_name d stk name \<longleftrightarrow> c_str (snd (get_name (d_names d) stk)) = name"

text \<open>Room and memory for one more cache.\<close>

definition can_alloc :: "allocator \<Rightarrow> 'f world \<Rightarrow> nat \<Rightarrow> bool" where
  "can_alloc mm w S \<longleftrightarrow> 0 < fcache_free w \<and> kmem_ok mm \<and>
     (case vmalloc mm S of None \<Rightarrow> False | Some d \<Rightarrow> length d = S)"

lemma fd_okE:
  assumes "fd_ok S d f"
  obtains i p where "d_inode d = Some i" "inode_info_ok i = Some p" "i_private i = Some p"
    "cache_of d = cache p" "\<forall>c. cache p = Some c \<longrightarrow> fc_ok S c f" "\<not> S_ISDIR (i_mode i)"
proof -
  from assms obtain i where i: "d_inode d = Some i" by (auto simp: fd_ok_def split: option.splits)
  with assms obtain p where p: "inode_info_ok i = Some p" by (auto simp: fd_ok_def)
  then have "\<not> S_ISDIR (i_mode i)" "i_private i = Some p"
    by (auto simp: inode_info_ok_def split: if_splits)
  with assms i p show thesis by (intro that [of i p]) (auto simp: fd_ok_def cache_of_def)
qed

lemma set_cache_simps [simp]:
  "d_names (set_cache d i p c) = d_names d"
  "cache_of (set_cache d i p c) = c"
  "d_inode (set_cache d i p c) = Some (i\<lparr>i_private := Some (p\<lparr>cache := c\<rparr>)\<rparr>)"
  by (simp_all add: set_cache_def cache_of_def)

lemma fd_name_set_cache [simp]: "fd_name (set_cache d i p c) stk name = fd_name d stk name"
  by (simp add: fd_name_def)

lemma fd_ok_set_cache:
  assumes "\<not> S_ISDIR (i_mode i)"
  shows "fd_ok S (set_cache d i p c) f \<longleftrightarrow> (\<forall>x. c = Some x \<longrightarrow> fc_ok S x f)"
  using assms by (auto simp: fd_ok_def inode_info_ok_def split: option.splits)

lemma fd_view_set_cache [simp]:
  "fd_view (set_cache d i p None) f = f" "fd_view (set_cache d i p (Some c)) f = fc_view c f"
  by (simp_all add: fd_view_def)

text \<open>A new cache shows the remote content.\<close>

lemma alloc_fcache_ok:
  assumes "can_alloc mm w S" and "fcache_size w = int S" and "fsize_ok S"
  obtains c where "alloc_fcache mm w = (Some c, w\<lparr>fcache_free := fcache_free w - 1\<rparr>)"
    and "\<And>f. fc_ok S c f" and "\<And>f. fc_view c f = f" and "fc_type c = FCACHE_READ"
proof -
  from assms(1) obtain dt where "vmalloc mm S = Some dt" "length dt = S"
    by (auto simp: can_alloc_def split: option.splits)
  with assms show thesis
    by (intro that [of "\<lparr>fc_type = FCACHE_READ, fc_new = True, fc_offset = 0, fc_count = 0, fc_data = dt\<rparr>"])
      (auto simp: can_alloc_def alloc_fcache_def fc_ok_def fc_wf_def fc_clean_def fc_view_def Let_def)
qed

text \<open>
  Without memory behind a free slot, the slot is lost: the counter goes down although no cache
  was made.
\<close>

lemma alloc_fcache_leaks:
  assumes "0 < fcache_free w" and "\<not> kmem_ok mm \<or> vmalloc mm (nat (fcache_size w)) = None"
  shows "alloc_fcache mm w = (None, w\<lparr>fcache_free := fcache_free w - 1\<rparr>)"
  using assms by (auto simp: alloc_fcache_def Let_def)

context remote_file
begin

lemma obtain_cache:
  assumes S: "fsize_ok S" and w: "good w name" "fcache_size w = int S"
    and d: "d_inode d = Some i" "cache_of d = cache p" "\<forall>c. cache p = Some c \<longrightarrow> fc_ok S c (content w name)"
    and mem: "cache p = None \<Longrightarrow> can_alloc mm w S"
  obtains c w1 where "(case cache p of Some c \<Rightarrow> (Some c, w) | None \<Rightarrow> alloc_fcache mm w) = (Some c, w1)"
    and "good w1 name" "content w1 name = content w name" "fcache_size w1 = int S"
    and "fc_ok S c (content w name)" "fc_view c (content w name) = fd_view d (content w name)"
    and "cache p = None \<longrightarrow> fc_type c = FCACHE_READ" "\<forall>x. cache p = Some x \<longrightarrow> c = x \<and> w1 = w"
    and "fcache_free w1 = fcache_free w - (if cache p = None then 1 else 0)"
proof (cases "cache p")
  case None
  obtain c where "alloc_fcache mm w = (Some c, w\<lparr>fcache_free := fcache_free w - 1\<rparr>)"
    "\<And>f. fc_ok S c f" "\<And>f. fc_view c f = f" "fc_type c = FCACHE_READ"
    using alloc_fcache_ok [OF mem [OF None] w(2) S] by blast
  with None w d(2) show thesis
    by (intro that [of c "w\<lparr>fcache_free := fcache_free w - 1\<rparr>"])
      (auto simp: slots_irrelevant fd_view_def)
next
  case (Some c)
  with w d show thesis by (intro that [of c w]) (auto simp: fd_view_def)
qed

lemma file_read:
  assumes S: "fsize_ok S" and w: "good w name" "fcache_size w = int S"
    and d: "fd_ok S d (content w name)" "fd_name d stk name"
    and mem: "cache_of d = None \<Longrightarrow> can_alloc mm w S"
    and fits: "offset + count + S + PAGE_SIZE < 4294967296" and count: "count < 2147483648"
  shows "\<exists>d' w'. fcache_file_read fops mm stk w (Some d) offset count =
      Some (int count, fslice (fd_view d (content w name)) offset count, Some d', w') \<and>
      fd_view d' (content w' name) = fd_view d (content w name) \<and> good w' name \<and>
      fcache_size w' = int S \<and> fd_name d' stk name \<and>
      ((\<forall>c. cache_of d = Some c \<longrightarrow> fc_type c = FCACHE_READ \<or> fcache_hit c offset count = count) \<longrightarrow>
        content w' name = content w name \<and>
        (PAGE_SIZE dvd offset \<longrightarrow> fd_ok S d' (content w' name)))"
proof -
  obtain i p where i: "d_inode d = Some i" "inode_info_ok i = Some p" "i_private i = Some p"
    "cache_of d = cache p" "\<forall>c. cache p = Some c \<longrightarrow> fc_ok S c (content w name)" "\<not> S_ISDIR (i_mode i)"
    by (rule fd_okE [OF d(1)])
  have mem': "cache p = None \<Longrightarrow> can_alloc mm w S" using mem i(4) by simp
  obtain c w1 where c: "(case cache p of Some c \<Rightarrow> (Some c, w) | None \<Rightarrow> alloc_fcache mm w) = (Some c, w1)"
    "good w1 name" "content w1 name = content w name" "fcache_size w1 = int S"
    "fc_ok S c (content w name)" "fc_view c (content w name) = fd_view d (content w name)"
    "cache p = None \<longrightarrow> fc_type c = FCACHE_READ" "\<forall>x. cache p = Some x \<longrightarrow> c = x \<and> w1 = w"
    by (rule obtain_cache [OF S w i(1,4,5) mem'])
  obtain gn nm where gn: "get_name (d_names d) stk = (gn, nm)" "0 \<le> gn" "c_str nm = name"
    using d(2) get_name_not_negative [of "d_names d" stk]
    by (cases "get_name (d_names d) stk") (auto simp: fd_name_def)
  obtain c' w' where r: "fcache_read_cached fops (i_ino i) c name offset count w1 =
      Some (int count, fslice (fd_view d (content w name)) offset count, c', w')"
    "fc_view c' (content w' name) = fd_view d (content w name)" "good w' name"
    "fcache_size w' = int S"
    "fc_type c = FCACHE_READ \<longrightarrow> content w' name = content w name \<and>
       (PAGE_SIZE dvd offset \<longrightarrow> fc_ok S c' (content w' name))"
    "fc_type c = FCACHE_WRITE \<longrightarrow> fcache_hit c offset count = count \<longrightarrow> c' = c \<and> w' = w1"
    using read_cached [OF S c(2,4) _ fits count, of c "i_ino i"] c(3,4,5,6) by auto
  have "fcache_file_read fops mm stk w (Some d) offset count =
      Some (int count, fslice (fd_view d (content w name)) offset count, Some (set_cache d i p (Some c')), w')"
    using i gn c(1) r(1) by (simp add: fcache_file_read_def fcache_inode_def)
  with r d(2) i(4,6) c(3,5,7,8) show ?thesis
    by (cases "fc_type c"; cases "cache p") (auto simp: fd_ok_set_cache)
qed

lemma file_write:
  assumes S: "fsize_ok S" and w: "good w name" "fcache_size w = int S"
    and d: "fd_ok S d (content w name)" "fd_name d stk name"
    and mem: "cache_of d = None \<Longrightarrow> can_alloc mm w S"
    and off: "offset + length buf < 4294967296" and len: "length buf < 2147483648" "buf \<noteq> []"
  shows "\<exists>d' w'. fcache_file_write fops mm stk w d offset (length buf) buf =
      Some (int (length buf), d', w') \<and>
      fd_view d' (content w' name) = patch (fd_view d (content w name)) offset buf \<and>
      fd_ok S d' (content w' name) \<and> good w' name \<and> fcache_size w' = int S \<and>
      fd_name d' stk name \<and> cache_of d' \<noteq> None \<and>
      fcache_free w' = fcache_free w - (if cache_of d = None then 1 else 0)"
proof -
  obtain i p where i: "d_inode d = Some i" "inode_info_ok i = Some p" "i_private i = Some p"
    "cache_of d = cache p" "\<forall>c. cache p = Some c \<longrightarrow> fc_ok S c (content w name)" "\<not> S_ISDIR (i_mode i)"
    by (rule fd_okE [OF d(1)])
  have mem': "cache p = None \<Longrightarrow> can_alloc mm w S" using mem i(4) by simp
  obtain c w1 where c: "(case cache p of Some c \<Rightarrow> (Some c, w) | None \<Rightarrow> alloc_fcache mm w) = (Some c, w1)"
    "good w1 name" "content w1 name = content w name" "fcache_size w1 = int S"
    "fc_ok S c (content w name)" "fc_view c (content w name) = fd_view d (content w name)"
    "fcache_free w1 = fcache_free w - (if cache p = None then 1 else 0)"
    by (rule obtain_cache [OF S w i(1,4,5) mem'])
  obtain gn nm where gn: "get_name (d_names d) stk = (gn, nm)" "0 \<le> gn" "c_str nm = name"
    using d(2) get_name_not_negative [of "d_names d" stk]
    by (cases "get_name (d_names d) stk") (auto simp: fd_name_def)
  obtain c' w' where r: "fcache_write_cached fops (i_ino i) c name offset (length buf) buf w1 =
      Some (int (length buf), c', w')"
    "fc_view c' (content w' name) = patch (fd_view d (content w name)) offset buf"
    "good w' name" "fcache_size w' = int S" "fcache_free w' = fcache_free w1" "fc_ok S c' (content w' name)"
    using write_cached [OF S c(2,4) _ off len, of c "i_ino i"] c(3-6) by auto
  have "fcache_file_write fops mm stk w d offset (length buf) buf =
      Some (int (length buf), set_cache d i p (Some c'), w')"
    using i gn c(1) r(1) by (simp add: fcache_file_write_def)
  with r d(2) i(4,6) c(7) show ?thesis
    by (auto simp: fd_ok_set_cache)
qed

end

context remote_file
begin

text \<open>A flush makes the remote content the view, and closing does so and frees the slot.\<close>

lemma file_sync:
  assumes S: "fsize_ok S" and w: "good w name" "fcache_size w = int S"
    and d: "fd_ok S d (content w name)" "fd_name d stk name"
  shows "\<exists>d' w'. fcache_file_sync fops stk w (Some d) = Some (0, Some d', w') \<and>
      content w' name = fd_view d (content w name) \<and>
      fd_view d' (content w' name) = fd_view d (content w name) \<and>
      fd_ok S d' (content w' name) \<and> good w' name \<and> fcache_size w' = int S \<and>
      fd_name d' stk name \<and> fcache_free w' = fcache_free w \<and>
      (cache_of d' = None \<longleftrightarrow> cache_of d = None)"
proof -
  obtain i p where i: "d_inode d = Some i" "inode_info_ok i = Some p" "i_private i = Some p"
    "cache_of d = cache p" "\<forall>c. cache p = Some c \<longrightarrow> fc_ok S c (content w name)" "\<not> S_ISDIR (i_mode i)"
    by (rule fd_okE [OF d(1)])
  obtain gn nm where gn: "get_name (d_names d) stk = (gn, nm)" "0 \<le> gn" "c_str nm = name"
    using d(2) get_name_not_negative [of "d_names d" stk]
    by (cases "get_name (d_names d) stk") (auto simp: fd_name_def)
  show ?thesis
  proof (cases "\<exists>c. cache p = Some c \<and> fc_count c \<noteq> 0 \<and> fc_type c = FCACHE_WRITE")
    case True
    then obtain c where c: "cache p = Some c" "fc_count c \<noteq> 0" "fc_type c = FCACHE_WRITE" by blast
    let ?c = "c\<lparr>fc_type := FCACHE_READ, fc_count := 0\<rparr>"
    have ok: "fc_ok S c (content w name)" using i c by simp
    then have ok': "fc_ok S ?c f" for f by (auto simp: fc_ok_def fc_wf_def fc_clean_def)
    from flush_dirty [OF w(1) ok c(3) S, of "i_ino i"] i gn c w ok'
    show ?thesis using d(2)
      by (auto simp: fcache_file_sync_def fcache_inode_def fd_ok_set_cache fd_view_def)
  next
    case False
    then have "fcache_file_sync fops stk w (Some d) = Some (0, Some d, w)"
      using i by (auto simp: fcache_file_sync_def fcache_inode_def split: option.splits)
    moreover have "fd_view d (content w name) = content w name"
    proof (cases "cache p")
      case (Some c)
      with False i show ?thesis
        by (cases "fc_type c") (auto simp: fd_view_def fc_view_def)
    qed (simp add: fd_view_def i)
    ultimately show ?thesis using w d by auto
  qed
qed

lemma file_close:
  assumes S: "fsize_ok S" and w: "good w name" "fcache_size w = int S"
    and d: "fd_ok S d (content w name)" "fd_name d stk name"
  shows "\<exists>d' w'. fcache_file_close fops stk w (Some d) = Some (0, Some d', w') \<and>
      content w' name = fd_view d (content w name) \<and> cache_of d' = None \<and>
      fd_ok S d' (content w' name) \<and> good w' name \<and> fcache_size w' = int S \<and>
      fd_name d' stk name \<and>
      fcache_free w' = fcache_free w + (if cache_of d = None then 0 else 1)"
proof -
  obtain d1 w1 where s: "fcache_file_sync fops stk w (Some d) = Some (0, Some d1, w1)"
      "content w1 name = fd_view d (content w name)"
      "fd_ok S d1 (content w1 name)" "good w1 name" "fcache_size w1 = int S"
      "fd_name d1 stk name" "fcache_free w1 = fcache_free w"
      "cache_of d1 = None \<longleftrightarrow> cache_of d = None"
    using file_sync [OF assms] by auto
  obtain i p where i: "d_inode d1 = Some i" "inode_info_ok i = Some p" "i_private i = Some p"
    "cache_of d1 = cache p" "\<forall>c. cache p = Some c \<longrightarrow> fc_ok S c (content w1 name)" "\<not> S_ISDIR (i_mode i)"
    by (rule fd_okE [OF s(3)])
  show ?thesis
  proof (cases "cache p")
    case None
    then have "fcache_file_close fops stk w (Some d) = Some (0, Some d1, w1)"
      by (simp add: fcache_file_close_def fcache_inode_def s(1) i(1,3))
    then show ?thesis using s i(4) None by auto
  next
    case (Some c)
    then have "fcache_file_close fops stk w (Some d) =
        Some (0, Some (set_cache d1 i p None), w1\<lparr>fcache_free := fcache_free w1 + 1\<rparr>)"
      by (simp add: fcache_file_close_def fcache_inode_def s(1) i(1,3) free_fcache_def)
    with s i Some show ?thesis by (auto simp: slots_irrelevant fd_ok_set_cache)
  qed
qed

text \<open>
  A session: write, close, and read the same place through a new cache. What is read is what
  was written.
\<close>

lemma write_close_read:
  assumes S: "fsize_ok S" and w: "good w name" "fcache_size w = int S"
    and d: "fd_ok S d (content w name)" "fd_name d stk name"
    and mem: "kmem_ok mm" "vmalloc mm S = Some dt" "length dt = S" "0 < fcache_free w"
    and fits: "offset + length buf + S + PAGE_SIZE < 4294967296"
    and len: "length buf < 2147483648" "buf \<noteq> []"
  shows "\<exists>d1 w1 d2 w2 d3 w3.
      fcache_file_write fops mm stk w d offset (length buf) buf = Some (int (length buf), d1, w1) \<and>
      fcache_file_close fops stk w1 (Some d1) = Some (0, Some d2, w2) \<and>
      fcache_file_read fops mm stk w2 (Some d2) offset (length buf) =
        Some (int (length buf), buf, Some d3, w3) \<and>
      content w3 name = patch (fd_view d (content w name)) offset buf"
proof -
  have ca: "can_alloc mm v S" if "0 < fcache_free v" for v :: "'a world"
    using mem that by (simp add: can_alloc_def)
  have o: "offset + length buf < 4294967296" using fits by simp
  obtain d1 w1 where wr: "fcache_file_write fops mm stk w d offset (length buf) buf =
        Some (int (length buf), d1, w1)"
      "fd_view d1 (content w1 name) = patch (fd_view d (content w name)) offset buf"
      "fd_ok S d1 (content w1 name)" "good w1 name" "fcache_size w1 = int S" "fd_name d1 stk name"
      "cache_of d1 \<noteq> None" "fcache_free w1 = fcache_free w - (if cache_of d = None then 1 else 0)"
    using file_write [OF S w d ca [OF mem(4)] o len] by blast
  obtain d2 w2 where cl: "fcache_file_close fops stk w1 (Some d1) = Some (0, Some d2, w2)"
      "content w2 name = fd_view d1 (content w1 name)" "cache_of d2 = None"
      "fd_ok S d2 (content w2 name)" "good w2 name" "fcache_size w2 = int S" "fd_name d2 stk name"
      "fcache_free w2 = fcache_free w1 + 1"
    using file_close [OF S wr(4,5,3,6)] wr(7) by auto
  have "0 < fcache_free w2" using cl(8) wr(8) mem(4) by (simp split: if_splits)
  then obtain d3 w3 where rd: "fcache_file_read fops mm stk w2 (Some d2) offset (length buf) =
      Some (int (length buf), fslice (fd_view d2 (content w2 name)) offset (length buf), Some d3, w3)"
      "content w3 name = content w2 name"
    using file_read [OF S cl(5,6,4,7) ca fits len(1)] cl(3) by auto
  have "fslice (fd_view d2 (content w2 name)) offset (length buf) = buf"
    using cl(2,3) wr(2) by (simp add: fd_view_def patch_fslice)
  with wr cl rd show ?thesis by auto
qed

end
end
