(* ===== verification/FCacheLimits.thy ===== *)
theory FCacheLimits
  imports FCacheFile
begin

text \<open>
  The edges of the file cache: the window after a flush inside a page, memory safety of the
  operations whatever the remote side answers, and what errors of the remote side do to the
  cached data.
\<close>

section \<open>A window out of place\<close>

text \<open>
  The window after a dirty run that ends inside a page. The flush leaves the empty window at the
  end of the run, the page is read from its start, and the window is not moved there: it claims
  the page's bytes for the positions behind the run.
\<close>

lemma readahead_page:
  assumes S: "fsize_ok S" and c: "fc_offset c = off" "fc_count c = 0"
    and off: "off < 4294963200" and x: "off mod PAGE_SIZE = x" "x + cnt = PAGE_SIZE"
  shows "readahead (int S) c off cnt = Some (c, PAGE_SIZE)"
proof -
  have S': "PAGE_SIZE \<le> S" "S < 2147483648" using S by (auto simp: fsize_ok_def dvd_imp_le)
  have xs: "off - (off - off mod PAGE_SIZE) = x" using x(1) by simp
  have "u32 (int (x + cnt)) = PAGE_SIZE" unfolding x(2) by (simp add: u32_def)
  moreover have "u32 (int ((PAGE_SIZE + PAGE_SIZE - 1) div PAGE_SIZE * PAGE_SIZE)) = PAGE_SIZE"
    by (simp add: u32_def)
  moreover have "u32 (int S) = S" "u64 (int S) = S" using S' by simp_all
  moreover have "(off - off mod PAGE_SIZE) mod PAGE_SIZE = 0"
    using page_dvd_base [of off] by (simp add: dvd_eq_mod_eq_0)
  ultimately show ?thesis
    unfolding readahead_def Let_def xs c using S' c by (simp add: u32_def)
qed

context remote_file
begin

lemma unaligned_flush:
  assumes S: "fsize_ok S" and w: "good w name" "fcache_size w = int S"
    and c: "fc_ok S c (content w name)" "fc_type c = FCACHE_WRITE"
    and run: "fc_offset c \<le> page" "fc_offset c + fc_count c = page + x" "0 < x" "x < PAGE_SIZE"
    and page: "PAGE_SIZE dvd page" "page + S + 3 * PAGE_SIZE < 4294967296"
  shows "\<exists>c' w'. fcache_read_cached fops ino c name page PAGE_SIZE w =
      Some (int PAGE_SIZE, fslice (content w' name) page PAGE_SIZE, c', w') \<and>
      content w' name = fc_view c (content w name) \<and>
      fcache_hit c' (page + PAGE_SIZE) PAGE_SIZE = x \<and>
      take x (drop (page + PAGE_SIZE - fc_offset c') (fc_data c')) =
        fslice (content w' name) (page + PAGE_SIZE - x) x"
proof -
  let ?v = "fc_view c (content w name)"
  have n: "fcache_hit c page PAGE_SIZE = x"
    using run by (auto simp: fcache_hit_def Let_def)
  have hit: "take x (drop (page - fc_offset c) (fc_data c)) = fslice ?v page x"
    using hit_bytes [OF c(1), of page PAGE_SIZE] by (simp add: n)
  obtain w1 where w1: "op_write fops w name (u32 (int (fc_offset c))) (u32 (int (fc_count c)))
      (fc_data c) ino = Some (int (fc_count c), name, w1)" "content w1 name = ?v" "good w1 name"
      "fcache_size w1 = int S"
    using flush_dirty [OF w(1) c S] w(2) by auto
  define c1 where "c1 = c\<lparr>fc_type := FCACHE_READ, fc_offset := page + x, fc_count := 0\<rparr>"
  have pm: "(page + x) mod PAGE_SIZE = x" "page + x - x = page"
    using page(1) run(4) by (auto simp: dvd_def)
  have ra: "readahead (int S) c1 (page + x) (PAGE_SIZE - x) = Some (c1, PAGE_SIZE)"
    by (rule readahead_page [OF S _ _ _ pm(1)]) (use page run in \<open>simp_all add: c1_def\<close>)
  obtain w2 where w2: "op_read fops w1 name page PAGE_SIZE 0 =
      Some (int PAGE_SIZE, name, fslice ?v page PAGE_SIZE, w2)" "content w2 name = ?v"
    using read_spec [OF w1(3), of PAGE_SIZE page] page w1(2) by auto
  define c2 where "c2 = fill_window c1 ?v page PAGE_SIZE"
  have wf1: "fc_wf S c1" "fc_count c1 + PAGE_SIZE \<le> S"
    using c S by (auto simp: c1_def fc_ok_def fc_wf_def fsize_ok_def dvd_imp_le)
  have bytes: "take (PAGE_SIZE - x) (drop x (fc_data c2)) = fslice ?v (page + x) (PAGE_SIZE - x)"
    "take x (drop (PAGE_SIZE - x) (fc_data c2)) = fslice ?v (page + (PAGE_SIZE - x)) x"
    using fill_window_bytes [OF wf1, of x "PAGE_SIZE - x" ?v page]
      fill_window_bytes [OF wf1, of "PAGE_SIZE - x" x ?v page] run(4)
    by (simp_all add: c1_def c2_def)
  have c2: "fc_offset c2 = page + x" "fc_count c2 = PAGE_SIZE"
    "c1\<lparr>fc_data := blit (fc_data c1) (fc_count c1) (fslice ?v page PAGE_SIZE),
       fc_count := fc_count c1 + PAGE_SIZE\<rparr> = c2"
    by (simp_all add: c2_def c1_def fill_window_def)
  have "fcache_read_cached fops ino c name page PAGE_SIZE w =
      fcache_read_loop fops (page + x) (PAGE_SIZE - x) x c1 name (fslice ?v page x) w1"
    using page run w1(1) c(2)
    by (simp add: fcache_read_cached_def fcache_read_flush_def Let_def n hit c1_def)
  also have "\<dots> = Some (int PAGE_SIZE, fslice ?v page PAGE_SIZE, c2, w2)"
  proof -
    let ?y = "PAGE_SIZE - x"
    have y: "int PAGE_SIZE - int x = int ?y" "u32 (int ?y) = ?y" "x + ?y = PAGE_SIZE"
      "u32 (int (page + x + ?y)) = page + PAGE_SIZE" "u32 (int PAGE_SIZE) = PAGE_SIZE"
      using run(4) page(2) u32_int [of ?y] u32_int [of "page + PAGE_SIZE"] u32_int [of PAGE_SIZE] by simp_all
    have d2: "blit (fc_data c1) 0 (fslice ?v page PAGE_SIZE) = fc_data c2"
      "fc_count c1 = 0" "c1\<lparr>fc_data := fc_data c2, fc_count := nat (int PAGE_SIZE)\<rparr> = c2"
      by (simp_all add: c2_def c1_def fill_window_def)
    have app: "fslice ?v page x @ fslice ?v (page + x) ?y = fslice ?v page PAGE_SIZE"
      using fslice_append [of ?v page x ?y] run(4) by simp
    have pos: "?y \<noteq> 0" "\<not> int PAGE_SIZE < 0" using run(4) by simp_all
    have "fcache_read_loop fops (page + x) ?y x c1 name (fslice ?v page x) w1 =
        fcache_read_loop fops (page + PAGE_SIZE) (?y - ?y) PAGE_SIZE c2 name (fslice ?v page PAGE_SIZE) w2"
      by (subst fcache_read_loop.simps)
        (simp only: pos if_False w1(4) ra pm Let_def y(1,2) w2(1) Option.bind.bind_lunit
          prod.case d2 add_0 add_0_left bytes(1) app y(3-5) less_irrefl)
    then show ?thesis by (simp add: fcache_read_loop.simps [of fops _ 0])
  qed
  finally show ?thesis
    using w2(2) bytes(2) run c2 by (intro exI [of _ c2] exI [of _ w2]) (simp add: fcache_hit_def Let_def)
qed

end

section \<open>Memory safety\<close>

text \<open>
  Remote sides that leave the cache size alone, and whose reads store at most the bytes asked
  for and report at most as many. Nothing else is required of them.
\<close>

definition keeps_size :: "'f world shfs_fileops \<Rightarrow> bool" where
  "keeps_size fops \<longleftrightarrow>
     (\<forall>w name off n data ino r name' w'. op_write fops w name off n data ino = Some (r, name', w') \<longrightarrow>
        fcache_size w' = fcache_size w) \<and>
     (\<forall>w name off n r name' bs w'. op_read fops w name off n 0 = Some (r, name', bs, w') \<longrightarrow>
        fcache_size w' = fcache_size w \<and> r \<le> int n \<and> length bs \<le> n)"

lemma keeps_sizeD:
  "keeps_size fops \<Longrightarrow> op_write fops w name off n data ino = Some (r, name', w') \<Longrightarrow>
    fcache_size w' = fcache_size w"
  "keeps_size fops \<Longrightarrow> op_read fops w name off n 0 = Some (r, name', bs, w') \<Longrightarrow>
    fcache_size w' = fcache_size w \<and> r \<le> int n \<and> length bs \<le> n"
  unfolding keeps_size_def by blast+

lemma write_loop_wf:
  assumes fops: "keeps_size fops" and S: "0 < S" "S < 2147483648"
    and c: "fc_wf S c" and w: "fcache_size w = int S"
    and r: "fcache_write_loop fops ino off cnt wrote result c name buf w = Some (res, wr', c', nm', w')"
    and len: "length buf = cnt"
  shows "fc_wf S c' \<and> fcache_size w' = int S"
  using c w r len
proof (induction cnt arbitrary: off wrote result c name buf w rule: less_induct)
  case (less cnt)
  show ?case
  proof (cases "cnt = 0")
    case True
    with less.prems show ?thesis by (simp add: fcache_write_loop.simps [of fops ino off 0])
  next
    case False
    from less.prems(3) False obtain r0 n1 w1 where wr: "op_write fops w name (u32 (int (fc_offset c)))
        (u32 (int (fc_count c))) (fc_data c) ino = Some (r0, n1, w1)"
      by (subst (asm) fcache_write_loop.simps) (auto simp: Option.bind_eq_Some_conv split: if_splits)
    have sz: "fcache_size w1 = int S" using keeps_sizeD(1) [OF fops wr] less.prems(2) by simp
    define n where "n = (if cnt > S then S else cnt)"
    have n: "0 < n" "n \<le> cnt" "n \<le> S" using False S by (auto simp: n_def)
    have u: "u32 (int S) = S" using S by simp
    show ?thesis
    proof (cases "r0 < 0")
      case True
      with less.prems wr sz False show ?thesis
        by (simp add: fcache_write_loop.simps [of fops ino off cnt])
    next
      case nn: False
      let ?c = "c\<lparr>fc_data := blit (fc_data c) 0 (take n buf), fc_offset := off, fc_count := n\<rparr>"
      have step: "fcache_write_loop fops ino (u32 (int (off + n))) (cnt - n) (u32 (int (wrote + n)))
          r0 ?c n1 (drop n buf) w1 = Some (res, wr', c', nm', w')"
        using less.prems(3) wr False nn
        by (subst (asm) fcache_write_loop.simps) (simp only: sz u n_def [symmetric] Let_def
          Option.bind.bind_lunit prod.case if_False)
      have wf: "fc_wf S ?c"
        using less.prems(1,4) n by (simp add: fc_wf_def buf_simps)
      from less.IH [OF _ wf sz step] n less.prems(4) show ?thesis by simp
    qed
  qed
qed

lemma write_hit_wf:
  assumes "fc_wf S c" "S < 2147483648"
  shows "fc_wf S (fst (fcache_write_hit (int S) c offset buf count))"
proof -
  have "blit d k (take n buf) = blit d k (take n buf)" for d :: string and k n by simp
  show ?thesis
  proof (cases "fc_offset c \<le> offset \<and> offset < fc_offset c + fc_count c")
    case True
    define k where "k = offset - fc_offset c"
    define n where "n = (if count > S - k then S - k else count)"
    have k: "k < fc_count c" "k < S" using True assms by (auto simp: k_def fc_wf_def)
    have u: "u32 (int S - int k) = S - k" using k assms(2) by simp
    have eq: "fst (fcache_write_hit (int S) c offset buf count) =
       c\<lparr>fc_data := blit (fc_data c) k (take n buf),
         fc_count := if k + n > fc_count c then k + n else fc_count c\<rparr>"
      unfolding fcache_write_hit_def Let_def if_P [OF True] k_def [symmetric] u n_def by simp
    show ?thesis using k assms unfolding eq by (auto simp: fc_wf_def buf_simps n_def)
  next
    case False
    then show ?thesis using assms by (auto simp: fcache_write_hit_def)
  qed
qed

lemma write_append_wf:
  assumes "fc_wf S c" "S < 2147483648"
  shows "fc_wf S (fst (fcache_write_append (int S) c offset buf count))"
proof -
  have cc: "fc_count c \<le> S" "length (fc_data c) = S" using assms by (auto simp: fc_wf_def)
  have u: "u64 (int S - int (fc_count c)) = S - fc_count c"
    using cc assms(2) u64_int [of "S - fc_count c"] by (simp add: of_nat_diff)
  define n where "n = (if count > S - fc_count c then S - fc_count c else count)"
  have n: "fc_count c + n \<le> S" using cc by (auto simp: n_def)
  show ?thesis
  proof (cases "count \<noteq> 0 \<and> offset = fc_offset c + fc_count c")
    case True
    then have "fst (fcache_write_append (int S) c offset buf count) =
       c\<lparr>fc_data := blit (fc_data c) (fc_count c) (take n buf), fc_count := fc_count c + n\<rparr>"
      unfolding fcache_write_append_def Let_def if_P [OF True] u n_def by simp
    with n cc show ?thesis by (simp add: fc_wf_def buf_simps)
  next
    case False
    then show ?thesis using assms by (auto simp: fcache_write_append_def)
  qed
qed

text \<open>
  Whatever a well-behaved remote side answers, a write keeps the window inside the buffer and no
  copy leaves it.
\<close>

lemma write_cached_wf:
  assumes fops: "keeps_size fops" and S: "0 < S" "S < 2147483648"
    and c: "fc_wf S c" and w: "fcache_size w = int S"
    and r: "fcache_write_cached fops ino c name offset (length buf) buf w = Some (res, c', w')"
  shows "fc_wf S c' \<and> fcache_size w' = int S"
proof -
  define c0 where "c0 = (if fc_type c = FCACHE_READ
    then c\<lparr>fc_offset := offset, fc_count := 0, fc_type := FCACHE_WRITE\<rparr> else c)"
  have c0: "fc_wf S c0" using c by (simp add: c0_def fc_wf_def)
  obtain c1 n1 where h: "fcache_write_hit (int S) c0 offset buf (length buf) = (c1, n1)" by fastforce
  have c1: "fc_wf S c1" using write_hit_wf [OF c0 S(2), of offset buf "length buf"] h by simp
  obtain c2 n2 where a: "fcache_write_append (int S) c1 (u32 (int (offset + n1))) (drop n1 buf)
      (length buf - n1) = (c2, n2)" by fastforce
  have c2: "fc_wf S c2" using write_append_wf [OF c1 S(2), of "u32 (int (offset + n1))" "drop n1 buf"
      "length buf - n1"] a by simp
  have len: "length (drop n2 (drop n1 buf)) = length buf - n1 - n2" by simp
  from r h a obtain r3 wr c3 nm w3 where
    l: "fcache_write_loop fops ino (u32 (int (u32 (int (offset + n1)) + n2))) (length buf - n1 - n2)
        (u32 (int (n1 + n2))) 0 c2 name (drop n2 (drop n1 buf)) w = Some (r3, wr, c3, nm, w3)"
    and e: "\<exists>r4. (if fc_new c3 \<and> wr \<noteq> 0 then do {
            (res, _, w2) \<leftarrow> op_write fops w3 nm (u32 (int (fc_offset c3))) 1 (fc_data c3) ino;
            Some (res, c3\<lparr>fc_new := False\<rparr>, w2)
          } else Some (r3, c3, w3)) = Some (r4, c', w')"
    unfolding fcache_write_cached_def Let_def w c0_def [symmetric]
    by (auto simp: Option.bind_eq_Some_conv simp del: drop_drop)
  have wf3: "fc_wf S c3 \<and> fcache_size w3 = int S"
    by (rule write_loop_wf [OF fops S c2 w l len])
  show ?thesis
  proof (cases "fc_new c3 \<and> wr \<noteq> 0")
    case True
    with e obtain r4 nm2 where "op_write fops w3 nm (u32 (int (fc_offset c3))) 1 (fc_data c3) ino =
        Some (r4, nm2, w')" "c' = c3\<lparr>fc_new := False\<rparr>"
      by (auto simp: Option.bind_eq_Some_conv)
    with wf3 keeps_sizeD(1) [OF fops] show ?thesis by (auto simp: fc_wf_def)
  next
    case False
    with e wf3 show ?thesis by auto
  qed
qed

text \<open>The same for a read, whose window takes the block that the remote side stores.\<close>

lemma readahead_wf:
  assumes "readahead (int S) c off cnt = Some (c1, ra)" and "fc_wf S c" and "S < 2147483648"
  shows "fc_wf S c1 \<and> fc_count c1 + ra \<le> S"
proof -
  have u: "u32 (int S) = S" "u64 (int S) = S" using assms(3) by simp_all
  define c0 where "c0 = (if fc_offset c + fc_count c = off then (c, u32 (int (fc_count c)))
    else (c\<lparr>fc_offset := off - off mod PAGE_SIZE, fc_count := 0\<rparr>, 0))"
  have c0: "fc_wf S (fst c0)" using assms(2) by (simp add: c0_def fc_wf_def)
  have fill: "fc_wf S c1 \<and> fc_count c1 + ra \<le> S"
    if "c1 = (if fc_count d + ra > S then d\<lparr>fc_offset := o1, fc_count := 0\<rparr> else d)" "fc_wf S d"
      "ra \<le> S" for d o1
    using that by (auto simp: fc_wf_def)
  have gcd: "(if y mod z \<noteq> 0 then hd_loop y z else z) \<le> S" if "z \<noteq> 0" "z \<le> S" for y z
    using that by (auto simp: hd_loop_gcd intro: le_trans [OF gcd_le2_nat])
  let ?o = "off - off mod PAGE_SIZE"
  have "\<exists>z\<le>S. z \<noteq> 0 \<and> ra = (if ?o mod z \<noteq> 0 then hd_loop ?o z else z) \<and>
      c1 = (if fc_count (fst c0) + ra > S then (fst c0)\<lparr>fc_offset := ?o, fc_count := 0\<rparr> else fst c0)"
  proof -
    obtain d r0 where d: "c0 = (d, r0)" by fastforce
    define z where "z = (let x = off - ?o;
        ra1 = (if r0 < u32 (int (x + cnt)) then u32 (int (x + cnt)) else r0);
        ra2 = u32 (int ((ra1 + PAGE_SIZE - 1) div PAGE_SIZE * PAGE_SIZE))
      in if ra2 > S then S else ra2)"
    have "(if z = 0 then None else Some (if fc_count d + (if ?o mod z \<noteq> 0 then hd_loop ?o z else z) > S
         then d\<lparr>fc_offset := ?o, fc_count := 0\<rparr> else d, if ?o mod z \<noteq> 0 then hd_loop ?o z else z)) = Some (c1, ra)"
      using assms(1) unfolding readahead_def Let_def u c0_def [symmetric] d prod.case z_def .
    then have "z \<noteq> 0" "ra = (if ?o mod z \<noteq> 0 then hd_loop ?o z else z)"
      "c1 = (if fc_count d + ra > S then d\<lparr>fc_offset := ?o, fc_count := 0\<rparr> else d)"
      by (cases "z = 0"; simp)+
    moreover have "z \<le> S" by (simp add: z_def Let_def)
    ultimately show ?thesis unfolding d by auto
  qed
  then show ?thesis using fill c0 gcd by blast
qed


lemma read_loop_wf:
  assumes fops: "keeps_size fops" and S: "S < 2147483648"
    and r: "fcache_read_loop fops off cnt rd c name buf w = Some (res, buf', c', w')"
    and c: "fc_wf S c" and w: "fcache_size w = int S"
  shows "fc_wf S c' \<and> fcache_size w' = int S \<and> length buf' \<le> length buf + cnt"
proof -
  let ?P = "\<lambda>fops off cnt rd c name buf w r. keeps_size fops \<longrightarrow> fc_wf S c \<longrightarrow> fcache_size w = int S \<longrightarrow>
     fc_wf S (fst (snd (snd r))) \<and> fcache_size (snd (snd (snd r))) = int S \<and>
     length (fst (snd r)) \<le> length buf + cnt"
  have "?P fops off cnt rd c name buf w (res, buf', c', w')"
  proof (rule fcache_read_loop.raw_induct [where P = ?P, OF _ r], intro impI)
    fix rec :: "'a world shfs_fileops \<Rightarrow> nat \<Rightarrow> nat \<Rightarrow> nat \<Rightarrow> shfs_file \<Rightarrow> string \<Rightarrow> string \<Rightarrow> 'a world
      \<Rightarrow> (int \<times> string \<times> shfs_file \<times> 'a world) option"
    fix fops :: "'a world shfs_fileops" and off cnt rd c name buf w r
    assume IH: "\<And>fops off cnt rd c name buf w r. rec fops off cnt rd c name buf w = Some r \<Longrightarrow>
        ?P fops off cnt rd c name buf w r"
      and eq: "(if cnt = 0 then Some (s32 (int rd), buf, c, w)
        else do {
          (c1, ra) \<leftarrow> readahead (fcache_size w) c off cnt;
          (result, name1, bs, w1) \<leftarrow> op_read fops w name (off - off mod PAGE_SIZE) ra 0;
          let x = off mod PAGE_SIZE;
          d = blit (fc_data c1) (fc_count c1) bs in
          if result < 0 then Some (result, buf, c1\<lparr>fc_data := d, fc_count := 0\<rparr>, w1)
          else
            let n0 = u32 (result - int x);
             n = (if n0 > cnt then cnt else n0)
         in rec fops (u32 (int (off + n))) (cnt - n) (u32 (int (rd + n)))
              (c1\<lparr>fc_data := d, fc_count := fc_count c1 + nat result\<rparr>) name1
              (buf @ take n (drop (fc_count c1 + x) d)) w1
        }) = Some r"
      and pre: "keeps_size fops" "fc_wf S c" "fcache_size w = int S"
    show "fc_wf S (fst (snd (snd r))) \<and> fcache_size (snd (snd (snd r))) = int S \<and>
      length (fst (snd r)) \<le> length buf + cnt"
    proof (cases "cnt = 0")
      case True
      with eq pre show ?thesis by auto
    next
      case False
      from eq False obtain c1 ra q nm bs w1 where
        ra: "readahead (int S) c off cnt = Some (c1, ra)" and
        rd: "op_read fops w name (off - off mod PAGE_SIZE) ra 0 = Some (q, nm, bs, w1)"
        unfolding pre(3) if_not_P [OF False]
        by (elim bind_SomeE) (clarsimp split: prod.splits elim!: bind_SomeE)
      have wf1: "fc_wf S c1" "fc_count c1 + ra \<le> S" using readahead_wf [OF ra pre(2) S] by auto
      have w1: "fcache_size w1 = int S" "q \<le> int ra" "length bs \<le> ra"
        using keeps_sizeD(2) [OF pre(1) rd] pre(3) by auto
      define d where "d = blit (fc_data c1) (fc_count c1) bs"
      have d: "length d = S" "fc_count c1 + nat q \<le> S"
        using wf1 w1(2,3) by (auto simp: d_def fc_wf_def buf_simps)
      note eq1 = eq [unfolded pre(3) if_not_P [OF False] ra rd Option.bind.bind_lunit prod.case Let_def,
          folded d_def]
      show ?thesis
      proof (cases "q < 0")
        case True
        with eq1 have "r = (q, buf, c1\<lparr>fc_data := d, fc_count := 0\<rparr>, w1)" by simp
        with d w1 show ?thesis by (simp add: fc_wf_def)
      next
        case nn: False
        define n where "n = (if u32 (q - int (off mod PAGE_SIZE)) > cnt then cnt
          else u32 (q - int (off mod PAGE_SIZE)))"
        have n: "n \<le> cnt" by (auto simp: n_def)
        let ?c = "c1\<lparr>fc_data := d, fc_count := fc_count c1 + nat q\<rparr>"
        let ?b = "buf @ take n (drop (fc_count c1 + off mod PAGE_SIZE) d)"
        have "rec fops (u32 (int (off + n))) (cnt - n) (u32 (int (rd + n))) ?c nm ?b w1 = Some r"
          using eq1 unfolding if_not_P [OF nn] n_def .
        from IH [OF this] pre(1) d w1(1) n show ?thesis
          by (auto simp: fc_wf_def)
      qed
    qed
  qed
  with fops c w show ?thesis by simp
qed

lemma read_cached_wf:
  assumes fops: "keeps_size fops" and S: "S < 2147483648"
    and c: "fc_wf S c" and w: "fcache_size w = int S"
    and r: "fcache_read_cached fops ino c name offset count w = Some (res, buf', c', w')"
  shows "fc_wf S c' \<and> length buf' \<le> count"
proof -
  let ?n = "fcache_hit c offset count"
  let ?b = "take ?n (drop (offset - fc_offset c) (fc_data c))"
  obtain c1 nm w1 where f: "fcache_read_flush fops ino (u32 (int (offset + ?n))) (count - ?n) c name w =
      Some (c1, nm, w1)"
    and l: "fcache_read_loop fops (u32 (int (offset + ?n))) (count - ?n) ?n c1 nm ?b w1 = Some (res, buf', c', w')"
    using r unfolding fcache_read_cached_def Let_def
    by (elim bind_SomeE) (clarsimp split: prod.splits elim!: bind_SomeE)
  have "fc_wf S c1 \<and> fcache_size w1 = int S"
    using f c w unfolding fcache_read_flush_def
    by (auto simp: fc_wf_def split: if_splits elim!: bind_SomeE dest: keeps_sizeD(1) [OF fops])
  with read_loop_wf [OF fops S l] hit_le [of c offset count] show ?thesis by auto
qed

text \<open>On the level of open files: every cache buffer keeps its size and holds its window.\<close>

definition fd_safe :: "nat \<Rightarrow> dentry \<Rightarrow> bool" where
  "fd_safe S d \<longleftrightarrow> (\<forall>c. cache_of d = Some c \<longrightarrow> fc_wf S c)"

definition mem_sound :: "allocator \<Rightarrow> bool" where
  "mem_sound mm \<longleftrightarrow> (\<forall>n d. vmalloc mm n = Some d \<longrightarrow> length d = n)"

lemma alloc_safe:
  assumes "mem_sound mm" and "fcache_size w = int S" and "alloc_fcache mm w = (co, w1)"
  shows "fcache_size w1 = int S \<and> (\<forall>c. co = Some c \<longrightarrow> fc_wf S c)"
  using assms by (auto simp: alloc_fcache_def mem_sound_def fc_wf_def Let_def split: if_splits option.splits)

lemma file_write_safe:
  assumes fops: "keeps_size fops" and mm: "mem_sound mm" and S: "0 < S" "S < 2147483648"
    and w: "fcache_size w = int S" and d: "fd_safe S d"
    and r: "fcache_file_write fops mm stk w d offset (length buf) buf = Some (res, d', w')"
  shows "fd_safe S d'"
proof (cases "\<exists>i p. d_inode d = Some i \<and> inode_info_ok i = Some p")
  case False
  with r d show ?thesis
    by (auto simp: fcache_file_write_def split: option.splits prod.splits if_splits)
next
  case True
  then obtain i p where i: "d_inode d = Some i" "inode_info_ok i = Some p" by blast
  then have co: "cache_of d = cache p" by (auto simp: cache_of_def inode_info_ok_def split: if_splits)
  obtain gn nm where gn: "get_name (d_names d) stk = (gn, nm)" "\<not> gn < 0"
    using get_name_not_negative [of "d_names d" stk] by (cases "get_name (d_names d) stk") auto
  obtain co1 w1 where al: "(case cache p of Some c \<Rightarrow> (Some c, w) | None \<Rightarrow> alloc_fcache mm w) = (co1, w1)"
    by fastforce
  have safe: "fcache_size w1 = int S" "\<forall>c. co1 = Some c \<longrightarrow> fc_wf S c"
    using al alloc_safe [OF mm w] d w co by (auto simp: fd_safe_def split: option.splits)
  note r1 = r [unfolded fcache_file_write_def i option.case gn(1) prod.case if_not_P [OF gn(2)] al]
  show ?thesis
  proof (cases co1)
    case None
    with r1 have "cache_of d' = None" by (auto elim!: bind_SomeE)
    then show ?thesis by (simp add: fd_safe_def)
  next
    case (Some c)
    with r1 obtain q c1 where c1: "fcache_write_cached fops (i_ino i) c (c_str nm) offset (length buf) buf w1 =
        Some (q, c1, w')" "d' = set_cache d i p (Some c1)"
      by (auto elim!: bind_SomeE)
    from write_cached_wf [OF fops S _ safe(1) c1(1)] safe(2) Some c1(2) show ?thesis
      by (simp add: fd_safe_def)
  qed
qed

lemma file_read_safe:
  assumes fops: "keeps_size fops" and mm: "mem_sound mm" and S: "0 < S" "S < 2147483648"
    and w: "fcache_size w = int S" and d: "fd_safe S d"
    and r: "fcache_file_read fops mm stk w (Some d) offset count = Some (res, bs, Some d', w')"
  shows "fd_safe S d' \<and> length bs \<le> count"
proof (cases "\<exists>i p. d_inode d = Some i \<and> inode_info_ok i = Some p")
  case False
  with r d show ?thesis
    by (auto simp: fcache_file_read_def fcache_inode_def split: option.splits prod.splits if_splits)
next
  case True
  then obtain i p where i: "d_inode d = Some i" "inode_info_ok i = Some p" by blast
  then have co: "cache_of d = cache p" by (auto simp: cache_of_def inode_info_ok_def split: if_splits)
  have fi: "fcache_inode (Some d) = Some (d, i)" using i by (simp add: fcache_inode_def)
  obtain gn nm where gn: "get_name (d_names d) stk = (gn, nm)" "\<not> gn < 0"
    using get_name_not_negative [of "d_names d" stk] by (cases "get_name (d_names d) stk") auto
  obtain co1 w1 where al: "(case cache p of Some c \<Rightarrow> (Some c, w) | None \<Rightarrow> alloc_fcache mm w) = (co1, w1)"
    by fastforce
  have safe: "fcache_size w1 = int S" "\<forall>c. co1 = Some c \<longrightarrow> fc_wf S c"
    using al alloc_safe [OF mm w] d w co by (auto simp: fd_safe_def split: option.splits)
  note r1 = r [unfolded fcache_file_read_def fi i option.case gn(1) prod.case if_not_P [OF gn(2)] al]
  show ?thesis
  proof (cases co1)
    case None
    with r1 obtain q n2 where "cache_of d' = None"
        "op_read fops w1 (c_str nm) offset count 0 = Some (q, n2, bs, w')"
      by (auto elim!: bind_SomeE)
    with keeps_sizeD(2) [OF fops] show ?thesis by (simp add: fd_safe_def)
  next
    case (Some c)
    with r1 obtain q c1 where c1: "fcache_read_cached fops (i_ino i) c (c_str nm) offset count w1 =
        Some (q, bs, c1, w')" "d' = set_cache d i p (Some c1)"
      by (auto elim!: bind_SomeE)
    from read_cached_wf [OF fops S(2) _ safe(1) c1(1)] safe(2) Some c1(2) show ?thesis
      by (simp add: fd_safe_def)
  qed
qed

section \<open>Errors of the remote side\<close>

text \<open>
  C28: A flush that the remote side refuses answers its error, and the dirty bytes are gone: the
  cache is marked clean and empty all the same.
\<close>

lemma sync_error_drops:
  assumes "d_inode d = Some i" "inode_info_ok i = Some p" "cache p = Some c"
    and "fc_count c \<noteq> 0" "fc_type c = FCACHE_WRITE" "fd_name d stk name"
    and "op_write fops w name (u32 (int (fc_offset c))) (u32 (int (fc_count c))) (fc_data c) (i_ino i) =
      Some (e, name', w')" "e < 0"
  shows "fcache_file_sync fops stk w (Some d) =
    Some (e, Some (set_cache d i p (Some (c\<lparr>fc_type := FCACHE_READ, fc_count := 0\<rparr>))), w')"
proof -
  obtain gn nm where gn: "get_name (d_names d) stk = (gn, nm)" "\<not> gn < 0" "c_str nm = name"
    using assms(6) get_name_not_negative [of "d_names d" stk]
    by (cases "get_name (d_names d) stk") (auto simp: fd_name_def)
  with assms show ?thesis by (simp add: fcache_file_sync_def fcache_inode_def)
qed

end
