(* ===== verification/FileServer.thy ===== *)
theory FileServer
  imports Protocol ProcSpec Shell FCacheLimits
begin

text \<open>
  \<open>shell.c\<close> over a server that keeps the file protocol: \<open>shell_read\<close> and \<open>shell_write\<close> fulfil
  the contract \<open>remote_file\<close> that the file cache needs. The contract of the server is the
  locale \<open>file_server\<close>.
\<close>

section \<open>The server's contract\<close>

text \<open>
  \<open>ready s pres\<close>: the server waits for a command, with or without credentials; \<open>bytes s\<close> are
  its files. A read answers the bytes asked for, padded; a write takes the bytes, and its two
  answers may both come before them when there are none.
\<close>

locale file_server = prompt_connection so outq core react
  for so :: "'f sockops" and outq :: "'f \<Rightarrow> string" and core :: "'f \<Rightarrow> 's"
    and react :: "'s \<Rightarrow> string \<Rightarrow> string \<times> 's" +
  fixes ready :: "'s \<Rightarrow> bool \<Rightarrow> bool" and bytes :: "'s \<Rightarrow> string \<Rightarrow> string option"
  assumes read_cmd: "ready s pres \<Longrightarrow> bytes s name = Some b \<Longrightarrow> cred_words pres ts u \<Longrightarrow>
      off < 4294967296 \<Longrightarrow> n < 4294967296 \<Longrightarrow>
      \<exists>s'. react s (''s_read'' @ u @ read_args (quoted name) off n 0) =
          (PRELIM @ fslice (file_byte b) off n @ COMPLETE, s') \<and>
        ready s' pres \<and> bytes s' = bytes s"
    and write_cmd: "ready s pres \<Longrightarrow> bytes s name = Some b \<Longrightarrow> cred_words pres ts u \<Longrightarrow>
      off < 4294967296 \<Longrightarrow> length data < 4294967296 \<Longrightarrow>
      \<exists>a s1 a2 s' b'. react s (''s_write'' @ u @ write_args (quoted name) off (length data) bs off2 ino) =
          (PRELIM @ a, s1) \<and> react s1 data = (a2, s') \<and> a @ a2 = COMPLETE \<and>
        ready s' pres \<and> bytes s' = (bytes s)(name := Some b') \<and>
        file_byte b' = patch (file_byte b) off data"

section \<open>Good states of the module\<close>

text \<open>
  The credentials leave room for the command behind them, and a task that sends them has at
  least one supplementary group.
\<close>

definition creds_ok :: "'f world \<Rightarrow> bool" where
  "creds_ok w \<longleftrightarrow> get_ugid w 3072 \<noteq> None \<and> (preserve_own w \<longrightarrow> cur_groups w \<noteq> [])"

definition plain_path :: "string \<Rightarrow> bool" where
  "plain_path name \<longleftrightarrow> NUL \<notin> set name \<and> QUOTE \<notin> set name \<and> length name < SHFS_PATH_MAX"

definition server_good ::
  "('f \<Rightarrow> string) \<Rightarrow> ('f \<Rightarrow> 's) \<Rightarrow> ('s \<Rightarrow> bool \<Rightarrow> bool) \<Rightarrow> ('s \<Rightarrow> string \<Rightarrow> string option)
    \<Rightarrow> 'f world \<Rightarrow> string \<Rightarrow> bool" where
  "server_good outq core ready bytes w name \<longleftrightarrow>
     (case sock w of None \<Rightarrow> False | Some f \<Rightarrow>
        conn_at outq core w (core f) [] \<and> ready (core f) (preserve_own w) \<and> bytes (core f) name \<noteq> None) \<and>
     \<not> shfs_mutex w \<and> plain_path name \<and> creds_ok w \<and> u32 (fcache_size w) \<noteq> 0"

definition server_content ::
  "('f \<Rightarrow> 's) \<Rightarrow> ('s \<Rightarrow> string \<Rightarrow> string option) \<Rightarrow> 'f world \<Rightarrow> string \<Rightarrow> nat \<Rightarrow> char" where
  "server_content core bytes w name =
     (case sock w of None \<Rightarrow> (\<lambda>_. NUL)
      | Some f \<Rightarrow> (case bytes (core f) name of None \<Rightarrow> (\<lambda>_. NUL) | Some b \<Rightarrow> file_byte b))"

lemma ugid_groups_mono: "ugid_groups r s gs = Some s' \<Longrightarrow> r \<le> r' \<Longrightarrow> ugid_groups r' s gs = Some s'"
  by (induction gs arbitrary: s) (auto simp: Let_def split: if_splits)

lemma get_ugid_mono: "get_ugid w r = Some u \<Longrightarrow> r \<le> r' \<Longrightarrow> get_ugid w r' = Some u"
  by (auto simp: get_ugid_def Let_def dest: ugid_groups_mono split: if_splits elim!: bind_SomeE)

lemma get_ugid_cong:
  "preserve_own w' = preserve_own w \<Longrightarrow> cur_uid w' = cur_uid w \<Longrightarrow> cur_groups w' = cur_groups w \<Longrightarrow>
    get_ugid w' r = get_ugid w r"
  by (simp add: get_ugid_def)

lemma creds_ok_cong:
  "preserve_own w' = preserve_own w \<Longrightarrow> cur_uid w' = cur_uid w \<Longrightarrow> cur_groups w' = cur_groups w \<Longrightarrow>
    creds_ok w' = creds_ok w"
  by (simp add: creds_ok_def get_ugid_cong [of w' w])

lemma creds_head:
  assumes "creds_ok w" and "length cmd \<le> 100"
  obtains u ts where "command_head w cmd = Some (cmd @ u)" "length u < 3072"
    "cred_words (preserve_own w) ts u"
proof -
  from assms(1) obtain u where u: "get_ugid w 3072 = Some u" by (auto simp: creds_ok_def)
  have pre: "preserve_own w \<Longrightarrow> cur_groups w \<noteq> []" using assms(1) by (simp add: creds_ok_def)
  have "get_ugid w (int SOCKBUF_SIZE - int (length cmd)) = Some u"
    by (rule get_ugid_mono [OF u]) (use assms(2) in simp)
  then have "command_head w cmd = Some (cmd @ u)" by (simp add: command_head_def)
  moreover have "length u < 3072" using get_ugid_fits [OF u] pre by fastforce
  moreover obtain ts where "cred_words (preserve_own w) ts u" using get_ugid_words [OF u pre] by blast
  ultimately show thesis by (rule that)
qed

lemma dec32_length: "n < 4294967296 \<Longrightarrow> length (dec n) \<le> 10"
  by (rule dec_length) simp_all

lemma dec64_length: "length (dec (u64 i)) \<le> 20"
proof (rule dec_length)
  have "u64 i < 18446744073709551616" by (simp add: u64_def nat_less_iff)
  then show "u64 i < 10 ^ 20" by simp
qed simp

lemma read_args_length:
  assumes "off < 4294967296" "n < 4294967296" "length file < SHFS_PATH_MAX"
  shows "length (read_args file off n 0) \<le> 600"
proof -
  obtain bs o2 c2 where b: "read_block off n = (bs, o2, c2)" "bs < 4294967296" "o2 < 4294967296" "c2 < 4294967296"
    using assms by (cases "read_block off n") (auto simp: read_block_def split: if_splits
        intro: le_less_trans [OF div_le_dividend])
  then show ?thesis
    using assms dec32_length [of off] dec32_length [of n] dec32_length [of bs] dec32_length [of o2]
      dec32_length [of c2] by (simp add: read_args_def quote1_def)
qed

lemma write_args_length:
  assumes "off < 4294967296" "n < 4294967296" "bs < 4294967296" "o2 < 4294967296" "length file < SHFS_PATH_MAX"
  shows "length (write_args file off n bs o2 ino) \<le> 600"
  using assms dec32_length [of off] dec32_length [of n] dec32_length [of bs] dec32_length [of o2]
    dec64_length [of "int ino"] by (simp add: write_args_def quote1_def)

lemma reply_lines: "reply ''### 100'' = REP_PRELIM" "reply ''### 200'' = REP_COMPLETE"
  by code_simp+

lemma line_100: "PRELIM @ x = ''### 100'' @ NL # x" by simp

lemma line_200: "COMPLETE = ''### 200'' @ NL # []" by simp

lemma locked_ok:
  assumes "\<not> shfs_mutex w" and "body (w\<lparr>shfs_mutex := True\<rparr>) = Some (r, a, w1)"
  shows "locked w x body = Some (r, a, sock_unlock w1)"
  using assms by (simp add: locked_def sock_lock_def)

text \<open>The world after the exchange: unlocked, and only the connection has moved.\<close>

lemma unlock_good:
  assumes w: "server_good outq core ready bytes w name"
    and w1: "same_but_conn (w\<lparr>shfs_mutex := True\<rparr>) w1" "conn_at outq core w1 s []"
    and s: "ready s (preserve_own w)" "bytes s name = Some b"
  shows "server_good outq core ready bytes (sock_unlock w1) name"
    and "server_content core bytes (sock_unlock w1) name = file_byte b"
    and "fcache_size (sock_unlock w1) = fcache_size w" "fcache_free (sock_unlock w1) = fcache_free w"
proof -
  from w1(2) obtain f where f: "sock w1 = Some f" "core f = s" by (auto simp: conn_at_def)
  note same = same_but_connD [OF w1(1)]
  show "server_content core bytes (sock_unlock w1) name = file_byte b"
    using f s by (simp add: server_content_def sock_unlock_def)
  show "fcache_size (sock_unlock w1) = fcache_size w" "fcache_free (sock_unlock w1) = fcache_free w"
    using same by (simp_all add: sock_unlock_def)
  have "creds_ok (sock_unlock w1)"
    using w same creds_ok_cong [of "sock_unlock w1" w] by (simp add: server_good_def sock_unlock_def)
  moreover have "conn_at outq core (sock_unlock w1) s []"
    using w1(2) by (simp add: conn_at_def sock_unlock_def)
  ultimately show "server_good outq core ready bytes (sock_unlock w1) name"
    using w f s same by (simp add: server_good_def) (simp add: sock_unlock_def)
qed

context file_server
begin

abbreviation "good \<equiv> server_good outq core ready bytes"
abbreviation "content \<equiv> server_content core bytes"

lemma answer:
  assumes "conn_at outq core w s (line @ NL # q)" and "line = ''### 100'' \<or> line = ''### 200''"
  shows "\<exists>w'. sock_readln so w buffer SOCKBUF_SIZE = Some (7, line, w') \<and> conn_at outq core w' s q \<and>
    same_but_conn w w'"
  using readln_ok [OF assms(1), of SOCKBUF_SIZE buffer] assms(2) by auto

lemma goodE:
  assumes "good w name"
  obtains f b where "sock w = Some f" "conn_at outq core (w\<lparr>shfs_mutex := True\<rparr>) (core f) []"
    "ready (core f) (preserve_own w)" "bytes (core f) name = Some b" "content w name = file_byte b"
    "\<not> shfs_mutex w" "check_path name = (True, name)" "quoted name = name" "length name < SHFS_PATH_MAX"
    "creds_ok (w\<lparr>shfs_mutex := True\<rparr>)" "u32 (fcache_size w) \<noteq> 0"
proof -
  from assms have p: "plain_path name" by (simp add: server_good_def)
  then have q: "quoted name = name" "NUL \<notin> set name" "length name < SHFS_PATH_MAX"
    by (simp_all add: plain_path_def quoted_id)
  from assms obtain f b where f: "sock w = Some f" "conn_at outq core w (core f) []"
    "ready (core f) (preserve_own w)" "bytes (core f) name = Some b"
    by (auto simp: server_good_def split: option.splits)
  have "creds_ok (w\<lparr>shfs_mutex := True\<rparr>)"
    using assms creds_ok_cong [of "w\<lparr>shfs_mutex := True\<rparr>" w] by (simp add: server_good_def)
  moreover have "conn_at outq core (w\<lparr>shfs_mutex := True\<rparr>) (core f) []"
    using f(2) by (simp add: conn_at_def)
  ultimately show thesis
    using assms f q check_path_ok [of name]
    by (intro that [of f b]) (auto simp: server_good_def server_content_def)
qed

lemma shell_read_ok:
  assumes w: "good w name" and n: "0 < n" "n < 2147483648" "off + n < 4294967296"
  shows "\<exists>w'. shell_read so w name off n 0 = Some (int n, name, fslice (content w name) off n, w') \<and>
    content w' name = content w name \<and> good w' name \<and> fcache_size w' = fcache_size w \<and>
    fcache_free w' = fcache_free w"
proof -
  obtain f b where f: "sock w = Some f" "conn_at outq core (w\<lparr>shfs_mutex := True\<rparr>) (core f) []"
    "ready (core f) (preserve_own w)" "bytes (core f) name = Some b" "content w name = file_byte b"
    "\<not> shfs_mutex w" "check_path name = (True, name)" "quoted name = name" "length name < SHFS_PATH_MAX"
    "creds_ok (w\<lparr>shfs_mutex := True\<rparr>)"
    using goodE [OF w] by blast
  let ?w = "w\<lparr>shfs_mutex := True\<rparr>" and ?data = "fslice (file_byte b) off n"
  obtain u ts where u: "command_head ?w ''s_read'' = Some (''s_read'' @ u)" "length u < 3072"
    "cred_words (preserve_own w) ts u"
    using creds_head [OF f(10), of "''s_read''"] by auto
  let ?cmd = "(''s_read'' @ u) @ read_args name off n 0"
  have cmd: "(''s_read'' @ u) @ take (room (''s_read'' @ u)) (read_args name off n 0) = ?cmd"
    using read_args_length [of off n name] n u(2) f(9) by (simp add: room_def)
  obtain s' where s': "react (core f) ?cmd = (PRELIM @ ?data @ COMPLETE, s')"
    "ready s' (preserve_own w)" "bytes s' = bytes (core f)"
    using read_cmd [OF f(3,4) u(3), of off n] n by (auto simp: f(8))
  obtain w1 where w1: "sock_write so ?w ?cmd = Some (int (length ?cmd), w1)"
    "conn_at outq core w1 s' (''### 100'' @ NL # ?data @ COMPLETE)" "same_but_conn ?w w1"
    using write_ok [OF f(2) s'(1)] by auto
  obtain w2 where w2: "sock_readln so w1 ?cmd SOCKBUF_SIZE = Some (7, ''### 100'', w2)"
    "conn_at outq core w2 s' (?data @ COMPLETE)" "same_but_conn w1 w2"
    using answer [OF w1(2), of ?cmd] by auto
  obtain w3 where w3: "sock_read so w2 n = Some (int n, ?data, w3)"
    "conn_at outq core w3 s' (''### 200'' @ NL # [])" "same_but_conn w2 w3"
    using read_ok [OF w2(2)] by auto
  obtain w4 where w4: "sock_readln so w3 ''### 100'' SOCKBUF_SIZE = Some (7, ''### 200'', w4)"
    "conn_at outq core w4 s' []" "same_but_conn w3 w4"
    using answer [OF w3(2)] by auto
  have rd: "read_data so w2 ''### 100'' n = Some (int n, ?data, w4)"
    using n by (simp add: read_data_def w3(1) w4(1) reply_lines)
  have "shell_read so w name off n 0 = Some (int n, name, ?data, sock_unlock w4)"
    unfolding shell_read_def f(7) prod.case
    by (simp add: locked_ok [OF f(6)] u(1) cmd [simplified] w1(1) [simplified] w2(1) [simplified]
        rd reply_lines)
  moreover have "same_but_conn ?w w4"
    using w1(3) w2(3) w3(3) w4(3) same_but_conn_trans by blast
  note unlock_good [OF w this w4(2) s'(2), of b]
  ultimately show ?thesis using f(4,5) s'(3) by auto
qed

end

context file_server
begin

lemma shell_write_ok:
  assumes w: "good w name" and n: "n \<le> length buf" "n < 2147483648" "off + n < 4294967296"
  shows "\<exists>w'. shell_write so w name off n buf ino = Some (int n, name, w') \<and>
    content w' name = patch (content w name) off (take n buf) \<and> good w' name \<and>
    fcache_size w' = fcache_size w \<and> fcache_free w' = fcache_free w"
proof -
  obtain f b where f: "sock w = Some f" "conn_at outq core (w\<lparr>shfs_mutex := True\<rparr>) (core f) []"
    "ready (core f) (preserve_own w)" "bytes (core f) name = Some b" "content w name = file_byte b"
    "\<not> shfs_mutex w" "check_path name = (True, name)" "quoted name = name" "length name < SHFS_PATH_MAX"
    "creds_ok (w\<lparr>shfs_mutex := True\<rparr>)" "u32 (fcache_size w) \<noteq> 0"
    using goodE [OF w] by blast
  let ?w = "w\<lparr>shfs_mutex := True\<rparr>" and ?data = "take n buf" and ?S = "u32 (fcache_size w)"
  have len: "length ?data = n" using n(1) by simp
  obtain o2 bs where ob: "(if off mod ?S = 0 then (off div ?S, ?S) else (off, 1)) = (o2, bs)"
    by fastforce
  have obl: "o2 < 4294967296" "bs < 4294967296"
    using ob n u32_lt [of "fcache_size w"] le_less_trans [OF div_le_dividend [of off ?S]]
    by (auto split: if_splits)
  obtain u ts where u: "command_head ?w ''s_write'' = Some (''s_write'' @ u)" "length u < 3072"
    "cred_words (preserve_own w) ts u"
    using creds_head [OF f(10), of "''s_write''"] by auto
  let ?args = "write_args name off n bs o2 ino"
  let ?cmd = "(''s_write'' @ u) @ ?args"
  have cmd: "(''s_write'' @ u) @ take (room (''s_write'' @ u)) ?args = ?cmd"
    using write_args_length [of off n bs o2 name ino] n obl u(2) f(9) by (simp add: room_def)
  obtain a s1 a2 s' b' where s': "react (core f) ?cmd = (PRELIM @ a, s1)"
    "react s1 ?data = (a2, s')" "a @ a2 = COMPLETE" "ready s' (preserve_own w)"
    "bytes s' = (bytes (core f))(name := Some b')" "file_byte b' = patch (file_byte b) off ?data"
    using write_cmd [OF f(3,4) u(3), of off ?data bs o2 ino] n unfolding f(8) len by auto
  obtain w1 where w1: "sock_write so ?w ?cmd = Some (int (length ?cmd), w1)"
    "conn_at outq core w1 s1 (''### 100'' @ NL # a)" "same_but_conn ?w w1"
    using write_ok [OF f(2) s'(1)] by auto
  obtain w2 where w2: "sock_readln so w1 ?cmd SOCKBUF_SIZE = Some (7, ''### 100'', w2)"
    "conn_at outq core w2 s1 a" "same_but_conn w1 w2"
    using answer [OF w1(2), of ?cmd] by auto
  obtain w3 where w3: "sock_write so w2 ?data = Some (int (length ?data), w3)"
    "conn_at outq core w3 s' (''### 200'' @ NL # [])" "same_but_conn w2 w3"
    using write_ok [OF w2(2) s'(2)] s'(3) by auto
  obtain w4 where w4: "sock_readln so w3 ''### 100'' SOCKBUF_SIZE = Some (7, ''### 200'', w4)"
    "conn_at outq core w4 s' []" "same_but_conn w3 w4"
    using answer [OF w3(2)] by auto
  have wd: "write_data so w2 ''### 100'' ?data = Some (int n, w4)"
    using n len by (simp only: write_data_def w3(1) w4(1) Option.bind.bind_lunit prod.case)
      (simp add: reply_lines)
  have "shell_write so w name off n buf ino = Some (int n, name, sock_unlock w4)"
    unfolding shell_write_def f(7) prod.case
    using f(11) by (simp add: Let_def ob locked_ok [OF f(6)] u(1) cmd [simplified] w1(1) [simplified]
        w2(1) [simplified] wd reply_lines)
  moreover have "same_but_conn ?w w4"
    using w1(3) w2(3) w3(3) w4(3) same_but_conn_trans by blast
  note unlock_good [OF w this w4(2) s'(4), of b']
  ultimately show ?thesis using f(4,5) s'(5,6) by auto
qed

end

text \<open>So \<open>shell.c\<close> over such a server is a remote side as the file cache needs it.\<close>

sublocale file_server \<subseteq> remote: remote_file "shell_fops so mktime" "server_content core bytes"
    "server_good outq core ready bytes" for mktime
proof
  fix w name and n off :: nat
  assume "good w name" "0 < n" "n < 2147483648" "off + n < 4294967296"
  from shell_read_ok [OF this]
  show "\<exists>w'. op_read (shell_fops so mktime) w name off n 0 =
      Some (int n, name, fslice (content w name) off n, w') \<and> content w' name = content w name \<and>
      good w' name \<and> fcache_size w' = fcache_size w \<and> fcache_free w' = fcache_free w"
    by (simp add: shell_fops_def)
next
  fix w name and n off ino :: nat and data :: string
  assume "good w name" "n \<le> length data" "n < 2147483648" "off + n < 4294967296"
  from shell_write_ok [OF this]
  show "\<exists>w'. op_write (shell_fops so mktime) w name off n data ino = Some (int n, name, w') \<and>
      content w' name = patch (content w name) off (take n data) \<and> good w' name \<and>
      fcache_size w' = fcache_size w \<and> fcache_free w' = fcache_free w"
    by (simp add: shell_fops_def)
next
  fix w :: "'f world" and k name
  have "get_ugid (w\<lparr>fcache_free := k\<rparr>) r = get_ugid w r" for r by (rule get_ugid_cong) simp_all
  then have "creds_ok (w\<lparr>fcache_free := k\<rparr>) = creds_ok w" by (simp add: creds_ok_def)
  moreover have "conn_at outq core (w\<lparr>fcache_free := k\<rparr>) s q = conn_at outq core w s q" for s q
    by (simp add: conn_at_def)
  ultimately show "good (w\<lparr>fcache_free := k\<rparr>) name = good w name"
    by (cases "sock w") (simp_all add: server_good_def)
  show "content (w\<lparr>fcache_free := k\<rparr>) = content w"
    by (rule ext) (simp add: server_content_def)
qed

section \<open>Paths that do not fit\<close>


end
