(* ===== verification/PerlServer.thy ===== *)
theory PerlServer
  imports World
begin

text \<open>
  The server side the module talks to: the Perl script of \<open>tool/perl-code.in\<close>, as a machine
  that is fed one character at a time. The line parser \<open>getline\<close> and the commands that work on
  plain files are modelled; the file system of the remote host is a map from paths to bytes, in
  which every file may be read and written. The commands that call the remote host in other ways
  are the parameter \<open>other\<close>; \<open>PerlHost\<close> defines it.
\<close>

section \<open>Parsing a command line\<close>

text \<open>
  The variables of \<open>getline\<close>: the state, the word so far, the words done. A step answers the
  words when the line is complete (\<open>Inr\<close>).
\<close>

record gl =
  gl_state :: nat
  gl_str :: string
  gl_args :: "string list"

definition gl_start :: gl where
  "gl_start = \<lparr>gl_state = 0, gl_str = [], gl_args = []\<rparr>"

definition getline_step :: "gl \<Rightarrow> char \<Rightarrow> gl + string list" where
  "getline_step g c =
    (let push = gl_args g @ [gl_str g];
         next_word = Inl \<lparr>gl_state = 0, gl_str = [], gl_args = push\<rparr>;
         keep = Inl (g\<lparr>gl_str := gl_str g @ [c]\<rparr>)
     in if gl_state g = 0 then
          (if c = NL then Inr (gl_args g)
           else if c = QUOTE then Inl (g\<lparr>gl_state := 2\<rparr>)
           else if c \<noteq> SP then Inl (g\<lparr>gl_str := [c], gl_state := 1\<rparr>)
           else Inl g)
        else if gl_state g = 1 then
          (if c = NL then Inr push else if c = SP then next_word else keep)
        else if gl_state g = 2 then
          (if c = QUOTE then Inl (g\<lparr>gl_state := 3\<rparr>) else keep)
        else if gl_state g = 3 then
          (if c = NL then Inr push else if c = SP then next_word
           else if c = QUOTE then Inl (g\<lparr>gl_state := 2\<rparr>)
           else if c = BSLASH then Inl (g\<lparr>gl_state := 4\<rparr>)
           else Inl g)
        else
          (if c = NL then Inr push else if c = SP then next_word
           else if c = QUOTE then Inl (g\<lparr>gl_str := gl_str g @ [c], gl_state := 0\<rparr>)
           else Inl g))"

section \<open>The commands\<close>

text \<open>
  The server waits for a command line, or, inside \<open>s_write\<close>, for the bytes of a file
  (\<open>p_data\<close>: the path, the offset, the size, and what has come). \<open>p_home\<close> is \<open>$ENV{HOME}\<close>.
\<close>

record perl =
  p_gl :: gl
  p_data :: "(string \<times> nat \<times> nat \<times> string) option"
  p_root :: string
  p_preserve :: bool
  p_files :: "string \<Rightarrow> string option"
  p_home :: string
  p_stable :: bool

text \<open>\<open>shift\<close> and \<open>$$args[k]\<close>; an undefined value is the empty string.\<close>

definition arg :: "string list \<Rightarrow> nat \<Rightarrow> string" where
  "arg args k = (if k < length args then args ! k else [])"

text \<open>Bytes of a file at an offset, padded, and written there; a write past the end leaves NULs.\<close>

definition read_at :: "string \<Rightarrow> nat \<Rightarrow> nat \<Rightarrow> string" where
  "read_at b off n = take n (drop off b)"

definition write_at :: "string \<Rightarrow> nat \<Rightarrow> string \<Rightarrow> string" where
  "write_at b off bs = (if bs = [] then b
     else take off (b @ replicate (off - length b) NUL) @ bs @ drop (off + length bs) b)"

text \<open>\<open>s_init\<close>: the root and the options of the mount, up to a word that Perl takes for false.\<close>

definition s_init :: "perl \<Rightarrow> string list \<Rightarrow> string \<times> perl" where
  "s_init p args =
    (let ws = takeWhile (\<lambda>s. s \<noteq> [] \<and> s \<noteq> ''0'') (drop 1 args)
     in (COMPLETE, p\<lparr>p_root := (if arg args 0 = [] then p_home p else arg args 0),
           p_stable := (p_stable p \<or> ''stable'' \<in> set ws), p_preserve := (p_preserve p \<or> ''preserve'' \<in> set ws)\<rparr>))"

definition s_finish :: "perl \<Rightarrow> string \<times> perl" where
  "s_finish p = (COMPLETE, p)"

definition s_read :: "perl \<Rightarrow> string list \<Rightarrow> string" where
  "s_read p args =
    (case p_files p (p_root p @ arg args 0) of
       None \<Rightarrow> COMPLETE
     | Some b \<Rightarrow> let n = strtoul (arg args 2); bs = read_at b (strtoul (arg args 1)) n
         in PRELIM @ bs @ replicate (n - length bs) NUL @ COMPLETE)"

definition s_sread :: "perl \<Rightarrow> string list \<Rightarrow> string" where
  "s_sread p args =
    (case p_files p (p_root p @ arg args 0) of
       None \<Rightarrow> COMPLETE
     | Some b \<Rightarrow> let bs = read_at b (strtoul (arg args 1)) (strtoul (arg args 2))
         in PRELIM @ dec (length bs) @ bs @ COMPLETE)"

text \<open>\<open>s_write\<close>: up to the bytes, and when they are there.\<close>

definition s_write_end :: "perl \<Rightarrow> string \<Rightarrow> nat \<Rightarrow> string \<Rightarrow> string \<times> perl" where
  "s_write_end p path off data =
    (COMPLETE, p\<lparr>p_data := None,
       p_files := (p_files p)(path := map_option (\<lambda>b. write_at b off data) (p_files p path))\<rparr>)"

definition s_write :: "perl \<Rightarrow> string list \<Rightarrow> string \<times> perl" where
  "s_write p args =
    (let path = p_root p @ arg args 0 in
     case p_files p path of
       None \<Rightarrow> (COMPLETE, p)
     | Some b \<Rightarrow>
        if strtoul (arg args 2) = 0 then
          (case s_write_end p path (strtoul (arg args 1)) [] of (out, p1) \<Rightarrow> (PRELIM @ out, p1))
        else (PRELIM, p\<lparr>p_data := Some (path, strtoul (arg args 1), strtoul (arg args 2), [])\<rparr>))"

definition s_open :: "perl \<Rightarrow> string list \<Rightarrow> string" where
  "s_open p args = (case p_files p (p_root p @ arg args 0) of None \<Rightarrow> PERL_ENOENT | Some b \<Rightarrow> COMPLETE)"

definition s_rm :: "perl \<Rightarrow> string list \<Rightarrow> string \<times> perl" where
  "s_rm p args =
    (let path = p_root p @ arg args 0 in
     case p_files p path of None \<Rightarrow> (PERL_ENOENT, p)
     | Some b \<Rightarrow> (COMPLETE, p\<lparr>p_files := (p_files p)(path := None)\<rparr>))"

definition s_mv :: "perl \<Rightarrow> string list \<Rightarrow> string \<times> perl" where
  "s_mv p args =
    (let path1 = p_root p @ arg args 0; path2 = p_root p @ arg args 1 in
     case p_files p path1 of None \<Rightarrow> (PERL_ENOENT, p)
     | Some b \<Rightarrow> (COMPLETE, p\<lparr>p_files := (p_files p)(path1 := None, path2 := Some b)\<rparr>))"

definition s_creat :: "perl \<Rightarrow> string list \<Rightarrow> string \<times> perl" where
  "s_creat p args = (COMPLETE, p\<lparr>p_files := (p_files p)(p_root p @ arg args 0 := Some [])\<rparr>)"

definition s_trunc :: "perl \<Rightarrow> string list \<Rightarrow> string \<times> perl" where
  "s_trunc p args =
    (let path = p_root p @ arg args 0; n = strtoul (arg args 1) in
     case p_files p path of None \<Rightarrow> (PERL_EPERM, p)
     | Some b \<Rightarrow> (COMPLETE, p\<lparr>p_files := (p_files p)(path := Some (take n b @ replicate (n - length b) NUL))\<rparr>))"

definition s_ping :: "string list \<Rightarrow> string" where
  "s_ping args = PRELIM @ arg args 0 @ [NL] @ NOP"

text \<open>
  The main loop's body for the words of one line. With \<open>$PRESERVE\<close> two words of credentials
  follow the command; the effective ids they set have no effect on the files of the model.
\<close>

definition perl_command ::
  "(string list \<Rightarrow> perl \<Rightarrow> string \<times> perl) \<Rightarrow> perl \<Rightarrow> string list \<Rightarrow> string \<times> perl" where
  "perl_command other p words =
    (case words of [] \<Rightarrow> ([], p)
     | cmd # args0 \<Rightarrow>
        (let args = (if p_preserve p then drop 2 args0 else args0) in
         if cmd = ''s_init'' then s_init p args
         else if cmd = ''s_finish'' then s_finish p
         else if cmd = ''s_open'' then (s_open p args, p)
         else if cmd = ''s_read'' then (s_read p args, p)
         else if cmd = ''s_sread'' then (s_sread p args, p)
         else if cmd = ''s_write'' then s_write p args
         else if cmd = ''s_mv'' then s_mv p args
         else if cmd = ''s_rm'' then s_rm p args
         else if cmd = ''s_creat'' then s_creat p args
         else if cmd = ''s_trunc'' then s_trunc p args
         else if cmd = ''s_ping'' then (s_ping args, p)
         else other (cmd # args) p))"

section \<open>The machine and its connection\<close>

definition perl_char ::
  "(string list \<Rightarrow> perl \<Rightarrow> string \<times> perl) \<Rightarrow> perl \<Rightarrow> char \<Rightarrow> string \<times> perl" where
  "perl_char other p c =
    (case p_data p of
       Some (path, off, n, data) \<Rightarrow>
         (if length data + 1 < n then ([], p\<lparr>p_data := Some (path, off, n, data @ [c])\<rparr>)
          else s_write_end p path off (data @ [c]))
     | None \<Rightarrow>
         (case getline_step (p_gl p) c of
            Inl g \<Rightarrow> ([], p\<lparr>p_gl := g\<rparr>)
          | Inr words \<Rightarrow> perl_command other (p\<lparr>p_gl := gl_start\<rparr>) words))"

fun perl_react ::
  "(string list \<Rightarrow> perl \<Rightarrow> string \<times> perl) \<Rightarrow> perl \<Rightarrow> string \<Rightarrow> string \<times> perl" where
  "perl_react other p [] = ([], p)"
| "perl_react other p (c # cs) =
    (case perl_char other p c of (out1, p1) \<Rightarrow>
     case perl_react other p1 cs of (out2, p2) \<Rightarrow> (out1 @ out2, p2))"

text \<open>
  The socket with this server behind it: what is written is processed at once, what the server
  prints waits to be read. A read with nothing waiting sleeps until the task is killed, which
  the kernel reports as \<open>-ERESTARTSYS\<close> (512).
\<close>

record perl_conn =
  pc_out :: string
  pc_peer :: perl
  pc_pos :: int

definition perl_so :: "(string list \<Rightarrow> perl \<Rightarrow> string \<times> perl) \<Rightarrow> perl_conn sockops" where
  "perl_so other =
    \<lparr>do_sync_write = (\<lambda>f bs. case perl_react other (pc_peer f) bs of (out, p) \<Rightarrow>
        (int (length bs), False,
         f\<lparr>pc_out := pc_out f @ out, pc_peer := p, pc_pos := pc_pos f + int (length bs)\<rparr>)),
     do_sync_read = (\<lambda>f n. if pc_out f = [] then (- 512, [], f)
        else let bs = take n (pc_out f) in
          (int (length bs), bs,
           f\<lparr>pc_out := drop n (pc_out f), pc_pos := pc_pos f + int (length bs)\<rparr>)),
     f_pos = pc_pos\<rparr>"

end
