(* ===== verification/PerlSpec.thy ===== *)
theory PerlSpec
  imports PerlServer Protocol
begin

text \<open>
  The server's line parser reads back the words the module spelt, and its file commands read and
  write the bytes of the files.
\<close>

section \<open>The parser\<close>

definition gl_at :: "string list \<Rightarrow> gl" where
  "gl_at args = \<lparr>gl_state = 0, gl_str = [], gl_args = args\<rparr>"

fun gl_feed :: "gl \<Rightarrow> string \<Rightarrow> gl option" where
  "gl_feed g [] = Some g"
| "gl_feed g (c # cs) = (case getline_step g c of Inl g1 \<Rightarrow> gl_feed g1 cs | Inr _ \<Rightarrow> None)"

lemma gl_feed_append: "gl_feed g (s @ r) = (case gl_feed g s of None \<Rightarrow> None | Some g1 \<Rightarrow> gl_feed g1 r)"
  by (induction s arbitrary: g) (auto split: sum.splits)

lemma feed_plain:
  "\<forall>c\<in>set w. c \<noteq> SP \<and> c \<noteq> NL \<and> c \<noteq> QUOTE \<Longrightarrow>
    gl_feed \<lparr>gl_state = 1, gl_str = s, gl_args = args\<rparr> w =
      Some \<lparr>gl_state = 1, gl_str = s @ w, gl_args = args\<rparr>"
  by (induction w arbitrary: s) (auto simp: getline_step_def Let_def)

lemma feed_quoted:
  "gl_feed \<lparr>gl_state = 2, gl_str = s, gl_args = args\<rparr> (quoted w) =
    Some \<lparr>gl_state = 2, gl_str = s @ w, gl_args = args\<rparr>"
  by (induction w arbitrary: s) (auto simp: getline_step_def Let_def quote_char_def)

text \<open>A word, up to what ends it.\<close>

lemma feed_word:
  assumes "spells t w"
  shows "\<exists>k. (k = 1 \<or> k = 3) \<and> gl_feed (gl_at args) t = Some \<lparr>gl_state = k, gl_str = w, gl_args = args\<rparr>"
  using assms unfolding spells_def
proof (elim disjE conjE)
  assume "t = w" "w \<noteq> []" "\<forall>c\<in>set w. c \<noteq> SP \<and> c \<noteq> NL \<and> c \<noteq> QUOTE"
  then obtain c w' where w: "w = c # w'" "c \<noteq> SP" "c \<noteq> NL" "c \<noteq> QUOTE"
      "\<forall>c\<in>set w'. c \<noteq> SP \<and> c \<noteq> NL \<and> c \<noteq> QUOTE"
    by (cases w) auto
  have "getline_step (gl_at args) c = Inl \<lparr>gl_state = 1, gl_str = [c], gl_args = args\<rparr>"
    using w by (simp add: getline_step_def gl_at_def)
  then have "gl_feed (gl_at args) w = Some \<lparr>gl_state = 1, gl_str = w, gl_args = args\<rparr>"
    using feed_plain [OF w(5), of "[c]" args] by (simp add: w(1))
  with \<open>t = w\<close> show ?thesis by blast
next
  assume "t = [QUOTE] @ quoted w @ [QUOTE]"
  moreover have "getline_step (gl_at args) QUOTE = Inl \<lparr>gl_state = 2, gl_str = [], gl_args = args\<rparr>"
    by (simp add: getline_step_def gl_at_def)
  moreover have "getline_step \<lparr>gl_state = 2, gl_str = w, gl_args = args\<rparr> QUOTE =
      Inl \<lparr>gl_state = 3, gl_str = w, gl_args = args\<rparr>"
    by (simp add: getline_step_def)
  ultimately show ?thesis
    by (intro exI [of _ 3]) (simp add: gl_feed_append feed_quoted)
qed

lemma getline_words:
  assumes "list_all2 spells ts ws" and "ts \<noteq> []"
  shows "\<exists>g. gl_feed (gl_at args) (line_text ts) = Some g \<and> getline_step g NL = Inr (args @ ws)"
  using assms
proof (induction ts arbitrary: ws args)
  case (Cons t ts)
  from Cons.prems(1) obtain w ws' where w: "ws = w # ws'" "spells t w" "list_all2 spells ts ws'"
    by (cases ws) auto
  from feed_word [OF w(2), of args] obtain k where
    k: "k = 1 \<or> k = 3" "gl_feed (gl_at args) t = Some \<lparr>gl_state = k, gl_str = w, gl_args = args\<rparr>"
    by blast
  show ?case
  proof (cases "ts = []")
    case True
    with w k show ?thesis by (auto simp: getline_step_def Let_def)
  next
    case False
    have "gl_feed (gl_at args) (line_text (t # ts)) = gl_feed (gl_at (args @ [w])) (line_text ts)"
      using False k by (auto simp: line_text_Cons gl_feed_append getline_step_def Let_def gl_at_def)
    with Cons.IH [OF w(3) False, of "args @ [w]"] w(1) show ?thesis by simp
  qed
qed simp

section \<open>The machine\<close>

lemma perl_react_append:
  "perl_react other p (s @ r) =
    (case perl_react other p s of (out1, p1) \<Rightarrow>
     case perl_react other p1 r of (out2, p2) \<Rightarrow> (out1 @ out2, p2))"
  by (induction s arbitrary: p) (auto split: prod.splits)

lemma react_feed:
  assumes "p_data p = None" and "gl_feed (p_gl p) s = Some g"
  shows "perl_react other p s = ([], p\<lparr>p_gl := g\<rparr>)"
  using assms
  by (induction s arbitrary: p) (auto simp: perl_char_def split: sum.splits)

text \<open>\<open>perl_idle\<close>: the server waits for a command.\<close>

definition perl_idle :: "perl \<Rightarrow> bool" where
  "perl_idle p \<longleftrightarrow> p_data p = None \<and> p_gl p = gl_start"

lemma react_line:
  assumes "perl_idle p" and "list_all2 spells ts ws" and "ts \<noteq> []"
  shows "perl_react other p (line_text ts @ [NL]) = perl_command other p ws"
proof -
  have start: "p_gl p = gl_at []" "p_data p = None" "p\<lparr>p_gl := gl_start\<rparr> = p"
    using assms(1) by (simp_all add: perl_idle_def gl_start_def gl_at_def)
  from getline_words [OF assms(2,3), of "[]"] obtain g where
    g: "gl_feed (p_gl p) (line_text ts) = Some g" "getline_step g NL = Inr ws"
    by (auto simp: start)
  show ?thesis
    using start(2,3) by (simp add: perl_react_append react_feed [OF start(2) g(1)] perl_char_def g(2)
        split: prod.splits)
qed

text \<open>The bytes of \<open>s_write\<close>, once they are all there, go into the file.\<close>

lemma react_data:
  assumes "p_data p = Some (path, off, n, data)" and "length data + length bs = n" and "bs \<noteq> []"
  shows "perl_react other p bs = s_write_end p path off (data @ bs)"
  using assms
proof (induction bs arbitrary: p data)
  case (Cons c bs)
  show ?case
  proof (cases "bs = []")
    case True
    with Cons.prems show ?thesis by (simp add: perl_char_def split: prod.splits)
  next
    case False
    let ?p = "p\<lparr>p_data := Some (path, off, n, data @ [c])\<rparr>"
    have "perl_char other p c = ([], ?p)" using Cons.prems False
      by (cases bs) (simp_all add: perl_char_def)
    moreover have "perl_react other ?p bs = s_write_end ?p path off ((data @ [c]) @ bs)"
      by (rule Cons.IH) (use Cons.prems False in simp_all)
    moreover have "s_write_end ?p path off d = s_write_end p path off d" for d
      by (simp add: s_write_end_def)
    ultimately show ?thesis by simp
  qed
qed simp

section \<open>The round trip of a command line\<close>

text \<open>
  C25: Whatever words the client spells, plain or quoted, the server's parser reads the same words
  back, and not before the newline.
\<close>

theorem line_round_trip:
  assumes "list_all2 spells ts ws" and "ts \<noteq> []"
  shows "\<exists>g. gl_feed gl_start (line_text ts) = Some g \<and> getline_step g NL = Inr ws"
  using getline_words [OF assms, of "[]"] by (simp add: gl_start_def gl_at_def)

end
