(* ===== verification/EndToEnd.thy ===== *)
theory EndToEnd
  imports FileServer PerlSpec
begin

text \<open>
  The module over the Perl server: the server fulfils the contracts of the client's layers, so
  the file cache over \<open>shell_fops\<close> over the socket over the server reads and writes the bytes of
  the remote file.
\<close>

section \<open>The server keeps the file protocol\<close>

definition perl_ready :: "perl \<Rightarrow> bool \<Rightarrow> bool" where
  "perl_ready p pres \<longleftrightarrow> perl_idle p \<and> p_preserve p = pres"

definition perl_bytes :: "perl \<Rightarrow> string \<Rightarrow> string option" where
  "perl_bytes p name = p_files p (p_root p @ name)"

text \<open>A command with its credentials, as the words it is parsed to.\<close>

lemma command_words:
  assumes "perl_ready p pres" and "cred_words pres ts u" and "list_all2 spells ats ws" and "ats \<noteq> []"
    and "spells cmd cmd"
  obtains cws where "length cws = (if p_preserve p then 2 else 0)"
    and "perl_react other p (cmd @ u @ line_text ats @ [NL]) = perl_command other p (cmd # cws @ ws)"
proof -
  from assms(2) obtain cws where c: "u = [SP] @ concat (map (\<lambda>t. t @ [SP]) ts)"
    "length ts = (if pres then 2 else 0)" "list_all2 spells ts cws"
    by (auto simp: cred_words_def)
  have line: "cmd @ u @ line_text ats @ [NL] = line_text (cmd # ts @ ats) @ [NL]"
    using assms(4) by (simp add: c(1) line_text_Cons line_text_append)
  have "list_all2 spells (cmd # ts @ ats) (cmd # cws @ ws)"
    using assms(3,5) c(3) by (simp add: list_all2_appendI)
  with react_line [of p "cmd # ts @ ats"] assms(1) have
    "perl_react other p (cmd @ u @ line_text ats @ [NL]) = perl_command other p (cmd # cws @ ws)"
    unfolding line by (simp add: perl_ready_def)
  moreover have "length cws = (if p_preserve p then 2 else 0)"
    using c(2) list_all2_lengthD [OF c(3)] assms(1) by (simp add: perl_ready_def)
  ultimately show thesis using that by blast
qed

lemma strtoul_dec32 [simp]: "n < 4294967296 \<Longrightarrow> strtoul (dec n) = n"
  using strtoul_dec(1) [of n "[]"] by simp

lemma perl_read_cmd:
  assumes "perl_ready p pres" and "perl_bytes p name = Some b" and "cred_words pres ts u"
    and "off < 4294967296" and "n < 4294967296"
  shows "perl_react other p (''s_read'' @ u @ read_args (quoted name) off n 0) =
    (PRELIM @ fslice (file_byte b) off n @ COMPLETE, p)"
proof -
  obtain bs o2 c2 where b: "read_block off n = (bs, o2, c2)" by (cases "read_block off n")
  let ?ats = "[QUOTE # quoted name @ [QUOTE], dec off, dec n, dec bs, dec o2, dec c2]"
  let ?ws = "[name, dec off, dec n, dec bs, dec o2, dec c2]"
  have args: "read_args (quoted name) off n 0 = line_text ?ats @ [NL]"
    by (simp add: read_args_def b quote1_def)
  have "list_all2 spells ?ats ?ws" by simp
  moreover have "spells ''s_read'' ''s_read''" by (simp add: spells_def)
  ultimately obtain cws where cws: "length cws = (if p_preserve p then 2 else 0)"
    "perl_react other p (''s_read'' @ u @ line_text ?ats @ [NL]) = perl_command other p (''s_read'' # cws @ ?ws)"
    using command_words [OF assms(1,3), of ?ats ?ws "''s_read''" other] by blast
  have ws: "(if p_preserve p then drop 2 (cws @ ?ws) else cws @ ?ws) = ?ws"
    using cws(1) by (simp split: if_splits)
  have "perl_command other p (''s_read'' # cws @ ?ws) = (s_read p ?ws, p)"
    unfolding perl_command_def list.case Let_def ws by simp
  also have "s_read p ?ws = PRELIM @ fslice (file_byte b) off n @ COMPLETE"
    using assms(2,4,5) unfolding file_byte_slice
    by (simp add: s_read_def perl_bytes_def arg_def read_at_def Let_def)
  finally show ?thesis unfolding args cws(2) .
qed

lemma file_byte_write_at: "file_byte (write_at b off bs) = patch (file_byte b) off bs"
proof (rule ext)
  fix i
  show "file_byte (write_at b off bs) i = patch (file_byte b) off bs i"
    by (cases "i < off") (auto simp: file_byte_def write_at_def patch_def nth_append min_def)
qed

lemma perl_write_cmd:
  assumes "perl_ready p pres" and "perl_bytes p name = Some b" and "cred_words pres ts u"
    and "off < 4294967296" and "length data < 4294967296"
  shows "\<exists>a p1 a2 p' b'. perl_react other p (''s_write'' @ u @ write_args (quoted name) off (length data) bs off2 ino) =
      (PRELIM @ a, p1) \<and> perl_react other p1 data = (a2, p') \<and> a @ a2 = COMPLETE \<and>
    perl_ready p' pres \<and> perl_bytes p' = (perl_bytes p)(name := Some b') \<and>
    file_byte b' = patch (file_byte b) off data"
proof -
  let ?d = "dec (u64 (int ino))"
  let ?ats = "[QUOTE # quoted name @ [QUOTE], dec off, dec (length data), dec bs, dec off2, ?d]"
  let ?ws = "[name, dec off, dec (length data), dec bs, dec off2, ?d]"
  let ?path = "p_root p @ name"
  have args: "write_args (quoted name) off (length data) bs off2 ino = line_text ?ats @ [NL]"
    by (simp add: write_args_def quote1_def)
  have "list_all2 spells ?ats ?ws" by simp
  moreover have "spells ''s_write'' ''s_write''" by (simp add: spells_def)
  ultimately obtain cws where cws: "length cws = (if p_preserve p then 2 else 0)"
    "perl_react other p (''s_write'' @ u @ line_text ?ats @ [NL]) = perl_command other p (''s_write'' # cws @ ?ws)"
    using command_words [OF assms(1,3), of ?ats ?ws "''s_write''" other] by blast
  have ws: "(if p_preserve p then drop 2 (cws @ ?ws) else cws @ ?ws) = ?ws"
    using cws(1) by (simp split: if_splits)
  have cmd: "perl_command other p (''s_write'' # cws @ ?ws) = s_write p ?ws"
    unfolding perl_command_def list.case Let_def ws by simp
  define p' where "p' = p\<lparr>p_data := None, p_files := (p_files p)(?path := Some (write_at b off data))\<rparr>"
  have fl: "p_files p ?path = Some b" using assms(2) by (simp add: perl_bytes_def)
  have p': "perl_ready p' pres" "perl_bytes p' = (perl_bytes p)(name := Some (write_at b off data))"
    using assms(1) by (auto simp: p'_def perl_ready_def perl_idle_def perl_bytes_def fun_eq_iff)
  show ?thesis
  proof (cases "data = []")
    case True
    have "s_write p ?ws = (PRELIM @ COMPLETE, p')"
      using fl assms(4) by (simp add: s_write_def arg_def Let_def True s_write_end_def p'_def)
    moreover have "perl_react other p' data = ([], p')" using True by simp
    ultimately show ?thesis
      unfolding args cws(2) cmd using p' file_byte_write_at by blast
  next
    case False
    let ?p1 = "p\<lparr>p_data := Some (?path, off, length data, [])\<rparr>"
    have "s_write p ?ws = (PRELIM @ [], ?p1)"
      using fl assms(4,5) False by (simp add: s_write_def arg_def Let_def)
    moreover have "perl_react other ?p1 data = s_write_end ?p1 ?path off ([] @ data)"
      using False by (intro react_data) simp_all
    then have "perl_react other ?p1 data = (COMPLETE, p')"
      using fl by (simp add: s_write_end_def p'_def)
    moreover have "[] @ COMPLETE = COMPLETE" by simp
    ultimately show ?thesis
      unfolding args cws(2) cmd using p' file_byte_write_at by blast
  qed
qed

section \<open>The layers put together\<close>

interpretation perl: prompt_connection "perl_so other" pc_out pc_peer "perl_react other" for other
proof
  fix f :: perl_conn and n :: nat and bs :: string
  show "\<exists>f'. do_sync_write (perl_so other) f bs = (int (length bs), False, f') \<and>
      pc_out f' = pc_out f @ fst (perl_react other (pc_peer f) bs) \<and>
      pc_peer f' = snd (perl_react other (pc_peer f) bs)"
    by (simp add: perl_so_def split: prod.splits)
  assume "pc_out f \<noteq> []" "0 < n"
  then show "\<exists>f'. do_sync_read (perl_so other) f n =
        (int (min n (length (pc_out f))), take n (pc_out f), f') \<and>
      pc_out f' = drop n (pc_out f) \<and> pc_peer f' = pc_peer f"
    by (simp add: perl_so_def Let_def min.commute)
  have m: "0 < min n (length (pc_out f))" using \<open>pc_out f \<noteq> []\<close> \<open>0 < n\<close> by simp
  show "\<exists>m f'. 0 < m \<and> m \<le> n \<and> m \<le> length (pc_out f) \<and>
      do_sync_read (perl_so other) f n = (int m, take m (pc_out f), f') \<and>
      pc_out f' = drop m (pc_out f) \<and> pc_peer f' = pc_peer f"
    using m \<open>pc_out f \<noteq> []\<close>
    by (intro exI [of _ "min n (length (pc_out f))"])
      (auto simp: perl_so_def Let_def min_def)
qed

interpretation perl: file_server "perl_so other" pc_out pc_peer "perl_react other" perl_ready perl_bytes
  for other
proof
  fix s pres name b ts u and off n :: nat
  assume "perl_ready s pres" "perl_bytes s name = Some b" "cred_words pres ts u"
    "off < 4294967296" "n < 4294967296"
  from perl_read_cmd [OF this] this(1)
  show "\<exists>s'. perl_react other s (''s_read'' @ u @ read_args (quoted name) off n 0) =
        (PRELIM @ fslice (file_byte b) off n @ COMPLETE, s') \<and>
      perl_ready s' pres \<and> perl_bytes s' = perl_bytes s"
    by blast
qed (rule perl_write_cmd)

section \<open>Simple commands\<close>

lemma unlock_same:
  assumes "\<not> shfs_mutex w" and "same_but_conn (w\<lparr>shfs_mutex := True\<rparr>) w1"
  shows "same_but_conn w (sock_unlock w1)"
  using assms unfolding same_but_conn_def sock_unlock_def by (cases w; cases w1) simp

context connection
begin

lemma do_command_ok:
  assumes w: "conn_at outq core w s []" "\<not> shfs_mutex w" "creds_ok w"
    and cmd: "length cmd \<le> 100" "length args \<le> 1800"
    and r: "\<And>u ts. cred_words (preserve_own w) ts u \<Longrightarrow> react s (cmd @ u @ args @ [NL]) = (line @ [NL], s')"
    and line: "NL \<notin> set line" "NUL \<notin> set line" "length line < 100"
  shows "\<exists>w'. do_command so w cmd args = Some (command_result (reply line), w') \<and>
    conn_at outq core w' s' [] \<and> same_but_conn w w'"
proof -
  let ?w = "w\<lparr>shfs_mutex := True\<rparr>"
  have w': "conn_at outq core ?w s []" "creds_ok ?w" "preserve_own ?w = preserve_own w"
    using w creds_ok_cong [of ?w w] by (simp_all add: conn_at_def)
  obtain u ts where u: "command_head ?w cmd = Some (cmd @ u)" "length u < 3072"
    "cred_words (preserve_own w) ts u"
    using creds_head [OF w'(2) cmd(1)] w'(3) by metis
  let ?cmd = "(cmd @ u) @ args"
  have cut: "(cmd @ u) @ take (room (cmd @ u)) args = ?cmd" "\<not> length ?cmd + 2 > SOCKBUF_SIZE"
    using u(2) cmd by (simp_all add: room_def)
  have re: "react s (?cmd @ [NL]) = (line @ [NL], s')" using r [OF u(3)] by simp
  obtain w1 where w1: "sock_write so ?w (?cmd @ [NL]) = Some (int (length (?cmd @ [NL])), w1)"
    "conn_at outq core w1 s' (line @ NL # [])" "same_but_conn ?w w1"
    using write_ok [OF w'(1) re] by auto
  obtain w2 where w2: "sock_readln so w1 (?cmd @ [NL]) SOCKBUF_SIZE = Some (int (length line), line, w2)"
    "conn_at outq core w2 s' []" "same_but_conn w1 w2"
    using readln_ok [OF w1(2) line(1,2), of SOCKBUF_SIZE] line(3) by auto
  have nn: "\<not> int (length (?cmd @ [NL])) < 0" by simp
  have "do_command so w cmd args = Some (command_result (reply line), sock_unlock w2)"
  proof -
    have "locked w () (\<lambda>w.
       case command_head w cmd of None \<Rightarrow> Some (- ENAMETOOLONG, (), w)
       | Some s \<Rightarrow>
          let sockbuf = s @ take (room s) args in
          if length sockbuf + 2 > SOCKBUF_SIZE then Some (- ENAMETOOLONG, (), w)
          else do {
            (result, w1) \<leftarrow> sock_write so w (sockbuf @ [NL]);
            if result < 0 then Some (result, (), w1)
            else do {
              (_, line, w2) \<leftarrow> sock_readln so w1 (sockbuf @ [NL]) SOCKBUF_SIZE;
              Some (command_result (reply line), (), w2)
            }
          }) = Some (command_result (reply line), (), sock_unlock w2)"
      by (rule locked_ok [OF w(2)])
        (simp only: u(1) option.case Let_def cut w1(1) w2(1) if_not_P [OF cut(2)] if_not_P [OF nn]
          Option.bind.bind_lunit prod.case if_False)
    then show ?thesis by (simp add: do_command_def)
  qed
  moreover have "conn_at outq core (sock_unlock w2) s' []"
    using w2(2) by (simp add: conn_at_def sock_unlock_def)
  moreover have "same_but_conn w (sock_unlock w2)"
    by (rule unlock_same [OF w(2) same_but_conn_trans [OF w1(3) w2(3)]])
  ultimately show ?thesis by blast
qed

end

text \<open>
  A command on one path, over the Perl server: the path goes through the quoting and the parser
  unchanged, whatever quotes it contains.
\<close>

lemma perl_path_command:
  assumes w: "conn_at pc_out pc_peer w p []" "perl_ready p (preserve_own w)" "\<not> shfs_mutex w" "creds_ok w"
    and name: "NUL \<notin> set name" "length (quoted name) < SHFS_PATH_MAX"
    and cmd: "spells cmd cmd" "length cmd \<le> 100"
    and args: "list_all2 spells ats ws" "length (line_text ats) \<le> 1000"
      "args (quoted name) = line_text (quote1 (quoted name) # ats)"
    and r: "\<And>cws. length cws = (if p_preserve p then 2 else 0) \<Longrightarrow>
      perl_command other p (cmd # cws @ name # ws) = (line @ [NL], p')"
    and line: "NL \<notin> set line" "NUL \<notin> set line" "length line < 100"
  shows "\<exists>w'. path_command (perl_so other) w name cmd args =
      Some (command_result (reply line), quoted name, w') \<and>
    conn_at pc_out pc_peer w' p' [] \<and> same_but_conn w w'"
proof -
  have len: "length (args (quoted name)) \<le> 1800"
    using name(2) args(2) unfolding args(3) by (cases ats) (simp_all add: quote1_def)
  have react: "perl_react other p (cmd @ u @ args (quoted name) @ [NL]) = (line @ [NL], p')"
    if u: "cred_words (preserve_own w) ts u" for u ts
  proof -
    have al: "list_all2 spells (quote1 (quoted name) # ats) (name # ws)"
      using args(1) by (simp add: quote1_def)
    obtain cws where "length cws = (if p_preserve p then 2 else 0)"
      "perl_react other p (cmd @ u @ line_text (quote1 (quoted name) # ats) @ [NL]) =
        perl_command other p (cmd # cws @ name # ws)"
      using command_words [OF w(2) u al _ cmd(1), of other] by blast
    with r show ?thesis by (simp add: args(3))
  qed
  have "\<exists>w'. do_command (perl_so other) w cmd (args (quoted name)) =
      Some (command_result (reply line), w') \<and> conn_at pc_out pc_peer w' p' [] \<and> same_but_conn w w'"
    by (rule perl.do_command_ok [OF w(1,3,4) cmd(2) len _ line]) (rule react)
  then show ?thesis using check_path_ok [OF name] by (auto simp: path_command_def)
qed

lemma unlink_over_perl:
  assumes w: "conn_at pc_out pc_peer w p []" "perl_ready p (preserve_own w)" "\<not> shfs_mutex w" "creds_ok w"
    and name: "NUL \<notin> set name" "length (quoted name) < SHFS_PATH_MAX"
  shows "\<exists>w' p'. shell_unlink (perl_so other) w name =
      Some (if perl_bytes p name = None then - ENOENT else 0, quoted name, w') \<and>
    conn_at pc_out pc_peer w' p' [] \<and> perl_ready p' (preserve_own w') \<and>
    perl_bytes p' = (perl_bytes p)(name := None) \<and> same_but_conn w w'"
proof -
  define p' where "p' = snd (s_rm p [name])"
  define line where "line = (if perl_bytes p name = None then ''### 503'' else ''### 200'')"
  have rm: "s_rm p [name] = (line @ [NL], p')"
    by (auto simp: p'_def line_def s_rm_def arg_def perl_bytes_def Let_def split: option.splits)
  have pc: "perl_command other p (''s_rm'' # cws @ name # []) = (line @ [NL], p')"
    if "length cws = (if p_preserve p then 2 else 0)" for cws
    using that rm by (auto simp: perl_command_def Let_def)
  have cr: "command_result (reply line) = (if perl_bytes p name = None then - ENOENT else 0)"
    by (simp add: line_def command_result_def reply_lines
        reply_def [of "''### 503''"] starts_with_def strtoul_def isdigit_def digit_val_def u64_def)
  have ln: "NL \<notin> set line" "NUL \<notin> set line" "length line < 100" by (simp_all add: line_def)
  have sp: "spells ''s_rm'' ''s_rm''" by (simp add: spells_def)
  have "\<exists>w'. path_command (perl_so other) w name ''s_rm'' quote1 =
      Some (command_result (reply line), quoted name, w') \<and> conn_at pc_out pc_peer w' p' [] \<and>
      same_but_conn w w'"
    by (rule perl_path_command [OF w name sp _ _ _ _ pc ln, where ats = "[]"]) (simp_all add: quote1_def)
  then obtain w' where w': "shell_unlink (perl_so other) w name =
      Some (if perl_bytes p name = None then - ENOENT else 0, quoted name, w')"
    "conn_at pc_out pc_peer w' p' []" "same_but_conn w w'"
    by (auto simp: shell_unlink_def cr)
  have "perl_ready p' (preserve_own w')" "perl_bytes p' = (perl_bytes p)(name := None)"
    using w(2) same_but_connD(4) [OF w'(3)]
    by (auto simp: p'_def s_rm_def perl_ready_def perl_idle_def perl_bytes_def arg_def Let_def fun_eq_iff
        split: option.splits)
  with w' show ?thesis by blast
qed

text \<open>A file cut or padded to a size.\<close>

definition resized :: "string \<Rightarrow> nat \<Rightarrow> string" where
  "resized b k = take k b @ replicate (k - length b) NUL"

text \<open>
  Truncation: \<open>shell_trunc\<close> sends a size of 1 and a block count of 0 for an empty file, which only
  \<open>dd\<close> understands; the Perl server ignores the count and leaves one byte. Sizes are cut to 32 bits.
\<close>

lemma trunc_over_perl:
  assumes w: "conn_at pc_out pc_peer w p []" "perl_ready p (preserve_own w)" "\<not> shfs_mutex w" "creds_ok w"
    and name: "NUL \<notin> set name" "length (quoted name) < SHFS_PATH_MAX" and b: "perl_bytes p name = Some b"
  shows "\<exists>w' p'. shell_trunc (perl_so other) w name n = Some (0, quoted name, w') \<and>
    conn_at pc_out pc_peer w' p' [] \<and>
    perl_bytes p' = (perl_bytes p)(name := Some (resized b (if n = 0 then 1 else u32 (int n))))"
proof -
  define k where "k = (if n = 0 then 1 else u32 (int n))"
  define seek where "seek = (if n = 0 then 0 else 1 :: nat)"
  have k: "k < 4294967296" by (simp add: k_def)
  have sk: "seek < 4294967296" by (simp add: seek_def)
  have one: "u32 1 = 1" by (simp add: u32_def)
  have args: "trunc_args n = line_text [dec k, dec seek]"
    by (simp add: trunc_args_def k_def seek_def one)
  define p' where "p' = snd (s_trunc p [name, dec k, dec seek])"
  have tr: "s_trunc p [name, dec k, dec seek] = (''### 200'' @ [NL], p')"
    using b k by (simp add: p'_def s_trunc_def arg_def perl_bytes_def Let_def)
  have pc: "perl_command other p (''s_trunc'' # cws @ name # [dec k, dec seek]) = (''### 200'' @ [NL], p')"
    if "length cws = (if p_preserve p then 2 else 0)" for cws
    using that tr by (auto simp: perl_command_def Let_def)
  have sp: "spells ''s_trunc'' ''s_trunc''" by (simp add: spells_def)
  have al: "list_all2 spells [dec k, dec seek] [dec k, dec seek]" by simp
  have len: "length (line_text [dec k, dec seek]) \<le> 1000"
    using dec32_length [OF k] dec32_length [of seek, OF sk] by simp
  have "\<exists>w'. path_command (perl_so other) w name ''s_trunc'' (\<lambda>f. quote1 f @ [SP] @ trunc_args n) =
      Some (command_result (reply ''### 200''), quoted name, w') \<and> conn_at pc_out pc_peer w' p' [] \<and>
      same_but_conn w w'"
    by (rule perl_path_command [OF w name sp _ al len _ pc]) (simp_all add: quote1_def args)
  moreover have "perl_bytes p' = (perl_bytes p)(name := Some (resized b k))"
    using b k by (auto simp: p'_def s_trunc_def arg_def perl_bytes_def Let_def resized_def fun_eq_iff)
  ultimately show ?thesis
    by (auto simp: shell_trunc_def command_result_def reply_lines k_def)
qed

section \<open>The resynchronisation over the Perl server\<close>

text \<open>
  The ping has no newline at its end, so the server keeps waiting for the rest of the line and
  sends nothing: the read of its answer sleeps until the task is killed, and the connection is
  closed with an error.
\<close>

lemma perl_react_ping:
  assumes "perl_idle p"
  shows "\<exists>p'. perl_react other p ping = ([], p')"
proof -
  have p: "p_data p = None" "p_gl p = gl_at []" "p\<lparr>p_gl := gl_start\<rparr> = p"
    using assms by (simp_all add: perl_idle_def gl_start_def gl_at_def)
  have nl: "perl_react other p [NL] = ([], p)"
    by (simp add: perl_char_def p getline_step_def gl_at_def perl_command_def Let_def)
  have "spells ''s_ping'' ''s_ping''" by (simp add: spells_def)
  then have "list_all2 spells [''s_ping'', dec ping_seq] [''s_ping'', dec ping_seq]"
    using spells_dec by blast
  from getline_words [OF this, of "[]"] obtain g where
    "gl_feed (p_gl p) (line_text [''s_ping'', dec ping_seq]) = Some g" by (auto simp: p)
  note react = react_feed [OF p(1) this, of other]
  have pg: "ping = [NL] @ [NL] @ line_text [''s_ping'', dec ping_seq]" by (simp add: ping_def)
  show ?thesis
    unfolding pg perl_react_append nl prod.case react by blast
qed

lemma clear_garbage_fails:
  assumes w: "sock w = Some f" "perl_idle (pc_peer f)" "pc_out f = []" "readlnbuf w = []"
    and g: "garbage_write w = 0" "garbage_read w = 0"
  shows "\<exists>w'. clear_garbage (perl_so other) w = Some (- 512, w') \<and> sock w' = None \<and> garbage w'"
proof -
  obtain p' where p': "perl_react other (pc_peer f) ping = ([], p')"
    using perl_react_ping [OF w(2)] by blast
  define f' where "f' = f\<lparr>pc_peer := p', pc_pos := pc_pos f + int (length ping)\<rparr>"
  let ?w = "w\<lparr>garbage_write := 0, garbage_read := 0, garbage := False\<rparr>"
  have send: "sock_send (perl_so other) ?w ping = (int (length ping), ?w\<lparr>sock := Some f'\<rparr>)"
    using w p' by (simp add: sock_send_def perl_so_def f'_def)
  have rl: "\<exists>w'. readln_loop (perl_so other) 256 0 b v = Some (- 512, b, w') \<and> sock w' = None \<and> garbage w'"
    if "sock v = Some f'" "readlnbuf v = []" for b v
  proof -
    have "sigpipe_fix v False (- 512) = (- 512, v\<lparr>sigpipe := sigpipe v\<rparr>)"
      by (simp add: sigpipe_fix_def)
    with that w(3) show ?thesis
      by (subst readln_loop.simps)
        (simp add: perl_so_def f'_def Let_def set_garbage_def)
  qed
  have zero: "clear_write (perl_so other) 0 v = (0, v)" "clear_read (perl_so other) 0 v = (0, v)" for v
    by (simp_all add: clear_write.simps clear_read.simps)
  obtain w' where "readln_loop (perl_so other) 256 0 ping (?w\<lparr>sock := Some f', garbage := False\<rparr>) =
      Some (- 512, ping, w')" "sock w' = None"
    using rl [of "?w\<lparr>sock := Some f', garbage := False\<rparr>" ping] w(4) by auto
  then have "ping_loop (perl_so other) 100000 0 (int (length ping)) ping (?w\<lparr>sock := Some f'\<rparr>) =
      Some (- 512, w'\<lparr>garbage := True\<rparr>)"
    by (subst ping_loop.simps) simp
  moreover have "clear_garbage (perl_so other) w =
      ping_loop (perl_so other) 100000 0 (int (length ping)) ping (?w\<lparr>sock := Some f'\<rparr>)"
    using g send by (simp add: clear_garbage_def zero)
  ultimately show ?thesis using \<open>sock w' = None\<close> by simp
qed

section \<open>The slow read over the Perl server\<close>

text \<open>With nothing left to read, the bytes and the closing answer do not come.\<close>

lemma perl_read_nothing:
  assumes "sock w = Some f" and "pc_out f = []" and "readlnbuf w = []" and "\<not> garbage w"
  shows "0 < n \<Longrightarrow> \<exists>w'. sock_read (perl_so other) w n = Some (- 512, [], w') \<and> sock w' = None"
    and "\<exists>w'. sock_readln (perl_so other) w b k = Some (- 512, b, w') \<and> sock w' = None"
proof -
  have fx: "sigpipe_fix v False (- 512) = (- 512, v)" for v :: "perl_conn world"
    by (cases v) (simp add: sigpipe_fix_def)
  show "\<exists>w'. sock_read (perl_so other) w n = Some (- 512, [], w') \<and> sock w' = None" if "0 < n"
    using assms that fx by (simp add: sock_read_def resync_def sock_recv_def perl_so_def Let_def set_garbage_def)
  show "\<exists>w'. sock_readln (perl_so other) w b k = Some (- 512, b, w') \<and> sock w' = None"
    using assms fx by (simp add: sock_readln_def resync_def)
      (subst readln_loop.simps, simp add: perl_so_def Let_def set_garbage_def)
qed

lemma read_data_nothing:
  assumes "sock w = Some f" and "pc_out f = []" and "readlnbuf w = []" and "\<not> garbage w"
  shows "\<exists>w'. read_data (perl_so other) w b n = Some (- 512, [], w') \<and> sock w' = None"
proof (cases "n = 0")
  case True
  have "sock_read (perl_so other) w 0 = Some (0, [], w)"
    using assms by (cases w) (simp add: sock_read_def resync_def sock_recv_def Let_def)
  with perl_read_nothing(2) [OF assms, of other b SOCKBUF_SIZE] True show ?thesis
    by (auto simp: read_data_def)
next
  case False
  with perl_read_nothing(1) [OF assms, of n other] show ?thesis by (auto simp: read_data_def)
qed

lemma slow_read_args:
  assumes "ino \<noteq> 0"
  shows "\<exists>ats ws. read_args (quoted name) off n ino = line_text ats @ [NL] \<and> list_all2 spells ats ws \<and>
    ats \<noteq> [] \<and> take 3 ws = [name, dec off, dec n] \<and> length ws = 7"
proof -
  obtain bs o2 c2 where b: "read_block off n = (bs, o2, c2)" by (cases "read_block off n")
  let ?r = "[dec off, dec n, dec bs, dec o2, dec c2, dec (u64 (int ino))]"
  show ?thesis
    using assms
    by (intro exI [of _ "(QUOTE # quoted name @ [QUOTE]) # ?r"] exI [of _ "name # ?r"])
      (simp add: read_args_def b quote1_def)
qed

lemma slow_args_length:
  assumes "off < 4294967296" "n < 4294967296" "length file < SHFS_PATH_MAX" "ino \<noteq> 0"
  shows "length (read_args file off n ino) \<le> 700"
proof -
  obtain bs o2 c2 where b: "read_block off n = (bs, o2, c2)" by (cases "read_block off n")
  have "read_args file off n ino =
      butlast (read_args file off n 0) @ [SP] @ dec (u64 (int ino)) @ [NL]"
    using assms(4) by (simp add: read_args_def b butlast_append)
  then have "length (read_args file off n ino) \<le> length (read_args file off n 0) + 1 + 20 + 1"
    using dec64_length [of "int ino"] by simp
  with read_args_length [OF assms(1-3)] show ?thesis by simp
qed


end
