(* ===== verification/FileOps.thy ===== *)
theory FileOps
  imports Shell FCacheFile
begin

text \<open>
  The file operations the kernel calls, \<open>file.c\<close>: permissions, reading a page, the slow read of
  files without a size, and the \<open>ioctl\<close> that replaces the connection (\<open>ioctl.c\<close>). The page cache
  and the copying to user space are not modelled beyond the bytes they take.
\<close>

text \<open>\<open>mutex_lock\<close> is not interruptible: a task that holds the mutex waits forever (None).\<close>

definition mutex_lock :: "'f world \<Rightarrow> 'f world option" where
  "mutex_lock w = (if shfs_mutex w then None else Some (w\<lparr>shfs_mutex := True\<rparr>))"

definition mutex_unlock :: "'f world \<Rightarrow> 'f world" where
  "mutex_unlock w = w\<lparr>shfs_mutex := False\<rparr>"

definition shfs_file_permission :: "inode \<Rightarrow> nat \<Rightarrow> int" where
  "shfs_file_permission i wanted =
    (let mode = unat (i_mode i) div 64 in
     if (mode AND 7 AND wanted) \<noteq> wanted then - EACCES else 0)"

definition shfs_file_writepage :: int where
  "shfs_file_writepage = - 14"

text \<open>\<open>CURRENT_TIME\<close>, rounded to minutes by \<open>ROUND_TO_MINS\<close>.\<close>

definition current_minute :: "'f world \<Rightarrow> timespec" where
  "current_minute w = \<lparr>tv_sec = int (now w) sdiv 60 * 60, tv_nsec = 0\<rparr>"

text \<open>
  One read of the loop in \<open>shfs_file_readpage\<close>: through the cache, or directly when there is no
  cache. The position is a 64-bit \<open>offset\<close> but the reads take 32 bits.
\<close>

definition page_read ::
  "'f world shfs_fileops \<Rightarrow> allocator \<Rightarrow> string \<Rightarrow> 'f world \<Rightarrow> dentry \<Rightarrow> nat \<Rightarrow> nat
    \<Rightarrow> (int \<times> string \<times> dentry \<times> 'f world) option" where
  "page_read fops mm stk w d offset count =
    (if fcache_size w \<noteq> 0 then do {
       (result, bs, fd, w1) \<leftarrow> fcache_file_read fops mm stk w (Some d) (u32 (int offset)) (u32 (int count));
       Some (result, bs, case fd of None \<Rightarrow> d | Some d1 \<Rightarrow> d1, w1)
     }
     else (case get_name (d_names d) stk of (gn, name) \<Rightarrow>
       if gn < 0 then Some (- ENAMETOOLONG, [], d, w)
       else do {
         (result, _, bs, w1) \<leftarrow> op_read fops w (c_str name) (u32 (int offset)) (u32 (int count)) 0;
         Some (result, bs, d, w1)
       }))"

definition touch_atime :: "'f world \<Rightarrow> dentry \<Rightarrow> dentry" where
  "touch_atime w d = d\<lparr>d_inode := map_option (\<lambda>i. i\<lparr>i_atime := current_minute w\<rparr>) (d_inode d)\<rparr>"

text \<open>The loop; \<open>pos\<close> is how far \<open>buffer\<close> has moved in the page.\<close>

partial_function (option) readpage_loop ::
  "'f world shfs_fileops \<Rightarrow> allocator \<Rightarrow> string \<Rightarrow> dentry \<Rightarrow> nat \<Rightarrow> nat \<Rightarrow> nat \<Rightarrow> string \<Rightarrow> 'f world
    \<Rightarrow> (int \<times> string \<times> dentry \<times> 'f world) option" where
  "readpage_loop fops mm stk d offset count pos page w = do {
     (result, bs, d1, w1) \<leftarrow> page_read fops mm stk w d offset count;
     let page1 = blit page pos bs;
     if result < 0 then Some (result, page1, d1, mutex_unlock w1)
     else
       let count1 = u64 (int count - result); pos1 = pos + nat result; d2 = touch_atime w1 d1 in
       if result = 0 \<or> count1 = 0
       then Some (0, take pos1 page1 @ replicate count1 NUL @ drop (pos1 + count1) page1, d2, mutex_unlock w1)
       else readpage_loop fops mm stk d2 (u64 (int offset + result)) count1 pos1 page1 w1
   }"

text \<open>\<open>shfs_file_readpage\<close>: the result, the page's bytes, the dentry and the world.\<close>

definition shfs_file_readpage ::
  "'f world shfs_fileops \<Rightarrow> allocator \<Rightarrow> string \<Rightarrow> 'f world \<Rightarrow> dentry \<Rightarrow> nat \<Rightarrow> string
    \<Rightarrow> (int \<times> string \<times> dentry \<times> 'f world) option" where
  "shfs_file_readpage fops mm stk w d index page = do {
     w1 \<leftarrow> mutex_lock w;
     readpage_loop fops mm stk d (u64 (int (index * PAGE_SIZE))) PAGE_SIZE 0 page w1
   }"

text \<open>
  \<open>shfs_slow_read\<close>: \<open>page\<close> is the answer of \<open>__get_free_page\<close>, \<open>copy_ok\<close> whether the copy to user
  space succeeds. The result, the page, the new position and the world.
\<close>

definition shfs_slow_read ::
  "'f world shfs_fileops \<Rightarrow> string \<Rightarrow> string option \<Rightarrow> bool \<Rightarrow> 'f world \<Rightarrow> dentry \<Rightarrow> nat \<Rightarrow> nat
    \<Rightarrow> (int \<times> string \<times> nat \<times> 'f world) option" where
  "shfs_slow_read fops stk page copy_ok w d count ppos = do {
     w1 \<leftarrow> mutex_lock w;
     (case page of None \<Rightarrow> Some (- 12, [], ppos, mutex_unlock w1)
      | Some pg \<Rightarrow>
         (case get_name (d_names d) stk of (gn, name) \<Rightarrow>
           if gn < 0 then Some (- ENAMETOOLONG, pg, ppos, mutex_unlock w1)
           else let cnt = (if count > PAGE_SIZE then PAGE_SIZE else count);
                    ino = (case d_inode d of None \<Rightarrow> 0 | Some i \<Rightarrow> i_ino i) in do {
             (result, _, bs, w2) \<leftarrow> op_read fops w1 (c_str name) (u32 (int ppos)) cnt ino;
             let pg1 = blit pg 0 bs;
             if result < 0 \<or> result = 0 \<or> \<not> copy_ok then Some (result, pg1, ppos, mutex_unlock w2)
             else Some (result, pg1, ppos + nat result, mutex_unlock w2)
           }))
   }"

text \<open>\<open>shfs_ioctl\<close>: a new connection takes the place of the old one, and the garbage is forgotten.\<close>

definition SHFS_IOC_NEWCONN :: nat where
  "SHFS_IOC_NEWCONN = 0x40047302"

definition shfs_ioctl :: "(int \<Rightarrow> 'f option) \<Rightarrow> 'f world \<Rightarrow> nat \<Rightarrow> int \<Rightarrow> int \<times> 'f world" where
  "shfs_ioctl fget w cmd arg =
    (if cmd = SHFS_IOC_NEWCONN
     then (0, w\<lparr>sock := fget arg, garbage := False, garbage_read := 0, garbage_write := 0\<rparr>)
     else (- EINVAL, w))"

section \<open>The lock is taken twice\<close>

text \<open>
  Every operation of \<open>shell.c\<close> takes the lock that \<open>shfs_file_readpage\<close> and \<open>shfs_slow_read\<close>
  already hold.
\<close>

lemma locked_held:
  assumes "shfs_mutex w"
  shows "locked w a body = (if signalled w then Some (- EINTR, a, w) else None)"
  using assms by (simp add: locked_def sock_lock_def)

lemma shell_read_held:
  assumes "shfs_mutex w" and "check_path name = (True, name1)"
  shows "shell_read so w name off n ino = (if signalled w then Some (- EINTR, name1, [], w) else None)"
  using assms by (simp add: shell_read_def locked_held)


section \<open>A new connection\<close>

text \<open>
  C31: The \<open>ioctl\<close> gives the mount a new connection and forgets the garbage of the old one, but the
  line buffer stays: bytes of the old connection are read as the start of the new one's.
\<close>

theorem ioctl_keeps_old_bytes:
  assumes "readlnbuf w = line @ NL # rest" and "NL \<notin> set line" and "NUL \<notin> set line" and "length line < count"
    and "fget arg = Some f"
  shows "\<exists>w'. shfs_ioctl fget w SHFS_IOC_NEWCONN arg = (0, w') \<and> sock w' = Some f \<and>
    sock_readln so w' buffer count = Some (int (length line), line, w'\<lparr>readlnbuf := rest\<rparr>)"
proof -
  let ?w = "w\<lparr>sock := Some f, garbage := False, garbage_read := 0, garbage_write := 0\<rparr>"
  have tw: "takeWhile (\<lambda>c. c \<noteq> NL) (line @ NL # rest) = line" using assms(2) by (subst takeWhile_append2) auto
  have "readln_loop so count 0 buffer ?w = Some (int (length line), line, ?w\<lparr>readlnbuf := rest\<rparr>)"
    using assms(1,4) by (subst readln_loop.simps) (simp add: tw c_str_id [OF assms(3)] Let_def)
  then show ?thesis using assms(5) by (simp add: shfs_ioctl_def sock_readln_def resync_def)
qed

end
