(* ===== verification/Attr.thy ===== *)
theory Attr
  imports World
begin

text \<open>
  Changing the attributes of an inode and asking for those of the file system:
  \<open>shfs_notify_change\<close> and \<open>shfs_statfs\<close> of \<open>proc.c\<close>. The kernel's \<open>inode_change_ok\<close> and
  \<open>inode_newsize_ok\<close> are parameters; the page cache, which \<open>filemap_fdatawrite\<close> and
  \<open>truncate_setsize\<close> touch, is not modelled.
\<close>

text \<open>
  \<open>struct iattr\<close>: a field is \<open>Some\<close> when its bit of \<open>ia_valid\<close> is set.
\<close>

record iattr =
  ia_mode :: "umode option"
  ia_uid :: "nat option"
  ia_gid :: "nat option"
  ia_size :: "nat option"
  ia_atime :: "timespec option"
  ia_mtime :: "timespec option"

text \<open>
  One step of the sequence: the state is the inode, the path buffer and the world; the answer of
  the step before goes on only when it is not negative.
\<close>

type_synonym 'f attr_state = "int \<times> inode \<times> string \<times> 'f world"

definition attr_mode :: "'f world shfs_fileops \<Rightarrow> iattr \<Rightarrow> 'f attr_state \<Rightarrow> 'f attr_state option" where
  "attr_mode fops a st = (case st of (result, i, name, w) \<Rightarrow>
     if result < 0 then Some st
     else case ia_mode a of None \<Rightarrow> Some st
     | Some m \<Rightarrow> do {
         (r, name1, w1) \<leftarrow> op_chmod fops w name m;
         Some (r, if r < 0 then i else i\<lparr>i_mode := m\<rparr>, name1, w1)
       })"

definition attr_uid :: "'f world shfs_fileops \<Rightarrow> iattr \<Rightarrow> 'f attr_state \<Rightarrow> 'f attr_state option" where
  "attr_uid fops a st = (case st of (result, i, name, w) \<Rightarrow>
     if result < 0 then Some st
     else case ia_uid a of None \<Rightarrow> Some st
     | Some u \<Rightarrow> do {
         (r, name1, w1) \<leftarrow> op_chown fops w name u;
         Some (r, if r < 0 then i else i\<lparr>i_uid := if preserve_own w1 then uid w1 else u\<rparr>, name1, w1)
       })"

definition attr_gid :: "'f world shfs_fileops \<Rightarrow> iattr \<Rightarrow> 'f attr_state \<Rightarrow> 'f attr_state option" where
  "attr_gid fops a st = (case st of (result, i, name, w) \<Rightarrow>
     if result < 0 then Some st
     else case ia_gid a of None \<Rightarrow> Some st
     | Some g \<Rightarrow> do {
         (r, name1, w1) \<leftarrow> op_chgrp fops w name g;
         Some (r, if r < 0 then i else i\<lparr>i_gid := if preserve_own w1 then gid w1 else g\<rparr>, name1, w1)
       })"

text \<open>The size: a result of \<open>inode_newsize_ok\<close> other than 0 ends the sequence.\<close>

definition attr_size ::
  "'f world shfs_fileops \<Rightarrow> (inode \<Rightarrow> nat \<Rightarrow> int) \<Rightarrow> iattr \<Rightarrow> 'f attr_state \<Rightarrow> (bool \<times> 'f attr_state) option" where
  "attr_size fops newsize_ok a st = (case st of (result, i, name, w) \<Rightarrow>
     if result < 0 then Some (True, st)
     else case ia_size a of None \<Rightarrow> Some (False, st)
     | Some n \<Rightarrow> do {
         (r, name1, w1) \<leftarrow> op_trunc fops w name n;
         if r < 0 then Some (True, r, i, name1, w1)
         else let r2 = newsize_ok i n in
           if r2 \<noteq> 0 then Some (True, r2, i, name1, w1)
           else Some (False, r2, i\<lparr>i_size := n\<rparr>, name1, w1)
       })"

text \<open>The times: one call when both are set to the same time.\<close>

definition attr_time ::
  "'f world shfs_fileops \<Rightarrow> bool \<Rightarrow> bool \<Rightarrow> timespec option \<Rightarrow> (inode \<Rightarrow> timespec \<Rightarrow> inode)
    \<Rightarrow> 'f attr_state \<Rightarrow> 'f attr_state option" where
  "attr_time fops at mt t upd st = (case st of (result, i, name, w) \<Rightarrow>
     if result < 0 then Some st
     else case t of None \<Rightarrow> Some st
     | Some x \<Rightarrow> do {
         (r, name1, w1) \<leftarrow> op_settime fops w name at mt x;
         Some (r, if r < 0 then i else upd i x, name1, w1)
       })"

definition attr_times :: "'f world shfs_fileops \<Rightarrow> iattr \<Rightarrow> 'f attr_state \<Rightarrow> 'f attr_state option" where
  "attr_times fops a st =
    (if ia_atime a \<noteq> None \<and> ia_atime a = ia_mtime a
     then attr_time fops True True (ia_atime a) (\<lambda>i x. i\<lparr>i_atime := x, i_mtime := x\<rparr>) st
     else do {
       st1 \<leftarrow> attr_time fops True False (ia_atime a) (\<lambda>i x. i\<lparr>i_atime := x\<rparr>) st;
       attr_time fops False True (ia_mtime a) (\<lambda>i x. i\<lparr>i_mtime := x\<rparr>) st1
     })"

definition shfs_notify_change ::
  "'f world shfs_fileops \<Rightarrow> (inode \<Rightarrow> iattr \<Rightarrow> int) \<Rightarrow> (inode \<Rightarrow> nat \<Rightarrow> int) \<Rightarrow> string \<Rightarrow> 'f world
    \<Rightarrow> dentry \<Rightarrow> inode \<Rightarrow> iattr \<Rightarrow> (int \<times> inode \<times> 'f world) option" where
  "shfs_notify_change fops change_ok newsize_ok stk w d i a =
    (case get_name (d_names d) stk of (gn, name) \<Rightarrow>
      if gn < 0 then Some (- ENAMETOOLONG, i, w)
      else let r0 = change_ok i a in
      if r0 < 0 then Some (r0, i, w)
      else if readonly w then Some (- EROFS, i, w)
      else do {
        st1 \<leftarrow> attr_mode fops a (r0, i, c_str name, w);
        st2 \<leftarrow> attr_uid fops a st1;
        st3 \<leftarrow> attr_gid fops a st2;
        (stop, st4) \<leftarrow> attr_size fops newsize_ok a st3;
        (r, i1, _, w1) \<leftarrow> (if stop then Some st4 else attr_times fops a st4);
        Some (r, i1, w1)
      })"

definition shfs_statfs :: "'f world shfs_fileops \<Rightarrow> 'f world \<Rightarrow> (int \<times> kstatfs \<times> 'f world) option" where
  "shfs_statfs fops w = op_statfs fops w"

section \<open>Properties\<close>

text \<open>
  C34: On a read-only mount nothing reaches the remote side.
\<close>

lemma notify_readonly:
  assumes "readonly w"
  shows "\<exists>r<0. shfs_notify_change fops change_ok newsize_ok stk w d i a = Some (r, i, w)"
proof -
  obtain gn nm where gn: "get_name (d_names d) stk = (gn, nm)" "\<not> gn < 0"
    using get_name_not_negative [of "d_names d" stk] by (cases "get_name (d_names d) stk") auto
  with assms show ?thesis by (cases "change_ok i a < 0") (auto simp: shfs_notify_change_def Let_def)
qed

text \<open>
  A refused change of the mode leaves the inode as it was, and the later changes are not tried.
\<close>

lemma notify_chmod_error:
  assumes "\<not> readonly w" and "0 \<le> change_ok i a" and "ia_mode a = Some m"
    and "op_chmod fops w (c_str (snd (get_name (d_names d) stk))) m = Some (r, name1, w1)" and "r < 0"
  shows "shfs_notify_change fops change_ok newsize_ok stk w d i a = Some (r, i, w1)"
proof -
  obtain gn nm where gn: "get_name (d_names d) stk = (gn, nm)" "\<not> gn < 0"
    using get_name_not_negative [of "d_names d" stk] by (cases "get_name (d_names d) stk") auto
  with assms show ?thesis
    by (simp add: shfs_notify_change_def Let_def attr_mode_def attr_uid_def attr_gid_def attr_size_def)
qed

text \<open>
  With ownership preserved, the inode gets the ids of the mount instead of those just set on the
  remote side (\<open>shfs_set_inode_attr\<close> has it the other way round).
\<close>

lemma notify_uid_preserve:
  assumes "ia_uid a = Some u" and "op_chown fops w name u = Some (0, name1, w1)" and "0 \<le> r"
  shows "attr_uid fops a (r, i, name, w) =
    Some (0, i\<lparr>i_uid := if preserve_own w1 then uid w1 else u\<rparr>, name1, w1)"
  using assms by (simp add: attr_uid_def)

end
