(* ===== verification/Options.thy ===== *)
theory Options
  imports World
begin

text \<open>
  The mount options, \<open>parse_mode\<close> and \<open>parse_options\<close> of \<open>proc.c\<close>: a comma-separated text that
  sets fields of the super block. \<open>fget\<close> is the kernel's, a parameter.
\<close>

text \<open>
  \<open>parse_mode\<close> reads three bytes; \<open>mode\<close> is the memory from the value on, in which the option's
  terminating NUL is followed by the options not yet parsed.
\<close>

definition char_at :: "string \<Rightarrow> nat \<Rightarrow> int" where
  "char_at s k = (let c = (if k < length s then of_char (s ! k) else 0) :: int
     in if c < 128 then c else c - 256)"

definition parse_mode :: "string \<Rightarrow> int" where
  "parse_mode mode =
    (char_at mode 0 - 48) * 64 + (char_at mode 1 - 48) * 8 + (char_at mode 2 - 48)"

text \<open>
  The loop \<open>for (j = 0; i; j++) i >>= 1\<close> of \<open>cachesize\<close>: the number of bits of \<open>i\<close>. A negative
  \<open>i\<close> shifts to -1 and stays there (None).
\<close>

fun bit_count :: "nat \<Rightarrow> nat" where
  "bit_count i = (if i = 0 then 0 else bit_count (i div 2) + 1)"

declare bit_count.simps [simp del]

definition shift_loop :: "int \<Rightarrow> nat option" where
  "shift_loop i = (if i < 0 then None else Some (bit_count (nat i)))"

text \<open>
  One option \<open>p\<close>, with \<open>mem\<close> the memory from its start on: None when it does not return, \<open>False\<close>
  when it is refused. Options are recognised by their prefix; unknown ones are skipped.
\<close>

definition number :: "string \<Rightarrow> int" where
  "number q = s32 (int (strtoul q))"

definition set_option ::
  "(int \<Rightarrow> 'f option) \<Rightarrow> string \<Rightarrow> string \<Rightarrow> 'f world \<Rightarrow> (bool \<times> 'f world) option" where
  "set_option fget p mem w =
    (if starts_with ''mnt='' p then
       (if length (drop 4 p) + 1 > SHFS_PATH_MAX then Some (False, w)
        else Some (True, w\<lparr>mount_point := drop 4 p\<rparr>))
     else if starts_with ''ro'' p then Some (True, w\<lparr>readonly := True\<rparr>)
     else if starts_with ''rw'' p then Some (True, w\<lparr>readonly := False\<rparr>)
     else if starts_with ''suid'' p then Some (True, w\<lparr>fmask := fmask w OR (S_ISUID OR S_ISGID)\<rparr>)
     else if starts_with ''nosuid'' p then
       Some (True, w\<lparr>fmask := fmask w AND NOT (S_ISUID OR S_ISGID)\<rparr>)
     else if starts_with ''dev'' p then Some (True, w\<lparr>fmask := fmask w OR (S_IFCHR OR S_IFBLK)\<rparr>)
     else if starts_with ''nodev'' p then
       Some (True, w\<lparr>fmask := fmask w AND NOT (S_IFCHR OR S_IFBLK)\<rparr>)
     else if starts_with ''exec'' p then
       Some (True, w\<lparr>fmask := fmask w OR (S_IXUSR OR S_IXGRP OR S_IXOTH)\<rparr>)
     else if starts_with ''noexec'' p then
       Some (True, w\<lparr>fmask := fmask w AND NOT (S_IXUSR OR S_IXGRP OR S_IXOTH)\<rparr>)
     else if starts_with ''preserve'' p then Some (True, w\<lparr>preserve_own := True\<rparr>)
     else if starts_with ''cachesize='' p then
       (if length (drop 10 p) > 5 then Some (False, w)
        else do {
          j \<leftarrow> shift_loop (number (drop 10 p) - 1);
          Some (True, w\<lparr>fcache_size := s32 (int (2 ^ j * PAGE_SIZE))\<rparr>)
        })
     else if starts_with ''cachemax='' p then
       (if length (drop 9 p) > 5 then Some (False, w)
        else Some (True, w\<lparr>fcache_free := number (drop 9 p)\<rparr>))
     else if starts_with ''debug='' p then
       (if length (drop 6 p) > 5 then Some (False, w)
        else Some (True, w\<lparr>debug_level := number (drop 6 p)\<rparr>))
     else if starts_with ''ttl='' p then
       (if length (drop 4 p) > 10 then Some (False, w)
        else Some (True, w\<lparr>ttl := s32 (number (drop 4 p) * 1000)\<rparr>))
     else if starts_with ''uid='' p then
       (if length (drop 4 p) > 10 then Some (False, w)
        else Some (True, w\<lparr>uid := u32 (number (drop 4 p))\<rparr>))
     else if starts_with ''gid='' p then
       (if length (drop 4 p) > 10 then Some (False, w)
        else Some (True, w\<lparr>gid := u32 (number (drop 4 p))\<rparr>))
     else if starts_with ''rmode='' p then
       (if length (drop 6 p) > 3 then Some (False, w)
        else Some (True, w\<lparr>root_mode := S_IFDIR OR (word_of_int (parse_mode (drop 6 mem)) AND S_IRWXUGO)\<rparr>))
     else if starts_with ''fd='' p then
       (if length (drop 3 p) > 5 then Some (False, w)
        else Some (True, w\<lparr>sock := fget (number (drop 3 p))\<rparr>))
     else if starts_with ''version='' p then
       (if length (drop 8 p) > 5 then Some (False, w)
        else Some (True, w\<lparr>version := number (drop 8 p)\<rparr>))
     else Some (True, w))"

lemma strsep_shorter:
  assumes "strsep d s = (p, Some r)" shows "length r < length s"
proof -
  from assms obtain c where "dropWhile (\<lambda>c. c \<noteq> d) s = c # r"
    by (auto simp: strsep_def split: list.splits)
  then show ?thesis using length_dropWhile_le [of "\<lambda>c. c \<noteq> d" s] by simp
qed

text \<open>The loop \<open>while ((p = strsep (&opts, ",")))\<close>.\<close>

function options_loop ::
  "(int \<Rightarrow> 'f option) \<Rightarrow> string option \<Rightarrow> 'f world \<Rightarrow> (int \<times> 'f world) option" where
  "options_loop fget None w = Some (0, w)"
| "options_loop fget (Some s) w =
    (case strsep (CHR '','') s of (p, rest) \<Rightarrow>
      (case set_option fget p (p @ [NUL] @ (case rest of None \<Rightarrow> [] | Some r \<Rightarrow> r)) w of
         None \<Rightarrow> None
       | Some (ok, w1) \<Rightarrow> if \<not> ok then Some (- 1, w1) else options_loop fget rest w1))"
  by pat_completeness auto

termination
  by (relation "measure (\<lambda>(_, opts, _). case opts of None \<Rightarrow> 0 | Some s \<Rightarrow> Suc (length s))")
    (auto split: option.splits dest: strsep_shorter [OF sym])

definition parse_options ::
  "(int \<Rightarrow> 'f option) \<Rightarrow> 'f world \<Rightarrow> string option \<Rightarrow> (int \<times> 'f world) option" where
  "parse_options fget w opts =
    (case opts of None \<Rightarrow> Some (- 1, w) | Some s \<Rightarrow> options_loop fget (Some s) w)"

section \<open>Properties\<close>

lemma bit_count_bounds: "n < 2 ^ bit_count n \<and> (n \<noteq> 0 \<longrightarrow> 2 ^ (bit_count n - 1) \<le> n)"
proof (induction n rule: bit_count.induct)
  case (1 n)
  show ?case
  proof (cases "n = 0")
    case True
    then show ?thesis by (simp add: bit_count.simps)
  next
    case False
    let ?b = "bit_count (n div 2)"
    have b: "bit_count n = ?b + 1" using False by (simp add: bit_count.simps [of n])
    from 1 False have IH: "n div 2 < 2 ^ ?b" "n div 2 \<noteq> 0 \<longrightarrow> 2 ^ (?b - 1) \<le> n div 2" by simp_all
    have "n < 2 ^ (?b + 1)" using IH(1) by simp
    moreover have "2 ^ ?b \<le> n"
    proof (cases "n div 2 = 0")
      case True
      then have "?b = 0" by (simp add: bit_count.simps)
      with False show ?thesis by simp
    next
      case nz: False
      then have "?b = Suc (?b - 1)" by (simp add: bit_count.simps [of "n div 2"])
      then have "(2 :: nat) ^ ?b = 2 * 2 ^ (?b - 1)" by (metis power_Suc)
      with IH(2) nz show ?thesis by simp
    qed
    ultimately show ?thesis by (simp add: b)
  qed
qed

text \<open>A text of digits as a number, and a bound for a number of at most five digits.\<close>

lemma number_dec: "n < 2147483648 \<Longrightarrow> number (dec n) = int n"
  using strtoul_dec(1) [of n "[]"] by (simp add: number_def)

text \<open>
  \<open>cachesize=n\<close> sets the size to the least power of two of pages that holds \<open>n\<close> pages.
\<close>

lemma set_cachesize:
  assumes "0 < n" and "n < 100000"
  shows "\<exists>k. set_option fget (''cachesize='' @ dec n) mem w =
      Some (True, w\<lparr>fcache_size := int (2 ^ k * PAGE_SIZE)\<rparr>) \<and>
      n \<le> 2 ^ k \<and> (1 < n \<longrightarrow> 2 ^ k < 2 * n) \<and> 2 ^ k * PAGE_SIZE < 2147483648"
proof -
  define k where "k = bit_count (n - 1)"
  have k: "n - 1 < 2 ^ k" "n - 1 \<noteq> 0 \<longrightarrow> 2 ^ (k - 1) \<le> n - 1"
    using bit_count_bounds [of "n - 1"] by (simp_all add: k_def)
  have le: "2 ^ k < 2 * n \<or> n = 1"
  proof (cases "n = 1")
    case False
    then have "k \<noteq> 0" using k(1) assms by (cases k) auto
    then obtain j where "k = Suc j" by (cases k) auto
    with k(2) False assms show ?thesis by simp
  qed simp
  have k17: "k < 18"
  proof (rule ccontr)
    assume "\<not> k < 18"
    then have "(2 :: nat) ^ 18 \<le> 2 ^ k" by (intro power_increasing) simp_all
    then show False using le assms by (auto simp: k_def bit_count.simps)
  qed
  then have "(2 :: nat) ^ k \<le> 2 ^ 17" by (intro power_increasing) simp_all
  then have small: "2 ^ k * PAGE_SIZE < (2147483648 :: nat)" by simp
  then have s32: "s32 (int (2 ^ k * PAGE_SIZE)) = int (2 ^ k * PAGE_SIZE)"
    by (intro s32_id) linarith+
  have len: "length (dec n) \<le> 5" using assms by (intro dec_length) simp_all
  have "shift_loop (number (dec n) - 1) = Some k"
    using assms by (simp add: number_dec shift_loop_def k_def nat_diff_distrib)
  then have "set_option fget (''cachesize='' @ dec n) mem w =
      Some (True, w\<lparr>fcache_size := int (2 ^ k * PAGE_SIZE)\<rparr>)"
    using len by (simp add: set_option_def starts_with_def s32 del: of_nat_mult)
  with k(1) le small assms show ?thesis by (intro exI [of _ k]) auto
qed


text \<open>
  Options match by prefix: anything that begins with a known name is that option, whatever
  follows.
\<close>

lemma preserve_prefix:
  "set_option fget (''preserve'' @ s) mem w = Some (True, w\<lparr>preserve_own := True\<rparr>)"
  "set_option fget (''suid'' @ s) mem w = Some (True, w\<lparr>fmask := fmask w OR (S_ISUID OR S_ISGID)\<rparr>)"
  by (simp_all add: set_option_def starts_with_def)

text \<open>A list of options is the sequence of its elements.\<close>

lemma options_loop_app:
  assumes "CHR '','' \<notin> set p"
  shows "options_loop fget (Some (p @ CHR '','' # s)) w =
    (case set_option fget p (p @ [NUL] @ s) w of None \<Rightarrow> None
     | Some (ok, w1) \<Rightarrow> if \<not> ok then Some (- 1, w1) else options_loop fget (Some s) w1)"
    and "options_loop fget (Some p) w =
    (case set_option fget p (p @ [NUL]) w of None \<Rightarrow> None
     | Some (ok, w1) \<Rightarrow> if \<not> ok then Some (- 1, w1) else Some (0, w1))"
proof -
  have "takeWhile (\<lambda>c. c \<noteq> CHR '','') (p @ CHR '','' # s) = p"
    "dropWhile (\<lambda>c. c \<noteq> CHR '','') (p @ CHR '','' # s) = CHR '','' # s"
    using assms by (auto intro: takeWhile_append2 [THEN trans] dropWhile_append2 [THEN trans])
  then have "strsep (CHR '','') (p @ CHR '','' # s) = (p, Some s)" by (simp add: strsep_def)
  then show "options_loop fget (Some (p @ CHR '','' # s)) w =
    (case set_option fget p (p @ [NUL] @ s) w of None \<Rightarrow> None
     | Some (ok, w1) \<Rightarrow> if \<not> ok then Some (- 1, w1) else options_loop fget (Some s) w1)"
    by (simp split: option.splits prod.splits)
  have "takeWhile (\<lambda>c. c \<noteq> CHR '','') p = p" "dropWhile (\<lambda>c. c \<noteq> CHR '','') p = []"
    using assms by (auto simp: takeWhile_eq_all_conv dropWhile_eq_Nil_conv)
  then have "strsep (CHR '','') p = (p, None)" by (simp only: strsep_def list.case)
  then show "options_loop fget (Some p) w =
    (case set_option fget p (p @ [NUL]) w of None \<Rightarrow> None
     | Some (ok, w1) \<Rightarrow> if \<not> ok then Some (- 1, w1) else Some (0, w1))"
    by (simp split: option.splits prod.splits)
qed

end
