(* ===== verification/ShellSafe.thy ===== *)
theory ShellSafe
  imports Shell FCacheLimits
begin

text \<open>
  \<open>shell.c\<close> is a remote side as the memory safety of the file cache needs it, whatever the server
  answers: it never changes the size of the cache, and a read stores and reports at most the
  bytes asked for. The only assumption is that the kernel stores no more than the size of the
  buffer it is given.
\<close>

definition bounded_io :: "'f sockops \<Rightarrow> bool" where
  "bounded_io so \<longleftrightarrow> (\<forall>f n. length (fst (snd (do_sync_read so f n))) \<le> n)"

lemma bounded_ioD: "bounded_io so \<Longrightarrow> do_sync_read so f n = (r, bs, f') \<Longrightarrow> length bs \<le> n"
  unfolding bounded_io_def by (metis fst_conv snd_conv)

lemma s32_le: "0 \<le> i \<Longrightarrow> s32 i \<le> i"
  using zmod_le_nonneg_dividend [of i 4294967296] by (simp add: s32_def Let_def)

named_theorems size_simps \<open>operations that leave the size of the cache alone\<close>

lemma sigpipe_fix_size [size_simps]: "fcache_size (snd (sigpipe_fix w p r)) = fcache_size w"
  by (simp add: sigpipe_fix_def)

lemma set_garbage_size [size_simps]: "fcache_size (set_garbage w b n) = fcache_size w"
  by (simp add: set_garbage_def Let_def)

lemma unlock_size [size_simps]: "fcache_size (sock_unlock w) = fcache_size w"
  by (simp add: sock_unlock_def)

lemma sigpipe_fix_sizeD: "sigpipe_fix w p r = (r', w') \<Longrightarrow> fcache_size w' = fcache_size w"
  using sigpipe_fix_size [of w p r] by simp

lemma sock_send_size: "sock_send so w bs = (r, w') \<Longrightarrow> fcache_size w' = fcache_size w"
  by (auto simp: sock_send_def Let_def size_simps dest!: sigpipe_fix_sizeD
      split: option.splits prod.splits if_splits)

lemma sock_recv_size: "sock_recv so w n = (r, bs, w') \<Longrightarrow> fcache_size w' = fcache_size w"
  by (auto simp: sock_recv_def Let_def size_simps dest!: sigpipe_fix_sizeD
      split: option.splits prod.splits if_splits)

lemma sock_recv_bound:
  assumes "bounded_io so" and "sock_recv so w n = (r, bs, w')"
  shows "length bs \<le> n" and "r \<le> int n"
proof -
  show "length bs \<le> n"
  proof (cases "sock w")
    case (Some f)
    define c where "c = (if n > length (readlnbuf w) then length (readlnbuf w) else n)"
    have c: "c \<le> n" "c \<le> length (readlnbuf w)" by (auto simp: c_def)
    obtain r0 b f1 where io: "do_sync_read so f (n - c) = (r0, b, f1)" by (metis prod_cases3)
    have "bs = take c (readlnbuf w) \<or> bs = take c (readlnbuf w) @ b"
      using assms(2) Some io unfolding sock_recv_def
      by (auto simp: Let_def c_def [symmetric] split: prod.splits if_splits)
    with c bounded_ioD [OF assms(1) io] show ?thesis by auto
  qed (use assms(2) in \<open>simp add: sock_recv_def\<close>)
  have "r = int n \<or> r < 0"
    using assms(2) by (auto simp: sock_recv_def Let_def split: option.splits prod.splits if_splits)
  then show "r \<le> int n" by auto
qed

lemma readln_loop_size:
  assumes "readln_loop so count l buffer w = Some (r, line, w')"
  shows "fcache_size w' = fcache_size w"
proof -
  let ?P = "\<lambda>so count l buffer w r. fcache_size (snd (snd r)) = fcache_size (w :: 'a world)"
  have "?P so count l buffer w (r, line, w')"
  proof (rule readln_loop.raw_induct [where P = ?P, OF _ assms])
    fix rec and so :: "'a sockops" and count l buffer and w :: "'a world" and r
    assume IH: "\<And>so count l buffer w r. rec so count l buffer w = Some r \<Longrightarrow>
        fcache_size (snd (snd r)) = fcache_size (w :: 'a world)"
      and eq: "(case sock w of None \<Rightarrow> Some (- EIO, buffer, w)
        | Some f \<Rightarrow>
          (if NL \<in> set (readlnbuf w) then
             let line = takeWhile (\<lambda>c. c \<noteq> NL) (readlnbuf w);
                 buffer1 = take (count - 1) (c_str line)
             in Some (int (length buffer1), buffer1,
                      w\<lparr>readlnbuf := drop (length line + 1) (readlnbuf w)\<rparr>)
           else let c = READLNBUF_SIZE - length (readlnbuf w) in
             if c = 0 then
               rec so count l buffer (w\<lparr>readlnbuf := (readlnbuf w)[READLNBUF_SIZE - 1 := NL]\<rparr>)
             else (case do_sync_read so f c of (result0, bs, f1) \<Rightarrow>
               case sigpipe_fix w False result0 of (result1, w1) \<Rightarrow>
                 let result = (if result1 = 0 then - EIO else result1) in
                 if result = - EAGAIN then rec so count l buffer (w1\<lparr>sock := Some f1\<rparr>)
                 else if result < 0 then
                   Some (result, buffer, set_garbage (w1\<lparr>sock := None\<rparr>) False (int c))
                 else let w2 = w1\<lparr>sock := Some f1, readlnbuf := readlnbuf w @ bs\<rparr> in
                   if l > READLNBUF_SIZE \<and> readlnbuf w2 = [] then Some (- EINVAL, buffer, w2)
                   else rec so count (l + 1) buffer w2))) = Some r"
    show "fcache_size (snd (snd r)) = fcache_size w"
    proof (cases "sock w")
      case None
      with eq show ?thesis by auto
    next
      case (Some f)
      show ?thesis
      proof (cases "NL \<in> set (readlnbuf w)")
        case True
        with eq Some show ?thesis by (auto simp: Let_def)
      next
        case False
        define c where "c = READLNBUF_SIZE - length (readlnbuf w)"
        obtain r0 bs f1 where io: "do_sync_read so f c = (r0, bs, f1)" by (metis prod_cases3)
        obtain r1 w1 where fx: "sigpipe_fix w False r0 = (r1, w1)" by fastforce
        note sz = sigpipe_fix_sizeD [OF fx]
        note eq1 = eq [unfolded Some option.case if_not_P [OF False] Let_def c_def [symmetric] io prod.case fx]
        show ?thesis
          using eq1 sz by (auto simp: size_simps split: if_splits dest!: IH)
      qed
    qed
  qed
  then show ?thesis by simp
qed

lemma clear_write_size: "clear_write so g w = (r, w') \<Longrightarrow> fcache_size w' = fcache_size w"
proof (induction so g w arbitrary: r w' rule: clear_write.induct)
  case (1 so g w)
  show ?case
  proof (cases "g = 0")
    case True
    with "1.prems" show ?thesis by (simp add: clear_write.simps)
  next
    case False
    define c where "c = (if g < 256 then g else 256)"
    obtain r1 w1 where s: "sock_send so (w\<lparr>garbage := False\<rparr>) (replicate c SP) = (r1, w1)" by fastforce
    note sz = sock_send_size [OF s]
    have "clear_write so g w =
        (if r1 < 0 then (r1, w1\<lparr>garbage_write := int g\<rparr>) else clear_write so (g - c) w1)"
      using False s by (subst clear_write.simps) (simp only: Let_def c_def [symmetric] prod.case if_False)
    with "1.prems" sz "1.IH" [OF False c_def s [symmetric]] show ?thesis
      by (auto split: if_splits)
  qed
qed

lemma clear_read_size: "clear_read so g w = (r, w') \<Longrightarrow> fcache_size w' = fcache_size w"
proof (induction so g w arbitrary: r w' rule: clear_read.induct)
  case (1 so g w)
  show ?case
  proof (cases "g = 0")
    case True
    with "1.prems" show ?thesis by (simp add: clear_read.simps)
  next
    case False
    define c where "c = (if g < 256 then g else 256)"
    obtain r1 bs w1 where s: "sock_recv so (w\<lparr>garbage := False\<rparr>) c = (r1, bs, w1)" by (metis prod_cases3)
    note sz = sock_recv_size [OF s]
    have "clear_read so g w =
        (if r1 < 0 then (r1, w1\<lparr>garbage_read := int g\<rparr>) else clear_read so (g - c) w1)"
      using False s by (subst clear_read.simps) (simp only: Let_def c_def [symmetric] prod.case if_False)
    with "1.prems" sz "1.IH" [OF False c_def s [symmetric] refl] show ?thesis
      by (auto split: if_splits)
  qed
qed

lemma ping_loop_size: "ping_loop so n st res b w = Some (r, w') \<Longrightarrow> fcache_size w' = fcache_size w"
proof (induction so n st res b w arbitrary: r w' rule: ping_loop.induct)
  case (1 so n st res b w)
  show ?case
  proof (cases "n = 0")
    case True
    with "1.prems" show ?thesis by (auto simp: ping_loop.simps)
  next
    case False
    with "1.prems" obtain r1 b1 w1 where
      l: "readln_loop so 256 0 b (w\<lparr>garbage := False\<rparr>) = Some (r1, b1, w1)"
      and k: "(if r1 < 0 then Some (r1, w1\<lparr>garbage := True\<rparr>)
       else (case ping_step st b1 of None \<Rightarrow> Some (0, w1)
         | Some state1 \<Rightarrow> ping_loop so (n - 1) state1 r1 b1 w1)) = Some (r, w')"
      by (subst (asm) ping_loop.simps) (auto elim!: bind_SomeE)
    from readln_loop_size [OF l] k "1.IH" [OF False l refl refl] show ?thesis
      by (auto split: if_splits option.splits)
  qed
qed

lemma clear_garbage_size:
  assumes "clear_garbage so w = Some (r, w')"
  shows "fcache_size w' = fcache_size w"
proof -
  obtain r1 w1 where a: "clear_write so (nat (garbage_write w)) w = (r1, w1)" by fastforce
  obtain r2 w2 where b: "clear_read so (nat (garbage_read w1)) (w1\<lparr>garbage_write := 0\<rparr>) = (r2, w2)"
    by fastforce
  obtain r3 w3 where c: "sock_send so (w2\<lparr>garbage_read := 0, garbage := False\<rparr>) ping = (r3, w3)"
    by fastforce
  show ?thesis
    using assms clear_write_size [OF a] clear_read_size [OF b] sock_send_size [OF c]
    by (auto simp: clear_garbage_def a b c split: if_splits dest!: ping_loop_size)
qed

lemma resync_size: "resync so w = Some (r, w') \<Longrightarrow> fcache_size w' = fcache_size w"
  by (auto simp: resync_def split: if_splits dest: clear_garbage_size)

lemma sock_write_size: "sock_write so w bs = Some (r, w') \<Longrightarrow> fcache_size w' = fcache_size w"
  by (auto simp: sock_write_def split: if_splits elim!: bind_SomeE dest!: resync_size sock_send_size)

lemma sock_readln_size: "sock_readln so w b n = Some (r, b', w') \<Longrightarrow> fcache_size w' = fcache_size w"
  by (auto simp: sock_readln_def split: if_splits elim!: bind_SomeE dest!: resync_size readln_loop_size)

lemma sock_read_size:
  assumes "sock_read so w n = Some (r, bs, w')"
  shows "fcache_size w' = fcache_size w" and "bounded_io so \<Longrightarrow> length bs \<le> n \<and> r \<le> int n"
proof -
  consider "sock w = None" "r = - EIO" "bs = []" "w' = w"
    | r1 w1 where "resync so w = Some (r1, w1)" "r1 < 0" "r = r1" "bs = []" "w' = w1"
    | r1 w1 where "resync so w = Some (r1, w1)" "sock_recv so w1 n = (r, bs, w')"
    using assms by (auto simp: sock_read_def split: if_splits elim!: bind_SomeE)
  note cs = this
  show "fcache_size w' = fcache_size w"
    using cs by cases (auto dest!: resync_size sock_recv_size)
  show "length bs \<le> n \<and> r \<le> int n" if "bounded_io so"
    using cs by cases (auto dest: sock_recv_bound [OF that])
qed

lemma locked_size:
  assumes "locked w x body = Some (r, a, w')"
    and "\<And>v r a v'. body v = Some (r, a, v') \<Longrightarrow> fcache_size v' = fcache_size v"
  shows "fcache_size w' = fcache_size w"
  using assms(1) unfolding locked_def
  by (auto simp: sock_lock_def sock_unlock_def split: if_splits elim!: bind_SomeE dest: assms(2))

text \<open>What a locked body answers, whatever the lock does.\<close>

lemma locked_result:
  assumes "locked w x body = Some (r, a, w')"
  shows "r = - EINTR \<and> a = x \<or> (\<exists>v v'. body v = Some (r, a, v'))"
  using assms unfolding locked_def by (auto split: if_splits elim!: bind_SomeE)

lemma read_data_safe:
  assumes "read_data so w b n = Some (r, bs, w')"
  shows "fcache_size w' = fcache_size w"
    and "bounded_io so \<Longrightarrow> length bs \<le> n \<and> r \<le> int n"
proof -
  obtain q bs1 w1 where q: "sock_read so w n = Some (q, bs1, w1)"
    and k: "(if q < 0 then Some (q, bs1, w1)
     else do {
       (result, line, w2) \<leftarrow> sock_readln so w1 b SOCKBUF_SIZE;
       if result < 0 then Some (result, bs1, w2)
       else if reply line = REP_COMPLETE then Some (s32 (int n), bs1, w2)
       else if reply line = REP_EPERM then Some (- EPERM, bs1, w2)
       else if reply line = REP_ENOENT then Some (- ENOENT, bs1, w2)
       else Some (- EIO, bs1, w2)
     }) = Some (r, bs, w')"
    using assms unfolding read_data_def by (elim bind_SomeE) (auto split: prod.splits)
  show "fcache_size w' = fcache_size w"
    using k sock_read_size(1) [OF q]
    by (auto split: if_splits elim!: bind_SomeE dest!: sock_readln_size)
  assume bd: "bounded_io so"
  show "length bs \<le> n \<and> r \<le> int n"
    using k sock_read_size(2) [OF q bd] s32_le [of "int n"] by (auto split: if_splits elim!: bind_SomeE)
qed

text \<open>Whatever the server answers, a read and a write of \<open>shell.c\<close> are what the cache relies on.\<close>

lemma shell_read_safe:
  assumes so: "bounded_io so" and r: "shell_read so w name off n 0 = Some (r, name', bs, w')"
  shows "fcache_size w' = fcache_size w \<and> r \<le> int n \<and> length bs \<le> n"
proof -
  obtain ok file1 where cp: "check_path name = (ok, file1)" by fastforce
  show ?thesis
  proof (cases ok)
    case False
    with r show ?thesis by (auto simp: shell_read_def cp)
  next
    case True
    let ?body = "\<lambda>w. case command_head w ''s_read'' of
            None \<Rightarrow> Some (- ENAMETOOLONG, [], w)
          | Some s \<Rightarrow>
             let sockbuf = s @ take (room s) (read_args file1 off n 0) in do {
               (result, w1) \<leftarrow> sock_write so w sockbuf;
               if result < 0 then Some (result, [], w1)
               else do {
                 (result, line, w2) \<leftarrow> sock_readln so w1 sockbuf SOCKBUF_SIZE;
                 if result < 0 then Some (result, [], set_garbage w2 False (s32 (int n)))
                 else if reply line = REP_EPERM then Some (- EPERM, [], w2)
                 else if reply line = REP_ENOENT then Some (- ENOENT, [], w2)
                 else if reply line \<noteq> REP_PRELIM
                   then Some (- EIO, [], set_garbage w2 False (s32 (int n)))
                 else read_data so w2 line n
               }
             }"
    have l: "locked w [] ?body = Some (r, bs, w')"
      using r True unfolding shell_read_def cp simp_thms if_False prod.case by (auto elim!: bind_SomeE)
    have body: "fcache_size v' = fcache_size v \<and> q \<le> int n \<and> length b \<le> n"
      if b: "?body v = Some (q, b, v')" for v q b v'
    proof (cases "command_head v ''s_read''")
      case None
      with b show ?thesis by auto
    next
      case (Some s)
      let ?sb = "s @ take (room s) (read_args file1 off n 0)"
      from b Some obtain q1 w1 where s1: "sock_write so v ?sb = Some (q1, w1)"
        and k: "(if q1 < 0 then Some (q1, [], w1) else do {
                 (result, line, w2) \<leftarrow> sock_readln so w1 ?sb SOCKBUF_SIZE;
                 if result < 0 then Some (result, [], set_garbage w2 False (s32 (int n)))
                 else if reply line = REP_EPERM then Some (- EPERM, [], w2)
                 else if reply line = REP_ENOENT then Some (- ENOENT, [], w2)
                 else if reply line \<noteq> REP_PRELIM
                   then Some (- EIO, [], set_garbage w2 False (s32 (int n)))
                 else read_data so w2 line n
               }) = Some (q, b, v')"
        by (auto simp: Let_def elim!: bind_SomeE)
      show ?thesis
      proof (cases "q1 < 0")
        case True
        with k sock_write_size [OF s1] show ?thesis by auto
      next
        case False
        with k obtain q2 line w2 where s2: "sock_readln so w1 ?sb SOCKBUF_SIZE = Some (q2, line, w2)"
          and k2: "(if q2 < 0 then Some (q2, [], set_garbage w2 False (s32 (int n)))
                 else if reply line = REP_EPERM then Some (- EPERM, [], w2)
                 else if reply line = REP_ENOENT then Some (- ENOENT, [], w2)
                 else if reply line \<noteq> REP_PRELIM
                   then Some (- EIO, [], set_garbage w2 False (s32 (int n)))
                 else read_data so w2 line n) = Some (q, b, v')"
          by (auto elim!: bind_SomeE)
        have sz: "fcache_size w2 = fcache_size v"
          using sock_write_size [OF s1] sock_readln_size [OF s2] by simp
        show ?thesis
        proof (cases "read_data so w2 line n = Some (q, b, v')")
          case True
          from read_data_safe [OF this] so sz show ?thesis by simp
        next
          case False
          with k2 sz show ?thesis by (auto simp: size_simps split: if_splits)
        qed
      qed
    qed
    have "fcache_size w' = fcache_size w"
      by (rule locked_size [OF l]) (use body in blast)
    moreover have "r \<le> int n \<and> length bs \<le> n"
      using locked_result [OF l] body by fastforce
    ultimately show ?thesis by simp
  qed
qed

lemma write_data_size: "write_data so w b d = Some (r, w') \<Longrightarrow> fcache_size w' = fcache_size w"
  by (auto simp: write_data_def size_simps split: if_splits elim!: bind_SomeE
      dest!: sock_write_size sock_readln_size)

lemma shell_write_safe:
  assumes r: "shell_write so w name off n buf ino = Some (r, name', w')"
  shows "fcache_size w' = fcache_size w"
proof -
  obtain ok file1 where cp: "check_path name = (ok, file1)" by fastforce
  show ?thesis
  proof (cases "ok \<and> u32 (fcache_size w) \<noteq> 0")
    case False
    with r show ?thesis by (auto simp: shell_write_def cp split: if_splits)
  next
    case True
    define args where "args = (case (if off mod u32 (fcache_size w) = 0
      then (off div u32 (fcache_size w), u32 (fcache_size w)) else (off, 1)) of
        (o2, bs) \<Rightarrow> write_args file1 off n bs o2 ino)"
    let ?body = "\<lambda>w. case command_head w ''s_write'' of None \<Rightarrow> Some (- ENAMETOOLONG, (), w)
          | Some s \<Rightarrow>
             let sockbuf = s @ take (room s) args in do {
               (result, w1) \<leftarrow> sock_write so w sockbuf;
               if result < 0 then Some (result, (), w1)
               else do {
                 (result, line, w2) \<leftarrow> sock_readln so w1 sockbuf SOCKBUF_SIZE;
                 if result < 0 then Some (result, (), set_garbage w2 True (s32 (int n)))
                 else if reply line = REP_EPERM then Some (- EPERM, (), w2)
                 else if reply line = REP_ENOENT then Some (- ENOENT, (), w2)
                 else if reply line \<noteq> REP_PRELIM then Some (- EIO, (), w2)
                 else do {
                   (result, w3) \<leftarrow> write_data so w2 line (take n buf);
                   Some (result, (), w3)
                 }
               }
             }"
    have l: "locked w () ?body = Some (r, (), w')"
      using r True unfolding shell_write_def cp args_def
      by (auto simp: Let_def split: prod.splits if_splits elim!: bind_SomeE)
    show ?thesis
    proof (rule locked_size [OF l])
      fix v q a v'
      assume "?body v = Some (q, a, v')"
      then show "fcache_size v' = fcache_size v"
        by (auto simp: size_simps Let_def split: option.splits if_splits elim!: bind_SomeE
            dest!: sock_write_size sock_readln_size write_data_size)
    qed
  qed
qed

lemma shell_keeps_size:
  assumes "bounded_io so"
  shows "keeps_size (shell_fops so mktime)"
  using shell_read_safe [OF assms] shell_write_safe unfolding keeps_size_def shell_fops_def
  by simp blast

end
