(* ===== verification/Example.thy ===== *)
theory Example
  imports EndToEnd FileOps Attr Options ShellSafe
begin

text \<open>
  A concrete mount on which the properties are instantiated: a Perl server with one file, an
  open connection to it, an allocator that never fails, and the file's dentry. Also the names
  under which the properties speak of the module over the Perl server.
\<close>

section \<open>The module over the Perl server\<close>

definition remote_ok :: "perl_conn world \<Rightarrow> string \<Rightarrow> bool" where
  "remote_ok w name \<longleftrightarrow> server_good pc_out pc_peer perl_ready perl_bytes w name"

definition remote_bytes :: "perl_conn world \<Rightarrow> string \<Rightarrow> nat \<Rightarrow> char" where
  "remote_bytes w name = server_content pc_peer perl_bytes w name"

text \<open>The connection is idle and the server in state \<open>p\<close>; a command may be sent.\<close>

definition perl_at :: "perl_conn world \<Rightarrow> perl \<Rightarrow> bool" where
  "perl_at w p \<longleftrightarrow> conn_at pc_out pc_peer w p [] \<and> perl_ready p (preserve_own w) \<and>
     \<not> shfs_mutex w \<and> creds_ok w"

definition legal_path :: "string \<Rightarrow> bool" where
  "legal_path name \<longleftrightarrow> NUL \<notin> set name \<and> length (quoted name) < SHFS_PATH_MAX"

section \<open>The example\<close>

definition ex_perl :: perl where
  "ex_perl = \<lparr>p_gl = gl_start, p_data = None, p_root = ''/home'', p_preserve = False,
     p_files = [''/home/f'' \<mapsto> ''hello'', ''/home/it's'' \<mapsto> ''x''], p_home = ''/home'', p_stable = False\<rparr>"

definition ex_conn :: perl_conn where
  "ex_conn = \<lparr>pc_out = [], pc_peer = ex_perl, pc_pos = 0\<rparr>"

definition ex_world :: "perl_conn world" where
  "ex_world = \<lparr>shfs_mutex = False, version = PROTO_VERSION, ttl = SHFS_DEFAULT_TTL, uid = 0, gid = 0,
     root_mode = S_IFDIR OR 0x1C0, fmask = 0xFFFF, mount_point = ''/mnt'', sock = Some ex_conn,
     readlnbuf = [], fcache_free = SHFS_FCACHE_MAX, fcache_size = 131072, garbage_read = 0,
     garbage_write = 0, garbage = False, readonly = False, preserve_own = False,
     stable_symlinks = False, cur_uid = 1000, cur_groups = [], sigpipe = False,
     signalled = False, now = 1672531200, debug_level = 0\<rparr>"

definition ex_time :: timespec where
  "ex_time = \<lparr>tv_sec = 1672531200, tv_nsec = 0\<rparr>"

definition ex_inode :: inode where
  "ex_inode = \<lparr>i_ino = 3, i_mode = 0x81A4, i_nlink = 1, i_uid = 0, i_gid = 0, i_rdev = 0, i_size = 5,
     i_blocks = 1, i_atime = ex_time, i_mtime = ex_time, i_ctime = ex_time,
     i_private = Some \<lparr>oldmtime = 0, unset_write_on_close = False, cache = None\<rparr>\<rparr>"

definition ex_dentry :: dentry where
  "ex_dentry = \<lparr>d_names = [''f''], d_inode = Some ex_inode\<rparr>"

definition ex_mm :: allocator where
  "ex_mm = \<lparr>kmem_ok = True, vmalloc = (\<lambda>n. Some (replicate n NUL))\<rparr>"

abbreviation ex_stk :: string where "ex_stk \<equiv> replicate SHFS_PATH_MAX NUL"
abbreviation ex_size :: nat where "ex_size \<equiv> 131072"

abbreviation "ex_so \<equiv> perl_so (\<lambda>_ p. ([], p))"
abbreviation "ex_fops \<equiv> shell_fops ex_so (\<lambda>_ _ _ _ _ _. 0)"

lemmas ex_defs = ex_world_def ex_conn_def ex_perl_def

lemma ex_creds: "creds_ok ex_world"
  by (simp add: creds_ok_def get_ugid_def ex_world_def)

lemma ex_at: "perl_at ex_world ex_perl"
  by (simp add: perl_at_def ex_creds) (simp add: conn_at_def perl_ready_def perl_idle_def ex_defs)

lemma ex_ok: "remote_ok ex_world ''/f''"
  by (simp add: remote_ok_def server_good_def ex_creds)
    (simp add: conn_at_def perl_ready_def perl_idle_def perl_bytes_def plain_path_def ex_defs u32_def)

lemma ex_fsize: "fsize_ok ex_size" "fcache_size ex_world = int ex_size"
  by (simp_all add: fsize_ok_def ex_world_def)

lemma ex_dentry_ok: "fd_ok ex_size ex_dentry f" "cache_of ex_dentry = None" "fd_name ex_dentry ex_stk ''/f''"
proof -
  show "fd_ok ex_size ex_dentry f" "cache_of ex_dentry = None"
    by (simp_all add: fd_ok_def cache_of_def ex_dentry_def ex_inode_def inode_info_ok_def S_ISDIR_def)
  have "c_str (snd (get_name [''f''] ex_stk)) = path_of [''f'']"
    by (rule get_name_fits) simp_all
  then show "fd_name ex_dentry ex_stk ''/f''" by (simp add: fd_name_def ex_dentry_def path_of_def)
qed

lemma ex_alloc: "can_alloc ex_mm ex_world ex_size" "kmem_ok ex_mm" "mem_sound ex_mm"
  "vmalloc ex_mm n = Some (replicate n NUL)" "0 < fcache_free ex_world"
  by (simp_all add: can_alloc_def ex_mm_def ex_world_def mem_sound_def)

lemma ex_bounded: "bounded_io ex_so"
  by (auto simp: bounded_io_def perl_so_def Let_def split: if_splits)

text \<open>The same file with three bytes written that are not sent yet.\<close>

definition ex_dirty :: shfs_file where
  "ex_dirty = \<lparr>fc_type = FCACHE_WRITE, fc_new = False, fc_offset = 0, fc_count = 3,
     fc_data = ''abc'' @ replicate 131069 NUL\<rparr>"

definition ex_info :: shfs_inode_info where
  "ex_info = \<lparr>oldmtime = 0, unset_write_on_close = False, cache = Some ex_dirty\<rparr>"

definition ex_dirty_dentry :: dentry where
  "ex_dirty_dentry = \<lparr>d_names = [''f''], d_inode = Some (ex_inode\<lparr>i_private := Some ex_info\<rparr>)\<rparr>"

text \<open>The lock is held and a signal is waiting.\<close>

lemma ex_held: "op_write ex_fops (ex_world\<lparr>shfs_mutex := True, signalled := True\<rparr>) ''/f'' o1 n buf ino =
    Some (- EINTR, ''/f'', ex_world\<lparr>shfs_mutex := True, signalled := True\<rparr>)"
  by (simp add: shell_fops_def shell_write_def locked_held check_path_ok quote_char_def) (simp add: ex_world_def u32_def)

text \<open>A peer that answers one byte at a time.\<close>

definition ex_short :: "string sockops" where
  "ex_short = \<lparr>do_sync_write = \<lambda>f bs. (- EPIPE, True, f), do_sync_read = \<lambda>f n. (int (min n 1), take n ''x'', f),
     f_pos = \<lambda>f. 0\<rparr>"

definition ex_short_world :: "string world" where
  "ex_short_world = \<lparr>shfs_mutex = False, version = PROTO_VERSION, ttl = SHFS_DEFAULT_TTL, uid = 0, gid = 0,
     root_mode = S_IFDIR OR 0x1C0, fmask = 0xFFFF, mount_point = ''/mnt'', sock = Some [],
     readlnbuf = [], fcache_free = SHFS_FCACHE_MAX, fcache_size = 131072, garbage_read = 0,
     garbage_write = 0, garbage = False, readonly = False, preserve_own = False,
     stable_symlinks = False, cur_uid = 1000, cur_groups = [], sigpipe = False,
     signalled = False, now = 1672531200, debug_level = 0\<rparr>"

definition ex_iattr :: iattr where
  "ex_iattr = \<lparr>ia_mode = None, ia_uid = Some 7, ia_gid = None, ia_size = None, ia_atime = None, ia_mtime = None\<rparr>"

end
