(* ===== verification/Instances.thy ===== *)
theory Instances
  imports Example
begin

text \<open>
  The properties that stand in the theories of the components, each applied on the concrete
  mount of \<open>Example\<close>, where its hypotheses hold.
\<close>

theorem get_name_result_witness:
  "if path_len [''b'', ''a''] < SHFS_PATH_MAX
    then fst (get_name [''b'', ''a''] ex_stk) = 1 \<and> c_str (snd (get_name [''b'', ''a''] ex_stk)) = path_of [''b'', ''a''] \<and>
      length (snd (get_name [''b'', ''a''] ex_stk)) = SHFS_PATH_MAX
    else get_name [''b'', ''a''] ex_stk = (0, ex_stk)"
  by (rule get_name_result) auto

theorem quote_in_place_witness:
  "if length (quoted ''it's'') < SHFS_PATH_MAX
    then fst (replace_quote (''it's'' @ NUL # replicate (SHFS_PATH_MAX - 5) NUL)) = 0 \<and>
      c_str (snd (replace_quote (''it's'' @ NUL # replicate (SHFS_PATH_MAX - 5) NUL))) = quoted ''it's'' \<and>
      length (snd (replace_quote (''it's'' @ NUL # replicate (SHFS_PATH_MAX - 5) NUL))) = SHFS_PATH_MAX
    else replace_quote (''it's'' @ NUL # replicate (SHFS_PATH_MAX - 5) NUL) = (- 1, ''it's'' @ NUL # replicate (SHFS_PATH_MAX - 5) NUL)"
  by (rule quote_in_place [OF _ refl]) simp_all

theorem strctime_date_witness:
  "\<exists>y m d h mi s. strctime ex_time = prec 4 y @ prec 2 (int m + 1) @ prec 2 d @ prec 2 h @ prec 2 mi
        @ ''.'' @ prec 2 s \<and>
      tv_sec ex_time = day_number y m d * 86400 + h * 3600 + mi * 60 + s \<and>
      1970 \<le> y \<and> m < 12 \<and> 1 \<le> d \<and> d \<le> month_lens y ! m \<and>
      0 \<le> h \<and> h < 24 \<and> 0 \<le> mi \<and> mi < 60 \<and> 0 \<le> s \<and> s < 60"
  by (rule strctime_date) (simp add: ex_time_def)

theorem get_ugid_no_groups_witness:
  "\<exists>s. get_ugid (ex_world\<lparr>preserve_own := True\<rparr>) 4000 = Some s \<and>
    s = [SP] @ sdec (s32 1000) @ [SP] @ [QUOTE, SP]"
proof -
  obtain s where s: "get_ugid (ex_world\<lparr>preserve_own := True\<rparr>) 4000 = Some s"
    by (cases "get_ugid (ex_world\<lparr>preserve_own := True\<rparr>) 4000")
      (auto simp: get_ugid_def ex_world_def sdec_def s32_def num_text.simps)
  from get_ugid_no_groups [OF _ _ _ s] s show ?thesis by (simp add: ex_world_def)
qed

theorem readahead_window_witness:
  "\<exists>c2 ra. readahead (int ex_size) \<lparr>fc_type = FCACHE_READ, fc_new = True, fc_offset = 0, fc_count = 0,
        fc_data = replicate ex_size NUL\<rparr> 4099 10 = Some (c2, ra) \<and> 0 < ra \<and> PAGE_SIZE dvd ra \<and>
    ra dvd 4099 - 4099 mod PAGE_SIZE \<and> fc_count c2 + ra \<le> ex_size \<and>
    (c2 = \<lparr>fc_type = FCACHE_READ, fc_new = True, fc_offset = 0, fc_count = 0,
        fc_data = replicate ex_size NUL\<rparr> \<and>
      fc_offset \<lparr>fc_type = FCACHE_READ, fc_new = True, fc_offset = 0, fc_count = 0,
        fc_data = replicate ex_size NUL\<rparr> + fc_count \<lparr>fc_type = FCACHE_READ, fc_new = True,
        fc_offset = 0, fc_count = 0, fc_data = replicate ex_size NUL\<rparr> = 4099 \<or>
     fc_offset c2 = 4099 - 4099 mod PAGE_SIZE \<and> fc_count c2 = 0) \<and>
    (\<forall>y z. hd_loop y z = gcd y z)"
  by (rule readahead_window [OF ex_fsize(1)]) (simp_all add: fc_wf_def)

theorem alloc_fcache_leaks_witness:
  "alloc_fcache \<lparr>kmem_ok = False, vmalloc = \<lambda>n. None\<rparr> ex_world =
    (None, ex_world\<lparr>fcache_free := fcache_free ex_world - 1\<rparr>)"
  by (rule alloc_fcache_leaks [OF ex_alloc(5)]) simp

theorem recv_short_witness:
  "\<exists>w'. sock_recv ex_short ex_short_world 4 = (int 4, ''x'', w') \<and> length ''x'' < (4 :: nat)"
  by (rule recv_short [where m = 1]) (simp_all add: ex_short_def ex_short_world_def)

theorem line_round_trip_witness:
  "\<exists>g. gl_feed gl_start (line_text [''s_rm'', ''/f'']) = Some g \<and> getline_step g NL = Inr [''s_rm'', ''/f'']"
  by (rule line_round_trip) (simp_all add: spells_def)



theorem set_cachesize_witness:
  "\<exists>k. set_option (\<lambda>_. None :: perl_conn option) (''cachesize='' @ dec 20) [] ex_world =
      Some (True, ex_world\<lparr>fcache_size := int (2 ^ k * PAGE_SIZE)\<rparr>) \<and>
      20 \<le> (2 :: nat) ^ k \<and> (1 < (20 :: nat) \<longrightarrow> 2 ^ k < 2 * (20 :: nat)) \<and> 2 ^ k * PAGE_SIZE < 2147483648"
  by (rule set_cachesize) simp_all


theorem notify_readonly_witness:
  "\<exists>r<0. shfs_notify_change ex_fops (\<lambda>_ _. 0) (\<lambda>_ _. 0) ex_stk (ex_world\<lparr>readonly := True\<rparr>) ex_dentry ex_inode ex_iattr =
     Some (r, ex_inode, ex_world\<lparr>readonly := True\<rparr>)"
  by (rule notify_readonly) simp

theorem sync_error_drops_witness:
  "fcache_file_sync ex_fops ex_stk (ex_world\<lparr>shfs_mutex := True, signalled := True\<rparr>) (Some ex_dirty_dentry) =
    Some (- EINTR, Some (set_cache ex_dirty_dentry (ex_inode\<lparr>i_private := Some ex_info\<rparr>) ex_info
      (Some (ex_dirty\<lparr>fc_type := FCACHE_READ, fc_count := 0\<rparr>))),
      ex_world\<lparr>shfs_mutex := True, signalled := True\<rparr>)"
  by (rule sync_error_drops [OF _ _ _ _ _ _ ex_held])
    (use ex_dentry_ok(3) in \<open>simp_all add: ex_dirty_dentry_def ex_inode_def ex_dirty_def
      ex_info_def inode_info_ok_def S_ISDIR_def fd_name_def ex_dentry_def\<close>)


theorem ioctl_keeps_old_bytes_witness:
  "\<exists>w'. shfs_ioctl (\<lambda>_. Some ex_conn) (ex_world\<lparr>readlnbuf := ''x'' @ NL # []\<rparr>) SHFS_IOC_NEWCONN 3 = (0, w') \<and>
    sock w' = Some ex_conn \<and>
    sock_readln ex_so w' [] 10 = Some (int (length ''x''), ''x'', w'\<lparr>readlnbuf := []\<rparr>)"
  by (rule ioctl_keeps_old_bytes) simp_all

end
