(* ===== verification/MountTool.thy ===== *)
theory MountTool
  imports World
begin

text \<open>
  The program \<open>shfsmount\<close> (\<open>src/tool/shfsmount.c\<close>), which runs with the rights of root: its arguments,
  the check of the options only root may use, the text of options it passes to the kernel, and the
  command that connects to the remote host. \<open>getopt_long\<close> has split the arguments; the accounts, the
  file system and \<open>realpath\<close> of the local host are parameters.
\<close>

section \<open>How the program ends, and its surroundings\<close>

text \<open>
  \<open>exit\<close> with a status, or a write behind the end of a buffer, after which anything may happen.
\<close>

datatype stop = Exit int | Overrun

record passwd =
  pw_name :: string
  pw_uid :: nat
  pw_gid :: nat

record host_env =
  getuid :: nat
  getgid :: nat
  getgroups :: "nat list"
  getpwuid :: "nat \<Rightarrow> passwd option"
  getpwnam :: "string \<Rightarrow> passwd option"
  getgrgid :: "nat \<Rightarrow> nat option"
  getgrnam :: "string \<Rightarrow> nat option"
  realpath :: "string \<Rightarrow> string option"
  dir_stat :: "string \<Rightarrow> (umode \<times> nat \<times> nat) option"

text \<open>\<open>strtol (s, &e, 10)\<close>: the value, cut to a \<open>long\<close>, and the rest of the text.\<close>

definition isspace :: "char \<Rightarrow> bool" where
  "isspace c \<longleftrightarrow> c = SP \<or> 9 \<le> (of_char c :: nat) \<and> (of_char c :: nat) \<le> 13"

definition strtol :: "string \<Rightarrow> int \<times> string" where
  "strtol s =
    (let t = dropWhile isspace s; neg = (take 1 t = ''-'');
         u = (if take 1 t = ''-'' \<or> take 1 t = ''+'' then drop 1 t else t);
         n = int (foldl (\<lambda>a c. a * 10 + digit_val c) 0 (takeWhile isdigit u))
     in if takeWhile isdigit u = [] then (0, s)
        else (if neg then max (- n) (- 9223372036854775808) else min n 9223372036854775807, dropWhile isdigit u))"

text \<open>
  \<open>strnconcat (buf, sizeof (buf), ...)\<close>: \<open>strncat\<close> appends at most \<open>n\<close> characters to each, but \<open>n\<close> is
  the size of the whole buffer and not the room that is left.
\<close>

definition strncat :: "nat \<Rightarrow> string \<Rightarrow> nat \<Rightarrow> string \<Rightarrow> stop + string" where
  "strncat k dst n s = (let r = dst @ take n s in if length r + 1 > k then Inl Overrun else Inr r)"

fun strnconcat :: "nat \<Rightarrow> string \<Rightarrow> string list \<Rightarrow> stop + string" where
  "strnconcat k dst [] = Inr dst"
| "strnconcat k dst (s # ss) =
    (case strncat k dst k s of Inl e \<Rightarrow> Inl e | Inr r \<Rightarrow> strnconcat k r ss)"

abbreviation BUFFER_MAX :: nat where "BUFFER_MAX \<equiv> 1024"
abbreviation MAXPATHLEN :: nat where "MAXPATHLEN \<equiv> 4096"

section \<open>The variables of the program\<close>

record shfsmount =
  m_root :: "string option"
  m_user :: "string option"
  m_host :: "string option"
  m_port :: "string option"
  cmd_template :: "string option"
  cmd_uid :: nat
  cmd_gid :: nat
  have_uid :: bool
  nomtab :: bool
  preserve :: bool
  stable :: bool
  options :: string
  persistent :: bool
  conn_type :: "string option"
  verbose :: nat

definition shfsmount_start :: shfsmount where
  "shfsmount_start = \<lparr>m_root = None, m_user = None, m_host = None, m_port = None, cmd_template = None,
     cmd_uid = 0, cmd_gid = 0, have_uid = False, nomtab = False, preserve = False, stable = False,
     options = ''version='' @ dec (nat PROTO_VERSION), persistent = False, conn_type = None, verbose = 0\<rparr>"

definition add_options :: "string list \<Rightarrow> shfsmount \<Rightarrow> stop + shfsmount" where
  "add_options ss m =
    (case strnconcat BUFFER_MAX (options m) ss of Inl e \<Rightarrow> Inl e | Inr r \<Rightarrow> Inr (m\<lparr>options := r\<rparr>))"

section \<open>Users and groups\<close>

text \<open>\<open>get_uid\<close> answers the user and his group; the number goes through a 32-bit \<open>uid_t\<close>.\<close>

definition get_uid :: "host_env \<Rightarrow> string \<Rightarrow> stop + nat \<times> nat" where
  "get_uid env s =
    (case strtol s of (i, e) \<Rightarrow>
     case (if s \<noteq> [] \<and> e = [] then getpwuid env (u32 i) else getpwnam env s) of
       None \<Rightarrow> Inl (Exit 2) | Some p \<Rightarrow> Inr (pw_uid p, pw_gid p))"

definition get_gid :: "host_env \<Rightarrow> string \<Rightarrow> stop + nat" where
  "get_gid env s =
    (case strtol s of (i, e) \<Rightarrow>
     case (if s \<noteq> [] \<and> e = [] then getgrgid env (u32 i) else getgrnam env s) of
       None \<Rightarrow> Inl (Exit 1) | Some g \<Rightarrow> Inr g)"

section \<open>The mount options\<close>

text \<open>
  One element of the list behind \<open>-o\<close>: the check for options of root, then the meaning. Names are
  compared whole in the check and by their beginning below.
\<close>

definition root_only :: "string \<Rightarrow> bool" where
  "root_only s \<longleftrightarrow> s = ''preserve'' \<or> starts_with ''cmd-user='' s \<or> starts_with ''uid='' s \<or>
     starts_with ''gid='' s \<or> s = ''suid'' \<or> s = ''dev''"

definition set_cmd_user :: "host_env \<Rightarrow> string \<Rightarrow> shfsmount \<Rightarrow> stop + shfsmount" where
  "set_cmd_user env s m =
    (if getuid env \<noteq> 0 then Inl (Exit 2)
     else case get_uid env s of Inl e \<Rightarrow> Inl e
       | Inr (u, g) \<Rightarrow> Inr (m\<lparr>cmd_uid := u, cmd_gid := g, have_uid := True\<rparr>))"

definition set_port :: "string \<Rightarrow> shfsmount \<Rightarrow> stop + shfsmount" where
  "set_port s m = (case strtol s of (i, e) \<Rightarrow> if i = 0 \<or> e \<noteq> [] then Inl (Exit 2) else Inr (m\<lparr>m_port := Some s\<rparr>))"

definition mount_option :: "host_env \<Rightarrow> string \<Rightarrow> shfsmount \<Rightarrow> stop + shfsmount" where
  "mount_option env s m =
    (if getuid env \<noteq> 0 \<and> root_only s then Inl (Exit 2)
     else if starts_with ''cmd-user='' s then set_cmd_user env (drop 9 s) m
     else if starts_with ''cmd='' s then Inr (m\<lparr>cmd_template := Some (drop 4 s)\<rparr>)
     else if starts_with ''port='' s then set_port (drop 5 s) m
     else if starts_with ''persistent'' s then Inr (m\<lparr>persistent := True\<rparr>)
     else if starts_with ''preserve'' s then add_options ['','', ''preserve''] (m\<lparr>preserve := True\<rparr>)
     else if starts_with ''type='' s then Inr (m\<lparr>conn_type := Some (drop 5 s)\<rparr>)
     else if starts_with ''stable'' s then Inr (m\<lparr>stable := True\<rparr>)
     else if starts_with ''uid='' s then
       (case get_uid env (drop 4 s) of Inl e \<Rightarrow> Inl e
        | Inr (u, _) \<Rightarrow> add_options ['','', ''uid='' @ dec u] m)
     else if starts_with ''gid='' s then
       (case get_gid env (drop 4 s) of Inl e \<Rightarrow> Inl e
        | Inr g \<Rightarrow> add_options ['','', ''gid='' @ dec g] m)
     else if s = ''user'' then
       (case getpwuid env (getuid env) of None \<Rightarrow> Inr m
        | Some p \<Rightarrow> add_options ['','', take (BUFFER_MAX - 1) (''user='' @ pw_name p)] m)
     else add_options ['','', s] m)"

fun mount_options :: "host_env \<Rightarrow> string list \<Rightarrow> shfsmount \<Rightarrow> stop + shfsmount" where
  "mount_options env [] m = Inr m"
| "mount_options env (s # ss) m =
    (case mount_option env s m of Inl e \<Rightarrow> Inl e | Inr m1 \<Rightarrow> mount_options env ss m1)"

section \<open>The arguments\<close>

text \<open>
  One option as \<open>getopt_long\<close> gives it, with its argument. \<open>-s\<close> has none but \<open>--stable\<close> has, and goes
  on into the case of \<open>-o\<close>.
\<close>

definition option_list :: "host_env \<Rightarrow> string option \<Rightarrow> shfsmount \<Rightarrow> stop + shfsmount" where
  "option_list env a m = (case a of None \<Rightarrow> Inr m | Some s \<Rightarrow> mount_options env (split_on (CHR '','') s) m)"

definition argument :: "host_env \<Rightarrow> char \<Rightarrow> string option \<Rightarrow> shfsmount \<Rightarrow> stop + shfsmount" where
  "argument env c a m =
    (let s = (case a of None \<Rightarrow> [] | Some s \<Rightarrow> s) in
     if c = CHR ''u'' then set_cmd_user env s m
     else if c = CHR ''c'' then Inr (m\<lparr>cmd_template := Some s\<rparr>)
     else if c = CHR ''P'' then set_port s m
     else if c = CHR ''p'' then Inr (m\<lparr>persistent := True\<rparr>)
     else if c = CHR ''n'' then Inr (m\<lparr>nomtab := True\<rparr>)
     else if c = CHR ''t'' then Inr (m\<lparr>conn_type := Some s\<rparr>)
     else if c = CHR ''s'' then option_list env a (m\<lparr>stable := True\<rparr>)
     else if c = CHR ''o'' then option_list env a m
     else if c = CHR ''v'' then Inr (m\<lparr>verbose := verbose m + 1\<rparr>)
     else if c = CHR ''V'' \<or> c = CHR ''h'' then Inl (Exit 0)
     else if c = CHR ''O'' \<or> c = CHR ''r'' then Inr m
     else if c = CHR ''?'' \<or> c = CHR '':'' then Inl (Exit 2)
     else Inl (Exit 1))"

fun arguments :: "host_env \<Rightarrow> (char \<times> string option) list \<Rightarrow> shfsmount \<Rightarrow> stop + shfsmount" where
  "arguments env [] m = Inr m"
| "arguments env ((c, a) # as) m =
    (case argument env c a m of Inl e \<Rightarrow> Inl e | Inr m1 \<Rightarrow> arguments env as m1)"

text \<open>The remote host: \<open>[[user@]host[:root]]\<close>, or a path alone.\<close>

definition remote_host :: "string \<Rightarrow> shfsmount \<Rightarrow> shfsmount" where
  "remote_host h m =
    (let (m1, h1) = (if CHR ''@'' \<in> set h
          then (m\<lparr>m_user := Some (takeWhile (\<lambda>c. c \<noteq> CHR ''@'') h)\<rparr>, tl (dropWhile (\<lambda>c. c \<noteq> CHR ''@'') h))
          else (m, h))
     in if CHR '':'' \<in> set h1
        then m1\<lparr>m_host := Some (takeWhile (\<lambda>c. c \<noteq> CHR '':'') h1), m_root := Some (tl (dropWhile (\<lambda>c. c \<noteq> CHR '':'') h1))\<rparr>
        else if take 1 h1 = ''/'' then m1\<lparr>m_host := None, m_root := Some h1\<rparr>
        else m1\<lparr>m_host := Some h1\<rparr>)"

definition fullpath :: "host_env \<Rightarrow> string \<Rightarrow> string option" where
  "fullpath env path = (if length path > MAXPATHLEN - 1 then None else realpath env path)"

abbreviation S_IRWXU :: umode where "S_IRWXU \<equiv> 0x1C0"
abbreviation S_IRWXG :: umode where "S_IRWXG \<equiv> 0x38"

text \<open>
  \<open>mount_ok\<close>: whether the user may mount there; \<open>dir_stat\<close> is \<open>chdir\<close> and \<open>lstat\<close>.
\<close>

definition mount_ok :: "host_env \<Rightarrow> string \<Rightarrow> bool" where
  "mount_ok env dir =
    (case dir_stat env dir of None \<Rightarrow> False
     | Some (mode, owner, grp) \<Rightarrow>
        if \<not> S_ISDIR mode then False
        else if getuid env = 0 then True
        else if getuid env = owner then mode AND S_IRWXU = S_IRWXU
        else grp \<in> set (getgid env # getgroups env) \<and> mode AND S_IRWXG = S_IRWXG)"

section \<open>The command that connects\<close>

text \<open>\<open>%u\<close>, \<open>%h\<close> and \<open>%P\<close> of the template are replaced by what is known; the loop over \<open>strsep\<close>.\<close>

lemma strsep_less: "strsep d s = (p, Some r) \<Longrightarrow> length r < length s"
proof -
  assume "strsep d s = (p, Some r)"
  then obtain c where "dropWhile (\<lambda>c. c \<noteq> d) s = c # r" by (auto simp: strsep_def split: list.splits)
  then show ?thesis using length_dropWhile_le [of "\<lambda>c. c \<noteq> d" s] by simp
qed

definition percent :: "shfsmount \<Rightarrow> string \<Rightarrow> string list \<times> string" where
  "percent m t =
    (let put = (\<lambda>x. case x of None \<Rightarrow> [] | Some s \<Rightarrow> [s])
     in case t of [] \<Rightarrow> ([''%''], t)
        | c # r \<Rightarrow> if c = CHR ''u'' then (put (m_user m), r)
                  else if c = CHR ''h'' then (put (m_host m), r)
                  else if c = CHR ''P'' then (put (m_port m), r)
                  else ([''%''], t))"

lemma percent_less:
  assumes "(s, Some r) = strsep d t"
  shows "length (snd (percent m r)) < length t"
proof -
  have "length (snd (percent m r)) \<le> length r" by (simp add: percent_def Let_def split: list.splits)
  with strsep_less [OF assms [symmetric]] show ?thesis by simp
qed

function expand :: "shfsmount \<Rightarrow> string \<Rightarrow> string option \<Rightarrow> stop + string" where
  "expand m cmd None = Inr cmd"
| "expand m cmd (Some t) =
    (case strsep (CHR ''%'') t of (s, r) \<Rightarrow>
     case strnconcat BUFFER_MAX cmd [s] of Inl e \<Rightarrow> Inl e
     | Inr cmd1 \<Rightarrow>
        (case r of None \<Rightarrow> Inr cmd1
         | Some r1 \<Rightarrow>
            (case strnconcat BUFFER_MAX cmd1 (fst (percent m r1)) of Inl e \<Rightarrow> Inl e
             | Inr cmd2 \<Rightarrow> expand m cmd2 (Some (snd (percent m r1))))))"
  by pat_completeness auto

termination
  by (relation "measure (\<lambda>(_, _, t). case t of None \<Rightarrow> 0 | Some s \<Rightarrow> Suc (length s))")
    (auto dest: percent_less)

definition ssh_command :: "shfsmount \<Rightarrow> string \<Rightarrow> string" where
  "ssh_command m h =
    (let str = (\<lambda>x. case x of None \<Rightarrow> [] | Some s \<Rightarrow> s)
     in take (BUFFER_MAX - 1) (''exec ssh '' @ (if m_port m = None then [] else ''-p '') @ str (m_port m) @ [SP] @
          (if m_user m = None then [] else ''-l '') @ str (m_user m) @ [SP] @ h @ [SP] @ ''/bin/sh''))"

definition connect_command :: "shfsmount \<Rightarrow> stop + string" where
  "connect_command m =
    (case cmd_template m of Some t \<Rightarrow> expand m [] (Some t)
     | None \<Rightarrow> (case m_host m of None \<Rightarrow> Inl (Exit 2) | Some h \<Rightarrow> Inr (ssh_command m h)))"

section \<open>The program up to the connection\<close>

text \<open>\<open>main\<close>, from the start to the connection: the state, the mount point and the command.\<close>

definition prepare ::
  "host_env \<Rightarrow> (char \<times> string option) list \<Rightarrow> string list \<Rightarrow> stop + shfsmount \<times> string \<times> string" where
  "prepare env args operands =
    (case arguments env args shfsmount_start of Inl e \<Rightarrow> Inl e
     | Inr m \<Rightarrow>
       (case operands of [] \<Rightarrow> Inl (Exit 1)
        | h # ds \<Rightarrow> let (m1, mnt0) = (case ds of [] \<Rightarrow> (m, h) | d # _ \<Rightarrow> (remote_host h m, d)) in
          (case fullpath env mnt0 of None \<Rightarrow> Inl (Exit 2)
           | Some mnt \<Rightarrow>
              if \<not> mount_ok env mnt then Inl (Exit 2)
              else case add_options ['',mnt='', mnt] m1 of Inl e \<Rightarrow> Inl e
              | Inr m2 \<Rightarrow>
                 (case (if verbose m2 = 0 then Inr m2 else add_options ['',debug='' @ dec (verbose m2)] m2) of
                    Inl e \<Rightarrow> Inl e
                  | Inr m3 \<Rightarrow> (case connect_command m3 of Inl e \<Rightarrow> Inl e | Inr cmd \<Rightarrow> Inr (m3, mnt, cmd))))))"

text \<open>The options of \<open>mount\<close>, once \<open>create_socket\<close> has given the descriptor of the connection.\<close>

definition mount_data :: "nat \<Rightarrow> shfsmount \<Rightarrow> stop + string" where
  "mount_data fd m =
    (case add_options ['',fd='' @ dec fd] m of Inl e \<Rightarrow> Inl e | Inr m1 \<Rightarrow> Inr (options m1))"

section \<open>The table of mounts\<close>

text \<open>
  \<open>/etc/mtab\<close> with its lock file: the entries (what is mounted, where, the options), whether the lock
  exists, and the file the new table is written to. \<open>mtab_io\<close> says which calls succeed: opening the table,
  (for unmounting) opening the new table, writing an entry or renaming the new table, setting the mode, and removing
  the lock. Every failure returns at once and leaves the lock.
\<close>

record mtab =
  mt_lock :: bool
  mt_entries :: "(string \<times> string \<times> string) list"
  mt_tmp :: "(string \<times> string \<times> string) list option"

record mtab_io =
  io_lock :: bool
  io_open :: bool
  io_open_new :: bool
  io_write :: bool
  io_mode :: bool
  io_unlock :: bool

definition add_mtab :: "mtab_io \<Rightarrow> string \<Rightarrow> string \<Rightarrow> string \<Rightarrow> mtab \<Rightarrow> bool \<times> mtab" where
  "add_mtab io mnt dev opts t =
    (if mt_lock t \<or> \<not> io_lock io then (False, t)
     else let t1 = t\<lparr>mt_lock := True\<rparr> in
       if \<not> io_open io then (False, t1)
       else if \<not> io_write io then (False, t1)
       else let t2 = t1\<lparr>mt_entries := mt_entries t1 @ [(dev, mnt, opts)]\<rparr> in
         if \<not> io_mode io then (False, t2)
         else if \<not> io_unlock io then (False, t2)
         else (True, t2\<lparr>mt_lock := False\<rparr>))"

definition remove_mtab :: "mtab_io \<Rightarrow> string \<Rightarrow> mtab \<Rightarrow> bool \<times> mtab" where
  "remove_mtab io mnt t =
    (if mt_lock t \<or> \<not> io_lock io then (False, t)
     else let t1 = t\<lparr>mt_lock := True\<rparr> in
       if \<not> io_open io \<or> \<not> io_open_new io then (False, t1)
       else let t2 = t1\<lparr>mt_tmp := Some (filter (\<lambda>(_, dir, _). dir \<noteq> mnt) (mt_entries t1))\<rparr> in
         if \<not> io_mode io then (False, t2)
         else if \<not> io_write io then (False, t2)
         else let t3 = t2\<lparr>mt_entries := the (mt_tmp t2), mt_tmp := None\<rparr> in
           if \<not> io_unlock io then (False, t3) else (True, t3\<lparr>mt_lock := False\<rparr>))"

section \<open>A persistent connection\<close>

text \<open>
  \<open>wait_on_socket\<close> before a new connection: the time slept, doubled from 5 seconds up to 5 minutes as
  long as connections end early. \<open>later\<close> is the time after the sleep.
\<close>

record backoff =
  sleeptime :: int
  last_time :: int

definition backoff_start :: backoff where
  "backoff_start = \<lparr>sleeptime = 5, last_time = 0\<rparr>"

definition wait_on_socket :: "int \<Rightarrow> int \<Rightarrow> backoff \<Rightarrow> int \<times> backoff" where
  "wait_on_socket clock later b =
    (let new_sleeptime = (if sleeptime b * 2 < 300 then sleeptime b * 2 else 300)
     in if clock < last_time b + sleeptime b
        then (last_time b + sleeptime b - clock, \<lparr>sleeptime = new_sleeptime, last_time = later\<rparr>)
        else (0, \<lparr>sleeptime = 5, last_time = later\<rparr>))"

section \<open>Unmounting\<close>

text \<open>
  \<open>shfsumount\<close> (\<open>src/tool/shfsumount.c\<close>), up to \<open>umount\<close>: the path it unmounts, or its exit
  status. \<open>statfs\<close> answers the type of the file system, \<open>lstat\<close> mode and owner.
\<close>

definition umount_ok ::
  "host_env \<Rightarrow> (string \<Rightarrow> nat option) \<Rightarrow> (string \<Rightarrow> (umode \<times> nat) option) \<Rightarrow> string \<Rightarrow> bool" where
  "umount_ok env statfs lstat dir =
    (statfs dir = Some SHFS_SUPER_MAGIC \<and>
     (case lstat dir of None \<Rightarrow> False
      | Some (mode, owner) \<Rightarrow> S_ISDIR mode \<and>
          (getuid env = 0 \<or> getuid env = owner \<and> mode AND S_IRWXU = S_IRWXU)))"

definition shfsumount ::
  "host_env \<Rightarrow> (string \<Rightarrow> nat option) \<Rightarrow> (string \<Rightarrow> (umode \<times> nat) option) \<Rightarrow> string list \<Rightarrow> int + string" where
  "shfsumount env statfs lstat args =
    (case args of [] \<Rightarrow> Inl 1
     | a # _ \<Rightarrow>
        if a = ''-v'' then Inl 0
        else (case fullpath env a of None \<Rightarrow> Inl 1
          | Some mnt \<Rightarrow> if umount_ok env statfs lstat mnt then Inr mnt else Inl 1))"

end
