(* ===== verification/Vfs.thy ===== *)
theory Vfs
  imports FileOps
begin

text \<open>
  The kernel's dentries and inodes as the module sees them, a store with addresses, and the
  operations of \<open>inode.c\<close> on them: the attributes the remote side reports are copied into the
  inode, and looked up again when they are old. Also the time stamps of dentries (\<open>dir.c\<close>).
\<close>

section \<open>The store\<close>

text \<open>
  The directory cache in the page cache of a directory: \<open>struct shfs_cache_head\<close>, which lies at
  the start of page 0, and the pages, \<open>pg_dentry\<close> the array of dentry addresses.
\<close>

record cache_head =
  ch_time :: nat
  ch_end :: nat
  ch_eof :: bool

record dir_page =
  pg_uptodate :: bool
  pg_head :: cache_head
  pg_dentry :: "nat \<Rightarrow> nat"

text \<open>
  An inode with what the module sets besides its attributes: the table of operations, whether
  \<open>make_bad_inode\<close> was called, and for a directory the pages of its mapping.
\<close>

datatype iops = No_ops | Dir_ops | Symlink_ops | File_ops

record vnode =
  vn_inode :: inode
  vn_ops :: iops
  vn_bad :: bool
  vn_pages :: "nat \<Rightarrow> dir_page option"

text \<open>A dentry; the root is its own parent. \<open>dn_op\<close>: \<open>d_op\<close> is \<open>shfs_dentry_operations\<close>.\<close>

record dnode =
  dn_name :: string
  dn_parent :: nat
  dn_inode :: "nat option"
  dn_time :: nat
  dn_fsdata :: nat
  dn_hashed :: bool
  dn_op :: bool

text \<open>
  The super block of the mount with its magic number, the clock (\<open>jiffies\<close>, \<open>HZ\<close>), the store, the
  next free address and inode number (\<open>iunique\<close>), and the answers of the allocator to come (when
  there are none, it succeeds). \<open>v_stk\<close> and \<open>v_fattr\<close> are what uninitialised variables hold. An
  access to an address that is not in the store is an oops (None).
\<close>

record 'f vfs =
  v_sb :: "'f world"
  s_magic :: nat
  jiffies :: nat
  hz :: int
  v_dentry :: "nat \<Rightarrow> dnode option"
  v_inode :: "nat \<Rightarrow> vnode option"
  v_next :: nat
  v_ino :: nat
  allocs :: "bool list"
  v_stk :: string
  v_fattr :: shfs_fattr

definition upd_dentry :: "nat \<Rightarrow> (dnode \<Rightarrow> dnode) \<Rightarrow> 'f vfs \<Rightarrow> 'f vfs" where
  "upd_dentry d f v = v\<lparr>v_dentry := (v_dentry v)(d := map_option f (v_dentry v d))\<rparr>"

definition upd_inode :: "nat \<Rightarrow> (vnode \<Rightarrow> vnode) \<Rightarrow> 'f vfs \<Rightarrow> 'f vfs" where
  "upd_inode a f v = v\<lparr>v_inode := (v_inode v)(a := map_option f (v_inode v a))\<rparr>"

definition alloc_ok :: "'f vfs \<Rightarrow> bool \<times> 'f vfs" where
  "alloc_ok v = (case allocs v of [] \<Rightarrow> (True, v) | b # bs \<Rightarrow> (b, v\<lparr>allocs := bs\<rparr>))"

text \<open>The dentry and its inode.\<close>

definition dentry_inode :: "'f vfs \<Rightarrow> nat \<Rightarrow> (nat \<times> vnode) option" where
  "dentry_inode v d = do { n \<leftarrow> v_dentry v d; a \<leftarrow> dn_inode n; vn \<leftarrow> v_inode v a; Some (a, vn) }"

text \<open>The names on the path of a dentry, and \<open>get_name\<close> into an uninitialised buffer.\<close>

partial_function (option) d_path :: "'f vfs \<Rightarrow> nat \<Rightarrow> string list option" where
  "d_path v d = do {
     n \<leftarrow> v_dentry v d;
     if dn_parent n = d then Some []
     else do { ns \<leftarrow> d_path v (dn_parent n); Some (dn_name n # ns) }
   }"

definition vfs_name :: "'f vfs \<Rightarrow> nat \<Rightarrow> (int \<times> string) option" where
  "vfs_name v d = do { ns \<leftarrow> d_path v d; Some (get_name ns (v_stk v)) }"

section \<open>Time\<close>

definition max_age :: "'f vfs \<Rightarrow> int" where
  "max_age v = s32 (ttl (v_sb v) * hz v) sdiv 1000"

text \<open>\<open>time_before (a, b)\<close>: the sign of the difference as a \<open>long\<close>.\<close>

definition time_before :: "nat \<Rightarrow> nat \<Rightarrow> bool" where
  "time_before a b \<longleftrightarrow> 9223372036854775808 \<le> u64 (int a - int b)"

definition current_time :: "'f vfs \<Rightarrow> timespec" where
  "current_time v = \<lparr>tv_sec = int (now (v_sb v)), tv_nsec = 0\<rparr>"

definition shfs_new_dentry :: "nat \<Rightarrow> 'f vfs \<Rightarrow> 'f vfs" where
  "shfs_new_dentry d v = upd_dentry d (\<lambda>n. n\<lparr>dn_op := True, dn_time := jiffies v\<rparr>) v"

definition shfs_age_dentry :: "nat \<Rightarrow> 'f vfs \<Rightarrow> 'f vfs" where
  "shfs_age_dentry d v =
    upd_dentry d (\<lambda>n. n\<lparr>dn_time := u64 (int (jiffies v) - max_age v)\<rparr>) v"

partial_function (option) shfs_renew_times :: "nat \<Rightarrow> 'f vfs \<Rightarrow> 'f vfs option" where
  "shfs_renew_times d v = do {
     n \<leftarrow> v_dentry v d;
     let v1 = upd_dentry d (\<lambda>n. n\<lparr>dn_time := jiffies v\<rparr>) v;
     if dn_parent n = d then Some v1 else shfs_renew_times (dn_parent n) v1
   }"

section \<open>Inodes\<close>

text \<open>
  \<open>shfs_set_inode_attr\<close>; when time or size have changed, the pages of the mapping are dropped and
  a clean file cache is emptied.
\<close>

definition fattr_inode :: "'f world \<Rightarrow> nat \<Rightarrow> shfs_fattr \<Rightarrow> inode \<Rightarrow> inode" where
  "fattr_inode w clock a i = i\<lparr>i_mode := f_mode a, i_nlink := f_nlink a,
     i_uid := if preserve_own w then f_uid a else uid w,
     i_gid := if preserve_own w then f_gid a else gid w,
     i_rdev := f_rdev a, i_ctime := f_ctime a, i_atime := f_atime a, i_mtime := f_mtime a,
     i_blocks := f_blocks a, i_size := f_size a,
     i_private := map_option (\<lambda>p. p\<lparr>oldmtime := clock\<rparr>) (i_private i)\<rparr>"

definition set_attr :: "'f world \<Rightarrow> nat \<Rightarrow> shfs_fattr \<Rightarrow> vnode \<Rightarrow> vnode" where
  "set_attr w clock a vn =
    (let i = fattr_inode w clock a (vn_inode vn)
     in if i_mtime i \<noteq> i_mtime (vn_inode vn) \<or> i_size i \<noteq> i_size (vn_inode vn)
        then vn\<lparr>vn_inode := the (snd (fcache_file_clear (Some i))), vn_pages := \<lambda>_. None\<rparr>
        else vn\<lparr>vn_inode := i\<rparr>)"

definition shfs_set_inode_attr :: "nat \<Rightarrow> shfs_fattr \<Rightarrow> 'f vfs \<Rightarrow> 'f vfs" where
  "shfs_set_inode_attr a fa v = upd_inode a (set_attr (v_sb v) (jiffies v) fa) v"

text \<open>An inode as \<open>new_inode\<close> makes it.\<close>

definition blank_inode :: inode where
  "blank_inode = \<lparr>i_ino = 0, i_mode = 0, i_nlink = 1, i_uid = 0, i_gid = 0, i_rdev = 0, i_size = 0,
     i_blocks = 0, i_atime = \<lparr>tv_sec = 0, tv_nsec = 0\<rparr>, i_mtime = \<lparr>tv_sec = 0, tv_nsec = 0\<rparr>,
     i_ctime = \<lparr>tv_sec = 0, tv_nsec = 0\<rparr>, i_private = None\<rparr>"

definition inode_ops :: "umode \<Rightarrow> iops" where
  "inode_ops m =
    (if S_ISDIR m then Dir_ops
     else if S_ISLNK m then Symlink_ops
     else if S_ISREG m \<or> m AND S_IFMT = S_IFBLK \<or> m AND S_IFMT = S_IFCHR then File_ops
     else No_ops)"

text \<open>\<open>shfs_iget\<close>: the address of the new inode. Without memory for its private data it is lost.\<close>

definition shfs_iget :: "shfs_fattr \<Rightarrow> 'f vfs \<Rightarrow> nat option \<times> 'f vfs" where
  "shfs_iget fa v =
    (case alloc_ok v of (ok, v1) \<Rightarrow>
      if \<not> ok then (None, v1)
      else
        let a = v_next v1; i = blank_inode\<lparr>i_ino := f_ino fa\<rparr>;
            vn = \<lparr>vn_inode = i, vn_ops = No_ops, vn_bad = False, vn_pages = (\<lambda>_. None)\<rparr>;
            v2 = v1\<lparr>v_next := a + 1, v_inode := (v_inode v1)(a := Some vn)\<rparr>
        in case alloc_ok v2 of (ok, v3) \<Rightarrow>
          if \<not> ok then (None, v3)
          else
            let p = \<lparr>oldmtime = 0, unset_write_on_close = False, cache = None\<rparr>;
                v4 = upd_inode a (\<lambda>vn. vn\<lparr>vn_inode := i\<lparr>i_private := Some p\<rparr>\<rparr>) v3;
                v5 = shfs_set_inode_attr a fa v4
            in (Some a, upd_inode a (\<lambda>vn. vn\<lparr>vn_ops := inode_ops (i_mode (vn_inode vn))\<rparr>) v5))"

text \<open>\<open>iunique (sb, 2)\<close>.\<close>

definition iunique :: "'f vfs \<Rightarrow> nat \<times> 'f vfs" where
  "iunique v = (v_ino v, v\<lparr>v_ino := v_ino v + 1\<rparr>)"

text \<open>
  Force the next use of a directory's cache to read it again (\<open>dcache.c\<close>). Where there is no
  page 0, \<open>grab_cache_page\<close> adds one that is not up to date, which counts as none.
\<close>

definition shfs_invalid_dir_cache :: "nat \<Rightarrow> 'f vfs \<Rightarrow> 'f vfs" where
  "shfs_invalid_dir_cache a v =
    upd_inode a (\<lambda>vn. case vn_pages vn 0 of
        None \<Rightarrow> vn
      | Some p \<Rightarrow> if pg_uptodate p
          then vn\<lparr>vn_pages := (vn_pages vn)(0 := Some (p\<lparr>pg_head :=
              (pg_head p)\<lparr>ch_time := u64 (int (jiffies v) - max_age v)\<rparr>\<rparr>))\<rparr>
          else vn) v"

section \<open>Refreshing an inode\<close>

text \<open>
  What \<open>make_bad_inode\<close> leaves, with the mode put back: the caches are given up and the file is
  refused from then on.
\<close>

definition bad_inode :: "timespec \<Rightarrow> vnode \<Rightarrow> vnode" where
  "bad_inode t vn = vn\<lparr>vn_bad := True, vn_ops := No_ops,
     vn_inode := (vn_inode vn)\<lparr>i_atime := t, i_mtime := t, i_ctime := t\<rparr>,
     vn_pages := if S_ISDIR (i_mode (vn_inode vn)) then vn_pages vn else (\<lambda>_. None)\<rparr>"

definition shfs_refresh_inode :: "'f world shfs_fileops \<Rightarrow> nat \<Rightarrow> 'f vfs \<Rightarrow> (int \<times> 'f vfs) option" where
  "shfs_refresh_inode fops d v = do {
     (a, vn) \<leftarrow> dentry_inode v d;
     if i_ino (vn_inode vn) = 2 then do { v1 \<leftarrow> shfs_renew_times d v; Some (0, v1) }
     else do {
       (gn, name) \<leftarrow> vfs_name v d;
       if gn < 0 then Some (- ENAMETOOLONG, v)
       else do {
         (result, _, fa, w1) \<leftarrow> op_stat fops (v_sb v) (c_str name);
         let v1 = v\<lparr>v_sb := w1\<rparr>;
         let fattr = (case fa of Some x \<Rightarrow> x | None \<Rightarrow> v_fattr v);
         if result < 0 then Some (result, v1)
         else do {
           v2 \<leftarrow> shfs_renew_times d v1;
           if S_ISLNK (i_mode (vn_inode vn)) then Some (result, v2)
           else if i_mode (vn_inode vn) AND S_IFMT = f_mode fattr AND S_IFMT
             then Some (result, shfs_set_inode_attr a fattr v2)
           else
             let v3 = upd_inode a (bad_inode (current_time v2)) v2
             in Some (- EIO, if S_ISDIR (i_mode (vn_inode vn)) then shfs_invalid_dir_cache a v3 else v3)
         }
       }
     }
   }"

definition shfs_revalidate_inode :: "'f world shfs_fileops \<Rightarrow> nat \<Rightarrow> 'f vfs \<Rightarrow> (int \<times> 'f vfs) option" where
  "shfs_revalidate_inode fops d v = do {
     (a, vn) \<leftarrow> dentry_inode v d;
     w1 \<leftarrow> mutex_lock (v_sb v);
     let v1 = v\<lparr>v_sb := w1\<rparr>;
     (result, v2) \<leftarrow>
       (if vn_bad vn \<or> s_magic v \<noteq> SHFS_SUPER_MAGIC then Some (0, v1)
        else do {
          p \<leftarrow> i_private (vn_inode vn);
          if time_before (jiffies v) (u64 (int (oldmtime p) + max_age v)) then Some (0, v1)
          else shfs_refresh_inode fops d v1
        });
     Some (result, v2\<lparr>v_sb := mutex_unlock (v_sb v2)\<rparr>)
   }"

text \<open>\<open>shfs_getattr\<close>: the attributes that \<open>generic_fillattr\<close> copies are those of the inode.\<close>

definition shfs_getattr :: "'f world shfs_fileops \<Rightarrow> nat \<Rightarrow> 'f vfs \<Rightarrow> (int \<times> inode option \<times> 'f vfs) option" where
  "shfs_getattr fops d v = do {
     (result, v1) \<leftarrow> shfs_revalidate_inode fops d v;
     if result = 0 then do { (a, vn) \<leftarrow> dentry_inode v1 d; Some (0, Some (vn_inode vn), v1) }
     else Some (result, None, v1)
   }"

end
