(* ===== verification/Dir.thy ===== *)
theory Dir
  imports Vfs
begin

text \<open>
  The operations on directories, \<open>dir.c\<close>, and on symbolic links, \<open>symlink.c\<close>: each asks the remote
  side and then brings the store of dentries and inodes up to date. The result is the C result with
  the new state; the outer option is termination (None also for an access outside the store).
\<close>

abbreviation (input) EBUSY :: int where "EBUSY \<equiv> 16"

section \<open>Lookup\<close>

definition is_root :: "'f vfs \<Rightarrow> nat \<Rightarrow> bool" where
  "is_root v d \<longleftrightarrow> (case v_dentry v d of None \<Rightarrow> False | Some n \<Rightarrow> dn_parent n = d)"

definition shfs_dir_open :: "'f world shfs_fileops \<Rightarrow> nat \<Rightarrow> 'f vfs \<Rightarrow> (int \<times> 'f vfs) option" where
  "shfs_dir_open fops d v = (if is_root v d then Some (0, v) else shfs_revalidate_inode fops d v)"

text \<open>
  Every operation starts with the name of a dentry in a buffer on the stack; \<open>named\<close> gives the
  rest of the operation the string in it.
\<close>

definition named ::
  "'f vfs \<Rightarrow> nat \<Rightarrow> (string \<Rightarrow> (int \<times> 'f vfs) option) \<Rightarrow> (int \<times> 'f vfs) option" where
  "named v d rest = do {
     (gn, name) \<leftarrow> vfs_name v d;
     if gn < 0 then Some (- ENAMETOOLONG, v) else rest (c_str name)
   }"

text \<open>The kernel's \<open>d_alloc\<close>: a new negative dentry in the directory \<open>p\<close>.\<close>

definition d_alloc :: "nat \<Rightarrow> string \<Rightarrow> 'f vfs \<Rightarrow> nat option \<times> 'f vfs" where
  "d_alloc p name v =
    (case alloc_ok v of (ok, v1) \<Rightarrow>
      if \<not> ok then (None, v1)
      else let d = v_next v1;
               n = \<lparr>dn_name = name, dn_parent = p, dn_inode = None, dn_time = 0, dn_fsdata = 0,
                    dn_hashed = False, dn_op = False\<rparr>
           in (Some d, v1\<lparr>v_next := d + 1, v_dentry := (v_dentry v1)(d := Some n)\<rparr>))"

text \<open>
  \<open>shfs_lookup\<close> on a new dentry: \<open>d_add\<close> binds it to the inode (or makes it negative) and hashes it.
  The result 0 is the C result NULL. When there is no memory for the inode the dentry stays as it is.
\<close>

definition d_add :: "nat \<Rightarrow> nat option \<Rightarrow> 'f vfs \<Rightarrow> 'f vfs" where
  "d_add d a v = upd_dentry d (\<lambda>n. n\<lparr>dn_op := True, dn_inode := a, dn_hashed := True\<rparr>) v"

definition found_attr :: "'f vfs \<Rightarrow> shfs_fattr option \<Rightarrow> shfs_fattr" where
  "found_attr v fa = (case fa of Some x \<Rightarrow> x | None \<Rightarrow> v_fattr v)"

definition shfs_lookup :: "'f world shfs_fileops \<Rightarrow> nat \<Rightarrow> 'f vfs \<Rightarrow> (int \<times> 'f vfs) option" where
  "shfs_lookup fops d v = named v d (\<lambda>name. do {
     (result, _, fa, w1) \<leftarrow> op_stat fops (v_sb v) name;
     let v1 = v\<lparr>v_sb := w1\<rparr>;
     if result < 0 then do {
       v2 \<leftarrow> shfs_renew_times d (d_add d None v1);
       Some (if result = - EINTR then result else 0, v2)
     }
     else case iunique v1 of (ino, v2) \<Rightarrow>
       case shfs_iget ((found_attr v fa)\<lparr>f_ino := ino\<rparr>) v2 of
         (None, v3) \<Rightarrow> Some (0, v3)
       | (Some a, v3) \<Rightarrow> do { v4 \<leftarrow> shfs_renew_times d (d_add d (Some a) v3); Some (0, v4) }
   })"

text \<open>\<open>shfs_instantiate\<close>: a dentry just created on the remote side gets its inode.\<close>

definition d_instantiate :: "nat \<Rightarrow> nat \<Rightarrow> 'f vfs \<Rightarrow> 'f vfs" where
  "d_instantiate d a v = upd_dentry d (\<lambda>n. n\<lparr>dn_op := True, dn_inode := Some a\<rparr>) v"

definition shfs_instantiate :: "'f world shfs_fileops \<Rightarrow> nat \<Rightarrow> 'f vfs \<Rightarrow> (int \<times> 'f vfs) option" where
  "shfs_instantiate fops d v = named v d (\<lambda>name. do {
     (result, _, fa, w1) \<leftarrow> op_stat fops (v_sb v) name;
     let v1 = v\<lparr>v_sb := w1\<rparr>;
     if result < 0 then Some (result, v1)
     else do {
       v2 \<leftarrow> shfs_renew_times d v1;
       case iunique v2 of (ino, v3) \<Rightarrow>
         case shfs_iget ((found_attr v fa)\<lparr>f_ino := ino\<rparr>) v3 of
           (None, v4) \<Rightarrow> Some (- EACCES, v4)
         | (Some a, v4) \<Rightarrow> Some (0, d_instantiate d a v4)
     }
   })"

section \<open>Creating and removing\<close>

text \<open>\<open>dir\<close> is the address of the directory's inode.\<close>

definition shfs_mkdir :: "'f world shfs_fileops \<Rightarrow> nat \<Rightarrow> nat \<Rightarrow> 'f vfs \<Rightarrow> (int \<times> 'f vfs) option" where
  "shfs_mkdir fops dir d v =
    (if readonly (v_sb v) then Some (- EROFS, v)
     else named v d (\<lambda>name. do {
       (result, _, w1) \<leftarrow> op_mkdir fops (v_sb v) name;
       let v1 = v\<lparr>v_sb := w1\<rparr>;
       if result < 0 then Some (result, v1)
       else shfs_instantiate fops d (shfs_invalid_dir_cache dir v1)
     }))"

text \<open>
  \<open>shfs_create\<close>: a file that its owner may not write is created writable, and the inode remembers
  to take the permission back when the file is closed.
\<close>

definition set_unset_write :: "nat \<Rightarrow> 'f vfs \<Rightarrow> 'f vfs" where
  "set_unset_write d v =
    (case dentry_inode v d of None \<Rightarrow> v
     | Some (a, _) \<Rightarrow> upd_inode a (\<lambda>vn. vn\<lparr>vn_inode := (vn_inode vn)\<lparr>i_private :=
         map_option (\<lambda>p. p\<lparr>unset_write_on_close := True\<rparr>) (i_private (vn_inode vn))\<rparr>\<rparr>) v)"

definition shfs_create ::
  "'f world shfs_fileops \<Rightarrow> nat \<Rightarrow> nat \<Rightarrow> umode \<Rightarrow> 'f vfs \<Rightarrow> (int \<times> 'f vfs) option" where
  "shfs_create fops dir d mode v =
    (if readonly (v_sb v) then Some (- EROFS, v)
     else named v d (\<lambda>name.
       let forced_write = (mode AND S_IWUSR = 0) in do {
         (result, _, w1) \<leftarrow> op_create fops (v_sb v) name (if forced_write then mode OR S_IWUSR else mode);
         let v1 = v\<lparr>v_sb := w1\<rparr>;
         if result < 0 then Some (result, v1)
         else do {
           (result, v2) \<leftarrow> shfs_instantiate fops d (shfs_invalid_dir_cache dir v1);
           Some (result, if forced_write then set_unset_write d v2 else v2)
         }
       }))"

definition shfs_rmdir :: "'f world shfs_fileops \<Rightarrow> nat \<Rightarrow> nat \<Rightarrow> 'f vfs \<Rightarrow> (int \<times> 'f vfs) option" where
  "shfs_rmdir fops dir d v =
    (if readonly (v_sb v) then Some (- EROFS, v)
     else do {
       n \<leftarrow> v_dentry v d;
       if dn_hashed n then Some (- EBUSY, v)
       else named v d (\<lambda>name. do {
         (result, _, w1) \<leftarrow> op_rmdir fops (v_sb v) name;
         v1 \<leftarrow> (if result = 0 then shfs_renew_times d (v\<lparr>v_sb := w1\<rparr>) else Some (v\<lparr>v_sb := w1\<rparr>));
         Some (result, shfs_invalid_dir_cache dir v1)
       })
     })"

text \<open>
  \<open>d_delete\<close> makes a dentry negative, or only takes it out of the hash when others use it too
  (\<open>sole\<close> says that they do not).
\<close>

definition d_delete :: "bool \<Rightarrow> nat \<Rightarrow> 'f vfs \<Rightarrow> 'f vfs" where
  "d_delete sole d v =
    upd_dentry d (\<lambda>n. if sole then n\<lparr>dn_inode := None\<rparr> else n\<lparr>dn_hashed := False\<rparr>) v"

definition shfs_rename ::
  "'f world shfs_fileops \<Rightarrow> bool \<Rightarrow> nat \<Rightarrow> nat \<Rightarrow> nat \<Rightarrow> nat \<Rightarrow> 'f vfs \<Rightarrow> (int \<times> 'f vfs) option" where
  "shfs_rename fops sole old_dir old_d new_dir new_d v =
    (if readonly (v_sb v) then Some (- EROFS, v)
     else named v old_d (\<lambda>old. named v new_d (\<lambda>new. do {
       n \<leftarrow> v_dentry v new_d;
       let v1 = (if dn_inode n \<noteq> None then d_delete sole new_d v else v);
       (result, _, _, w1) \<leftarrow> op_rename fops (v_sb v1) old new;
       let v2 = v1\<lparr>v_sb := w1\<rparr>;
       v3 \<leftarrow> (if result = 0 then do { v3 \<leftarrow> shfs_renew_times old_d v2; shfs_renew_times new_d v3 }
              else Some v2);
       Some (result, shfs_invalid_dir_cache new_dir (shfs_invalid_dir_cache old_dir v3))
     })))"

definition shfs_unlink :: "'f world shfs_fileops \<Rightarrow> nat \<Rightarrow> nat \<Rightarrow> 'f vfs \<Rightarrow> (int \<times> 'f vfs) option" where
  "shfs_unlink fops dir d v =
    (if readonly (v_sb v) then Some (- EROFS, v)
     else named v d (\<lambda>name. do {
       (result, _, w1) \<leftarrow> op_unlink fops (v_sb v) name;
       v1 \<leftarrow> (if result = 0 then shfs_renew_times d (v\<lparr>v_sb := w1\<rparr>) else Some (v\<lparr>v_sb := w1\<rparr>));
       Some (result, shfs_invalid_dir_cache dir v1)
     }))"

definition shfs_link :: "'f world shfs_fileops \<Rightarrow> nat \<Rightarrow> nat \<Rightarrow> nat \<Rightarrow> 'f vfs \<Rightarrow> (int \<times> 'f vfs) option" where
  "shfs_link fops old_d dir new_d v =
    (if readonly (v_sb v) then Some (- EROFS, v)
     else named v old_d (\<lambda>old. named v new_d (\<lambda>new. do {
       (result, _, _, w1) \<leftarrow> op_link fops (v_sb v) old new;
       let v1 = v\<lparr>v_sb := w1\<rparr>;
       if result < 0 then Some (result, v1)
       else shfs_instantiate fops new_d (shfs_invalid_dir_cache dir v1)
     })))"

definition shfs_symlink ::
  "'f world shfs_fileops \<Rightarrow> nat \<Rightarrow> nat \<Rightarrow> string \<Rightarrow> 'f vfs \<Rightarrow> (int \<times> 'f vfs) option" where
  "shfs_symlink fops dir d oldname v =
    (if readonly (v_sb v) then Some (- EROFS, v)
     else named v d (\<lambda>new.
       if length oldname + 1 > SHFS_PATH_MAX then Some (- ENAMETOOLONG, v)
       else do {
         (result, _, _, w1) \<leftarrow> op_symlink fops (v_sb v) oldname new;
         let v1 = v\<lparr>v_sb := w1\<rparr>;
         if result < 0 then Some (result, v1)
         else shfs_instantiate fops d (shfs_invalid_dir_cache dir v1)
       }))"

section \<open>The dentry operations\<close>

text \<open>
  \<open>shfs_d_revalidate\<close>: 1 when the dentry may be used. The age is an \<open>unsigned long\<close> and so is the
  time to live it is compared with.
\<close>

definition shfs_d_revalidate :: "'f world shfs_fileops \<Rightarrow> nat \<Rightarrow> 'f vfs \<Rightarrow> (int \<times> 'f vfs) option" where
  "shfs_d_revalidate fops d v = do {
     n \<leftarrow> v_dentry v d;
     let fresh = (u64 (int (jiffies v) - int (dn_time n)) \<le> u64 (max_age v));
     (case dn_inode n of None \<Rightarrow> Some (if fresh then 1 else 0, v)
      | Some a \<Rightarrow> do {
          vn \<leftarrow> v_inode v a;
          w1 \<leftarrow> mutex_lock (v_sb v);
          let v1 = v\<lparr>v_sb := w1\<rparr>;
          (result, v2) \<leftarrow>
            (if vn_bad vn then Some (0, v1)
             else if fresh then Some (1, v1)
             else do {
               (r, v2) \<leftarrow> shfs_revalidate_inode fops d v1;
               Some (if r = 0 then 1 else 0, v2)
             });
          Some (result, v2\<lparr>v_sb := mutex_unlock (v_sb v2)\<rparr>)
        })
   }"

definition shfs_d_delete :: "nat \<Rightarrow> 'f vfs \<Rightarrow> int" where
  "shfs_d_delete d v =
    (case dentry_inode v d of None \<Rightarrow> 0 | Some (a, vn) \<Rightarrow> if vn_bad vn then 1 else 0)"

section \<open>Symbolic links\<close>

text \<open>
  \<open>shfs_readlink\<close> and \<open>shfs_follow_link\<close>: \<open>real_name\<close> is a second uninitialised buffer; what is
  handed to the kernel (\<open>vfs_readlink\<close>, \<open>vfs_follow_link\<close>) is answered as an option.
\<close>

definition shfs_readlink ::
  "'f world shfs_fileops \<Rightarrow> string \<Rightarrow> nat \<Rightarrow> 'f vfs \<Rightarrow> (int \<times> string option \<times> 'f vfs) option" where
  "shfs_readlink fops real_name d v = do {
     (gn, name) \<leftarrow> vfs_name v d;
     if gn < 0 then Some (- ENAMETOOLONG, None, v)
     else do {
       (result, _, target, w1) \<leftarrow> op_readlink fops (v_sb v) (c_str name) real_name;
       Some (result, if result < 0 then None else Some target, v\<lparr>v_sb := w1\<rparr>)
     }
   }"

definition shfs_follow_link ::
  "'f world shfs_fileops \<Rightarrow> string \<Rightarrow> nat \<Rightarrow> 'f vfs \<Rightarrow> (string option \<times> 'f vfs) option" where
  "shfs_follow_link fops real_name d v = do {
     (gn, name) \<leftarrow> vfs_name v d;
     if gn < 0 then Some (None, v)
     else do {
       (result, _, target, w1) \<leftarrow> op_readlink fops (v_sb v) (c_str name) real_name;
       Some (if result = 0 then None else Some target, v\<lparr>v_sb := w1\<rparr>)
     }
   }"

end
