(* ===== verification/Super.thy ===== *)
theory Super
  imports Dir Options
begin

text \<open>
  Mounting and unmounting (\<open>inode.c\<close>): the super block with its defaults and the options parsed over
  them, the root inode and its dentry. The reference to the socket that the option \<open>fd\<close> took is the
  value of \<open>sock\<close>.
\<close>

section \<open>The super block\<close>

text \<open>The fields as \<open>shfs_read_super\<close> fills them in; \<open>gr\<close> is \<open>current_gid\<close>.\<close>

definition default_info :: "nat \<Rightarrow> 'f world \<Rightarrow> 'f world" where
  "default_info gr w = w\<lparr>shfs_mutex := False, version := 0, ttl := SHFS_DEFAULT_TTL, uid := cur_uid w, gid := gr,
     root_mode := S_IRUSR OR S_IWUSR OR S_IXUSR OR S_IFDIR, fmask := 0xFFFF, mount_point := [], sock := None,
     readlnbuf := [], fcache_free := SHFS_FCACHE_MAX, fcache_size := int (SHFS_FCACHE_PAGES * PAGE_SIZE),
     garbage_read := 0, garbage_write := 0, garbage := False, readonly := False, preserve_own := False,
     stable_symlinks := False, debug_level := 0\<rparr>"

definition init_root_dirent :: "'f vfs \<Rightarrow> shfs_fattr" where
  "init_root_dirent v =
    (let epoch = \<lparr>tv_sec = 0, tv_nsec = 0\<rparr>
     in \<lparr>f_ino = 2, f_mode = root_mode (v_sb v), f_nlink = 1, f_uid = uid (v_sb v), f_gid = gid (v_sb v),
         f_rdev = 0, f_size = 512, f_atime = epoch, f_mtime = current_time v, f_ctime = epoch,
         f_blksize = 512, f_blocks = 0\<rparr>)"

text \<open>
  The kernel's \<open>iput\<close> of the only reference to an inode, an oops when the inode is gone already, and
  \<open>d_make_root\<close>, which gives the inode up itself when there is no memory for the dentry.
\<close>

definition iput :: "nat option \<Rightarrow> 'f vfs \<Rightarrow> 'f vfs option" where
  "iput a v = (case a of None \<Rightarrow> Some v
     | Some b \<Rightarrow> if v_inode v b = None then None else Some (v\<lparr>v_inode := (v_inode v)(b := None)\<rparr>))"

definition d_make_root :: "nat \<Rightarrow> 'f vfs \<Rightarrow> (nat option \<times> 'f vfs) option" where
  "d_make_root a v =
    (case alloc_ok v of (ok, v1) \<Rightarrow>
      if \<not> ok then do { v2 \<leftarrow> iput (Some a) v1; Some (None, v2) }
      else let d = v_next v1;
               n = \<lparr>dn_name = ''/'', dn_parent = d, dn_inode = Some a, dn_time = 0, dn_fsdata = 0,
                    dn_hashed = False, dn_op = False\<rparr>
           in Some (Some d, v1\<lparr>v_next := d + 1, v_dentry := (v_dentry v1)(d := Some n)\<rparr>))"

text \<open>
  The three allocations of \<open>shfs_read_super\<close>: the super block, with which the magic number is set, the
  scratch buffer and the line buffer.
\<close>

definition alloc_super :: "'f vfs \<Rightarrow> bool \<times> 'f vfs" where
  "alloc_super v =
    (case alloc_ok v of (ok1, v1) \<Rightarrow> if \<not> ok1 then (False, v1)
     else case alloc_ok (v1\<lparr>s_magic := SHFS_SUPER_MAGIC\<rparr>) of (ok2, v2) \<Rightarrow>
       if \<not> ok2 then (False, v2) else alloc_ok v2)"

text \<open>
  The result with the root dentry. On every failure the super block is freed; \<open>v_sb\<close> then is what
  was in it, so that a socket in it is one that nobody can close any more.
\<close>

definition shfs_read_super ::
  "(int \<Rightarrow> 'f option) \<Rightarrow> nat \<Rightarrow> string option \<Rightarrow> 'f vfs \<Rightarrow> (int \<times> nat option \<times> 'f vfs) option" where
  "shfs_read_super fget gr opts v =
    (case alloc_super v of (ok, v1) \<Rightarrow>
     if \<not> ok then Some (- EINVAL, None, v1)
     else do {
       (result, w) \<leftarrow> parse_options fget (default_info gr (v_sb v1)) opts;
       let v2 = v1\<lparr>v_sb := w\<rparr>;
       if result < 0 \<or> sock w = None \<or> version w \<noteq> PROTO_VERSION then Some (- EINVAL, None, v2)
       else case shfs_iget (init_root_dirent v2) v2 of
           (None, v3) \<Rightarrow> Some (- EINVAL, None, v3)
         | (Some a, v3) \<Rightarrow> do {
             (root, v4) \<leftarrow> d_make_root a v3;
             case root of
               None \<Rightarrow> do { v5 \<leftarrow> iput (Some a) v4; Some (- EINVAL, None, v5) }
             | Some d \<Rightarrow> Some (0, Some d, shfs_new_dentry d v4)
           }
     })"

text \<open>
  \<open>shfs_put_super\<close>: the first component says whether the memory of the super block was freed.
\<close>

definition shfs_put_super :: "'f world shfs_fileops \<Rightarrow> 'f world \<Rightarrow> (bool \<times> 'f world) option" where
  "shfs_put_super fops w = do {
     (result, w1) \<leftarrow> op_finish fops w;
     sock_lock (w1\<lparr>sock := None\<rparr>)
   }"

end
