(* ===== verification/DirCache.thy ===== *)
theory DirCache
  imports Dir
begin

text \<open>
  Reading a directory, \<open>shfs_readdir\<close> of \<open>dir.c\<close>, with the directory cache of \<open>dcache.c\<close>: the
  listing from the remote side is kept as an array of dentry addresses in the page cache of the
  directory, and read from there while it is fresh. \<open>filldir\<close>, the kernel's callback that takes an
  entry, its position and its inode number, is a parameter; it works on a state \<open>'b\<close>.
\<close>

abbreviation (input) SHFS_DIRCACHE_SIZE :: nat where "SHFS_DIRCACHE_SIZE \<equiv> 512"
abbreviation (input) SHFS_DIRCACHE_START :: nat where "SHFS_DIRCACHE_START \<equiv> 3"

section \<open>The dentries of a directory\<close>

definition is_child :: "'f vfs \<Rightarrow> nat \<Rightarrow> nat \<Rightarrow> bool" where
  "is_child v p e \<longleftrightarrow>
    (case v_dentry v e of None \<Rightarrow> False | Some n \<Rightarrow> dn_parent n = p \<and> e \<noteq> p)"

definition shfs_invalidate_dircache_entries :: "nat \<Rightarrow> 'f vfs \<Rightarrow> 'f vfs option" where
  "shfs_invalidate_dircache_entries p v = do {
     w1 \<leftarrow> mutex_lock (v_sb v);
     Some (v\<lparr>v_sb := mutex_unlock w1,
       v_dentry := \<lambda>e. if is_child v p e
         then map_option (\<lambda>n. n\<lparr>dn_fsdata := 0, dn_time := u64 (int (jiffies v) - max_age v)\<rparr>) (v_dentry v e)
         else v_dentry v e\<rparr>)
   }"

text \<open>
  \<open>shfs_dget_fpos\<close>: the dentry at an address from the cache, when there is a child of the directory
  at that address with this position and an inode. (Otherwise the children are searched for the
  position, but the answer is NULL either way.)
\<close>

definition shfs_dget_fpos :: "'f vfs \<Rightarrow> nat \<Rightarrow> nat \<Rightarrow> nat \<Rightarrow> (dnode \<times> vnode) option" where
  "shfs_dget_fpos v e parent fpos =
    (if is_child v parent e then do {
       n \<leftarrow> v_dentry v e;
       if dn_fsdata n = fpos then do { a \<leftarrow> dn_inode n; vn \<leftarrow> v_inode v a; Some (n, vn) } else None
     } else None)"

text \<open>\<open>d_lookup\<close>: the hashed child with this name.\<close>

definition d_lookup :: "'f vfs \<Rightarrow> nat \<Rightarrow> string \<Rightarrow> nat option" where
  "d_lookup v p name =
    find (\<lambda>e. is_child v p e \<and>
      (case v_dentry v e of None \<Rightarrow> False | Some n \<Rightarrow> dn_hashed n \<and> dn_name n = name)) [0..<v_next v]"

section \<open>Pages of the cache\<close>

text \<open>\<open>struct shfs_cache_control\<close>; \<open>ctl_page\<close> and \<open>ctl_cache\<close> are page numbers (None: NULL).\<close>

record cache_control =
  ctl_head :: cache_head
  ctl_page :: "nat option"
  ctl_cache :: "nat option"
  ctl_fpos :: nat
  ctl_ofs :: nat
  ctl_filled :: int
  ctl_valid :: bool
  ctl_idx :: nat

definition set_page :: "nat \<Rightarrow> nat \<Rightarrow> (dir_page \<Rightarrow> dir_page) \<Rightarrow> 'f vfs \<Rightarrow> 'f vfs" where
  "set_page a k f v = upd_inode a (\<lambda>vn. vn\<lparr>vn_pages := (vn_pages vn)(k := map_option f (vn_pages vn k))\<rparr>) v"

definition page_done :: "nat \<Rightarrow> nat option \<Rightarrow> 'f vfs \<Rightarrow> 'f vfs" where
  "page_done a k v = (case k of None \<Rightarrow> v | Some k \<Rightarrow> set_page a k (\<lambda>p. p\<lparr>pg_uptodate := True\<rparr>) v)"

text \<open>\<open>grab_cache_page\<close>: the page is there afterwards, a new one not up to date, unless memory is short.\<close>

definition blank_page :: dir_page where
  "blank_page = \<lparr>pg_uptodate = False, pg_head = \<lparr>ch_time = 0, ch_end = 0, ch_eof = False\<rparr>,
     pg_dentry = (\<lambda>_. 0)\<rparr>"

definition grab_page :: "nat \<Rightarrow> nat \<Rightarrow> 'f vfs \<Rightarrow> bool \<times> 'f vfs" where
  "grab_page a k v =
    (case v_inode v a of None \<Rightarrow> (False, v)
     | Some vn \<Rightarrow>
        (case vn_pages vn k of Some p \<Rightarrow> (True, v)
         | None \<Rightarrow> (case alloc_ok v of (ok, v1) \<Rightarrow>
             (ok, if ok then upd_inode a (\<lambda>vn. vn\<lparr>vn_pages := (vn_pages vn)(k := Some blank_page)\<rparr>) v1
                  else v1))))"

section \<open>Filling the cache\<close>

text \<open>
  The state of a listing: the store, the position of the open directory, the state of \<open>filldir\<close> and
  the control block. It is None after an oops.
\<close>

record ('f, 'b) filling =
  fl_v :: "'f vfs"
  fl_pos :: nat
  fl_out :: 'b
  fl_ctl :: cache_control

text \<open>The dentry for an entry, new or found, with its inode brought up to date.\<close>

definition fill_inode :: "nat \<Rightarrow> bool \<Rightarrow> shfs_fattr \<Rightarrow> 'f vfs \<Rightarrow> 'f vfs option" where
  "fill_inode nd hashed entry v = do {
     n \<leftarrow> v_dentry v nd;
     (case dn_inode n of
        Some b \<Rightarrow> Some (shfs_set_inode_attr b entry v)
      | None \<Rightarrow> do {
          v1 \<leftarrow> shfs_renew_times nd v;
          (case iunique v1 of (ino, v2) \<Rightarrow>
           case shfs_iget (entry\<lparr>f_ino := ino\<rparr>) v2 of
             (None, v3) \<Rightarrow> Some v3
           | (Some b, v3) \<Rightarrow>
               Some (upd_dentry nd (\<lambda>n. n\<lparr>dn_inode := Some b, dn_hashed := True\<rparr>) (shfs_new_dentry nd v3)))
        })
   }"

text \<open>The address of the dentry goes into the cache; a full page is left for the next one.\<close>

definition fill_slot :: "nat \<Rightarrow> nat \<Rightarrow> cache_control \<Rightarrow> 'f vfs \<Rightarrow> bool \<times> cache_control \<times> 'f vfs" where
  "fill_slot a nd ctl v =
    (let (ctl1, v1) =
       (if ctl_idx ctl \<ge> SHFS_DIRCACHE_SIZE then
          (case grab_page a (ctl_ofs ctl + 1) (page_done a (ctl_page ctl) v) of (ok, v1) \<Rightarrow>
            let k = (if ok then Some (ctl_ofs ctl + 1) else None)
            in (ctl\<lparr>ctl_idx := ctl_idx ctl - SHFS_DIRCACHE_SIZE, ctl_ofs := ctl_ofs ctl + 1,
                  ctl_page := k, ctl_cache := k\<rparr>, v1))
        else (ctl, v))
     in case ctl_cache ctl1 of None \<Rightarrow> (False, ctl1, v1)
        | Some k \<Rightarrow> (True, ctl1, set_page a k (\<lambda>p. p\<lparr>pg_dentry := (pg_dentry p)(ctl_idx ctl1 := nd)\<rparr>) v1))"

definition inode_number :: "'f vfs \<Rightarrow> nat \<Rightarrow> nat" where
  "inode_number v d = (case dentry_inode v d of None \<Rightarrow> 0 | Some (a, vn) \<Rightarrow> i_ino (vn_inode vn))"

text \<open>The part behind \<open>end_advance\<close>: the entry goes to \<open>filldir\<close> when the reader stands at it.\<close>

definition fill_advance ::
  "('b \<Rightarrow> string \<Rightarrow> nat \<Rightarrow> nat \<Rightarrow> int \<times> 'b) \<Rightarrow> nat \<Rightarrow> string \<Rightarrow> nat \<Rightarrow> bool \<Rightarrow> ('f, 'b) filling
    \<Rightarrow> int \<times> ('f, 'b) filling" where
  "fill_advance filldir d name ino valid st =
    (let ctl = (fl_ctl st)\<lparr>ctl_valid := ctl_valid (fl_ctl st) \<and> valid\<rparr>;
         st1 =
           (if ctl_filled ctl = 0 \<and> ctl_fpos ctl = fl_pos st then
              let ino1 = (if ino = 0 then (case d_lookup (fl_v st) d name of None \<Rightarrow> 0
                            | Some e \<Rightarrow> inode_number (fl_v st) e) else ino);
                  (ino2, v1) = (if ino1 = 0 then iunique (fl_v st) else (ino1, fl_v st));
                  (r, out) = filldir (fl_out st) name (fl_pos st) ino2
              in st\<lparr>fl_v := v1, fl_out := out, fl_ctl := ctl\<lparr>ctl_filled := r\<rparr>,
                    fl_pos := if r = 0 then fl_pos st + 1 else fl_pos st\<rparr>
            else st\<lparr>fl_ctl := ctl\<rparr>);
         ctl1 = fl_ctl st1;
         ctl2 = ctl1\<lparr>ctl_fpos := ctl_fpos ctl1 + 1, ctl_idx := ctl_idx ctl1 + 1\<rparr>
     in (if ctl_valid ctl2 \<or> ctl_filled ctl2 = 0 then 1 else 0, st1\<lparr>fl_ctl := ctl2\<rparr>))"

definition shfs_fill_cache ::
  "('b \<Rightarrow> string \<Rightarrow> nat \<Rightarrow> nat \<Rightarrow> int \<times> 'b) \<Rightarrow> nat \<Rightarrow> nat \<Rightarrow> ('f, 'b) filling option \<Rightarrow> string \<Rightarrow> shfs_fattr
    \<Rightarrow> int \<times> ('f, 'b) filling option" where
  "shfs_fill_cache filldir a d sto name entry =
    (case sto of None \<Rightarrow> (0, None)
     | Some st \<Rightarrow>
        (case (case d_lookup (fl_v st) d name of
                 Some e \<Rightarrow> (Some e, True, fl_v st)
               | None \<Rightarrow> (case d_alloc d name (fl_v st) of (nd, v1) \<Rightarrow> (nd, False, v1))) of
           (None, _, v1) \<Rightarrow>
             (case fill_advance filldir d name 0 False (st\<lparr>fl_v := v1\<rparr>) of (r, st1) \<Rightarrow> (r, Some st1))
         | (Some nd, hashed, v1) \<Rightarrow>
             (case fill_inode nd hashed entry v1 of None \<Rightarrow> (0, None)
              | Some v2 \<Rightarrow>
                 let ctl = fl_ctl st; ino = inode_number v2 nd;
                     v3 = (if dentry_inode v2 nd = None then v2
                           else shfs_new_dentry nd (upd_dentry nd (\<lambda>n. n\<lparr>dn_fsdata := ctl_fpos ctl\<rparr>) v2))
                 in case fill_slot a nd ctl v3 of (valid, ctl1, v4) \<Rightarrow>
                    case fill_advance filldir d name ino valid (st\<lparr>fl_v := v4, fl_ctl := ctl1\<rparr>) of
                      (r, st1) \<Rightarrow> (r, Some st1))))"

section \<open>Reading a directory\<close>

text \<open>
  The loop over the cached entries, from the slot \<open>idx\<close> of the page \<open>ofs\<close>: whether it finished (or
  found the cache invalid), the position and the state of \<open>filldir\<close>.
\<close>

function dircache_loop ::
  "('b \<Rightarrow> string \<Rightarrow> nat \<Rightarrow> nat \<Rightarrow> int \<times> 'b) \<Rightarrow> 'f vfs \<Rightarrow> (nat \<Rightarrow> dir_page option) \<Rightarrow> nat \<Rightarrow> nat \<Rightarrow> nat \<Rightarrow> nat
    \<Rightarrow> nat \<Rightarrow> 'b \<Rightarrow> bool \<times> nat \<times> 'b" where
  "dircache_loop filldir v pages d end_pos ofs idx pos out =
    (case pages ofs of None \<Rightarrow> (False, pos, out)
     | Some p \<Rightarrow>
        if \<not> pg_uptodate p then (False, pos, out)
        else (case shfs_dget_fpos v (pg_dentry p idx) d pos of
          None \<Rightarrow> (False, pos, out)
        | Some (n, vn) \<Rightarrow>
            (case filldir out (dn_name n) pos (i_ino (vn_inode vn)) of (res, out1) \<Rightarrow>
              if res \<noteq> 0 then (True, pos, out1)
              else if pos + 1 > end_pos then (True, pos + 1, out1)
              else if idx + 1 < SHFS_DIRCACHE_SIZE
                then dircache_loop filldir v pages d end_pos ofs (idx + 1) (pos + 1) out1
              else dircache_loop filldir v pages d end_pos (ofs + 1) 0 (pos + 1) out1)))"
  by pat_completeness auto
termination
  by (relation "measure (\<lambda>(_, _, _, _, end_pos, _, _, pos, _). Suc end_pos - pos)") auto

declare dircache_loop.simps [simp del]

text \<open>The entries \<open>.\<close> and \<open>..\<close>: the position they leave, and whether the directory is read on.\<close>

definition dot_entries ::
  "('b \<Rightarrow> string \<Rightarrow> nat \<Rightarrow> nat \<Rightarrow> int \<times> 'b) \<Rightarrow> nat \<Rightarrow> nat \<Rightarrow> nat \<Rightarrow> 'b \<Rightarrow> bool \<times> nat \<times> 'b" where
  "dot_entries filldir ino parent_ino pos out =
    (let (go, pos1, out1) =
       (if pos = 0 then (case filldir out ''.'' 0 ino of (r, out1) \<Rightarrow>
          if r < 0 then (False, pos, out1) else (True, 1, out1))
        else (True, pos, out))
     in if go \<and> pos1 = 1 then (case filldir out1 ''..'' 1 parent_ino of (r, out2) \<Rightarrow>
          if r < 0 then (False, pos1, out2) else (True, 2, out2))
        else (go, pos1, out1))"

text \<open>
  From \<open>init_cache\<close> on: the directory is read from the remote side and the cache filled. \<open>rd\<close> is
  the \<open>readdir\<close> of the table. The test for an index of -1 never holds, and is left out.
\<close>

type_synonym ('f, 'b) readdir_op =
  "(('f, 'b) filling option \<Rightarrow> string \<Rightarrow> shfs_fattr \<Rightarrow> int \<times> ('f, 'b) filling option) \<Rightarrow> 'f world \<Rightarrow> string
    \<Rightarrow> ('f, 'b) filling option \<Rightarrow> (int \<times> string \<times> ('f, 'b) filling option \<times> 'f world) option"

definition read_dir ::
  "('f, 'b) readdir_op \<Rightarrow> ('b \<Rightarrow> string \<Rightarrow> nat \<Rightarrow> nat \<Rightarrow> int \<times> 'b) \<Rightarrow> nat \<Rightarrow> nat \<Rightarrow> cache_head \<Rightarrow> nat \<Rightarrow> 'b
    \<Rightarrow> 'f vfs \<Rightarrow> (int \<times> nat \<times> 'b \<times> 'f vfs) option" where
  "read_dir rd filldir a d head pos out v = do {
     v1 \<leftarrow> shfs_invalidate_dircache_entries d v;
     let ctl = \<lparr>ctl_head = head\<lparr>ch_time := jiffies v, ch_eof := False\<rparr>, ctl_page = None, ctl_cache = Some 0,
           ctl_fpos = 2, ctl_ofs = 0, ctl_filled = 0, ctl_valid = True, ctl_idx = SHFS_DIRCACHE_START\<rparr>;
     (gn, name) \<leftarrow> vfs_name v1 d;
     if gn < 0 then Some (- ENAMETOOLONG, pos, out, v1)
     else do {
       (result, _, sto, w1) \<leftarrow> rd (shfs_fill_cache filldir a d) (v_sb v1) (c_str name)
         (Some \<lparr>fl_v = v1, fl_pos = pos, fl_out = out, fl_ctl = ctl\<rparr>);
       st \<leftarrow> sto;
       let ctl1 = fl_ctl st;
       let head1 = (ctl_head ctl1)\<lparr>ch_end := ctl_fpos ctl1 - 1, ch_eof := ctl_valid ctl1\<rparr>;
       let v2 = set_page a 0 (\<lambda>p. p\<lparr>pg_head := head1, pg_uptodate := True\<rparr>) (fl_v st);
       Some (result, fl_pos st, fl_out st, (page_done a (ctl_page ctl1) v2)\<lparr>v_sb := w1\<rparr>)
     }
   }"

text \<open>
  \<open>shfs_readdir\<close>: the result, the position, the state of \<open>filldir\<close> and the store. Without memory for
  page 0 the control block is used uninitialised (None).
\<close>

definition shfs_readdir ::
  "'f world shfs_fileops \<Rightarrow> ('f, 'b) readdir_op \<Rightarrow> ('b \<Rightarrow> string \<Rightarrow> nat \<Rightarrow> nat \<Rightarrow> int \<times> 'b) \<Rightarrow> nat \<Rightarrow> nat \<Rightarrow> 'b
    \<Rightarrow> 'f vfs \<Rightarrow> (int \<times> nat \<times> 'b \<times> 'f vfs) option" where
  "shfs_readdir fops rd filldir d pos out v = do {
     n \<leftarrow> v_dentry v d;
     (a, vn) \<leftarrow> dentry_inode v d;
     (case dot_entries filldir (i_ino (vn_inode vn)) (inode_number v (dn_parent n)) pos out of (go, pos1, out1) \<Rightarrow>
       if \<not> go then Some (0, pos1, out1, v)
       else do {
         (result, v1) \<leftarrow> shfs_revalidate_inode fops d v;
         if result \<noteq> 0 then Some (result, pos1, out1, v1)
         else (case grab_page a 0 v1 of (ok, v2) \<Rightarrow>
           if \<not> ok then None
           else do {
             vn2 \<leftarrow> v_inode v2 a;
             page \<leftarrow> vn_pages vn2 0;
             let head = pg_head page;
             if \<not> pg_uptodate page \<or> \<not> ch_eof head \<or>
                pos1 = 2 \<and> u64 (int (jiffies v2) - int (ch_time head)) \<ge> u64 (max_age v2)
             then read_dir rd filldir a d head pos1 out1 v2
             else if pos1 > ch_end head then Some (0, pos1, out1, v2)
             else
               let fpos = pos1 + (SHFS_DIRCACHE_START - 2)
               in case dircache_loop filldir v2 (vn_pages vn2) d (ch_end head)
                    (fpos div SHFS_DIRCACHE_SIZE) (fpos mod SHFS_DIRCACHE_SIZE) pos1 out1 of (fin, pos2, out2) \<Rightarrow>
                    if fin then Some (0, pos2, out2, v2)
                    else read_dir rd filldir a d head pos2 out2 v2
           })
       })
   }"

end
