(* ===== verification/VfsSpec.thy ===== *)
theory VfsSpec
  imports Vfs FCacheLimits
begin

text \<open>
  The invariant of the store: the parents of the dentries lead to a root, and a positive dentry has
  an inode with its private data. The walks up the tree end, and what they do is stated with the
  relation \<open>above\<close>. The caches of an inode follow its attributes; a stale inode is never
  refreshed, since the refresh waits for the lock it holds.
\<close>

section \<open>The tree of the dentries\<close>

definition tree_by :: "(nat \<Rightarrow> nat) \<Rightarrow> 'f vfs \<Rightarrow> bool" where
  "tree_by rank v \<longleftrightarrow> (\<forall>d n. v_dentry v d = Some n \<longrightarrow>
     v_dentry v (dn_parent n) \<noteq> None \<and> (dn_parent n = d \<or> rank (dn_parent n) < rank d))"

text \<open>The inode at an address has its private data.\<close>

definition has_info :: "vnode \<Rightarrow> bool" where
  "has_info vn \<longleftrightarrow> i_private (vn_inode vn) \<noteq> None"

definition live :: "'f vfs \<Rightarrow> nat \<Rightarrow> bool" where
  "live v a \<longleftrightarrow> (\<exists>vn. v_inode v a = Some vn \<and> has_info vn)"

definition vfs_ok :: "'f vfs \<Rightarrow> bool" where
  "vfs_ok v \<longleftrightarrow> (\<exists>rank. tree_by rank v) \<and>
     (\<forall>d n. v_dentry v d = Some n \<longrightarrow> d < v_next v \<and> (\<forall>a. dn_inode n = Some a \<longrightarrow> live v a)) \<and>
     (\<forall>a vn. v_inode v a = Some vn \<longrightarrow> a < v_next v)"

lemma vfs_okI:
  assumes "tree_by rank v" and "\<And>d n. v_dentry v d = Some n \<Longrightarrow> d < v_next v"
    and "\<And>d n a. v_dentry v d = Some n \<Longrightarrow> dn_inode n = Some a \<Longrightarrow> live v a"
    and "\<And>a vn. v_inode v a = Some vn \<Longrightarrow> a < v_next v"
  shows "vfs_ok v"
  using assms unfolding vfs_ok_def by blast

lemma vfs_okD:
  assumes "vfs_ok v"
  shows "\<exists>rank. tree_by rank v" and "v_dentry v d = Some n \<Longrightarrow> d < v_next v"
    and "v_dentry v d = Some n \<Longrightarrow> dn_inode n = Some a \<Longrightarrow> live v a"
    and "v_inode v a = Some vn \<Longrightarrow> a < v_next v"
  using assms unfolding vfs_ok_def by blast+

text \<open>\<open>above v d e\<close>: \<open>e\<close> is \<open>d\<close> or one of the directories it is in.\<close>

inductive above :: "'f vfs \<Rightarrow> nat \<Rightarrow> nat \<Rightarrow> bool" for v where
  above_refl: "v_dentry v d = Some n \<Longrightarrow> above v d d"
| above_up: "v_dentry v d = Some n \<Longrightarrow> dn_parent n \<noteq> d \<Longrightarrow> above v (dn_parent n) e \<Longrightarrow> above v d e"

inductive_cases aboveE: "above v d e"

text \<open>Two states with the same tree, whatever the rest of the dentries holds.\<close>

definition same_tree :: "'f vfs \<Rightarrow> 'f vfs \<Rightarrow> bool" where
  "same_tree v v' \<longleftrightarrow> (\<forall>d. map_option (\<lambda>n. (dn_name n, dn_parent n)) (v_dentry v d) =
     map_option (\<lambda>n. (dn_name n, dn_parent n)) (v_dentry v' d))"

lemma same_tree_refl [simp]: "same_tree v v"
  by (simp add: same_tree_def)

lemma same_tree_sym: "same_tree v v' \<Longrightarrow> same_tree v' v"
  by (simp add: same_tree_def)

lemma same_tree_trans: "same_tree v v' \<Longrightarrow> same_tree v' v'' \<Longrightarrow> same_tree v v''"
  by (simp add: same_tree_def)

lemma same_treeD:
  assumes "same_tree v v'" and "v_dentry v d = Some n"
  obtains n' where "v_dentry v' d = Some n'" "dn_name n' = dn_name n" "dn_parent n' = dn_parent n"
proof -
  from assms have "map_option (\<lambda>n. (dn_name n, dn_parent n)) (v_dentry v' d) = Some (dn_name n, dn_parent n)"
    unfolding same_tree_def by (metis option.map(2))
  then show thesis using that by auto
qed

lemma same_tree_upd:
  assumes "\<And>n. dn_name (f n) = dn_name n \<and> dn_parent (f n) = dn_parent n"
  shows "same_tree v (upd_dentry d f v)"
  using assms by (simp add: same_tree_def upd_dentry_def option.map_comp comp_def)

lemma tree_by_same_tree: "same_tree v v' \<Longrightarrow> tree_by rank v \<Longrightarrow> tree_by rank v'"
  unfolding tree_by_def by (metis same_treeD same_tree_sym not_Some_eq)

lemma above_same_tree:
  assumes "above v d e" and "same_tree v v'"
  shows "above v' d e"
  using assms
proof (induction)
  case (above_refl d n)
  then obtain n' where "v_dentry v' d = Some n'" by (elim same_treeD)
  then show ?case by (rule above.above_refl)
next
  case (above_up d n e)
  then obtain n' where "v_dentry v' d = Some n'" "dn_parent n' = dn_parent n" by (elim same_treeD)
  with above_up show ?case using above.above_up [of v' d n' e] by simp
qed

lemma above_same_tree_iff: "same_tree v v' \<Longrightarrow> above v' d e = above v d e"
  using above_same_tree same_tree_sym by metis

lemma above_root: "v_dentry v d = Some n \<Longrightarrow> dn_parent n = d \<Longrightarrow> above v d e \<longleftrightarrow> e = d"
  by (auto elim: aboveE intro: above_refl)

lemma above_step:
  assumes "v_dentry v d = Some n" and "dn_parent n \<noteq> d"
  shows "above v d e \<longleftrightarrow> e = d \<or> above v (dn_parent n) e"
proof
  assume "above v d e"
  then show "e = d \<or> above v (dn_parent n) e" using assms by (auto elim: aboveE)
next
  assume "e = d \<or> above v (dn_parent n) e"
  then show "above v d e" using assms above.intros by auto
qed

lemma above_in: "above v d e \<Longrightarrow> v_dentry v e \<noteq> None"
  by (induction rule: above.induct) auto

section \<open>The walks up the tree\<close>

lemma d_path_total:
  assumes "tree_by rank v" and "v_dentry v d \<noteq> None"
  shows "\<exists>ns. d_path v d = Some ns"
  using assms(2)
proof (induction "rank d" arbitrary: d rule: less_induct)
  case less
  then obtain n where n: "v_dentry v d = Some n" by auto
  show ?case
  proof (cases "dn_parent n = d")
    case True
    with n show ?thesis by (simp add: d_path.simps)
  next
    case False
    with n assms(1) have "rank (dn_parent n) < rank d" "v_dentry v (dn_parent n) \<noteq> None"
      by (auto simp: tree_by_def)
    then obtain ns where "d_path v (dn_parent n) = Some ns" using less.hyps by blast
    with n False show ?thesis by (subst d_path.simps) simp
  qed
qed

lemma d_path_same_tree:
  assumes "tree_by rank v" and "same_tree v v'" and "v_dentry v d \<noteq> None"
  shows "d_path v' d = d_path v d"
  using assms(3)
proof (induction "rank d" arbitrary: d rule: less_induct)
  case less
  then obtain n where n: "v_dentry v d = Some n" by auto
  obtain n' where n': "v_dentry v' d = Some n'" "dn_name n' = dn_name n" "dn_parent n' = dn_parent n"
    using same_treeD [OF assms(2) n] by blast
  show ?case
  proof (cases "dn_parent n = d")
    case True
    with n n' show ?thesis by (simp add: d_path.simps)
  next
    case False
    with n assms(1) have "rank (dn_parent n) < rank d" "v_dentry v (dn_parent n) \<noteq> None"
      by (auto simp: tree_by_def)
    then have "d_path v' (dn_parent n) = d_path v (dn_parent n)" using less.hyps by blast
    with n n' False show ?thesis by (subst (1 2) d_path.simps) simp
  qed
qed

text \<open>The time of some dentries is set to the present.\<close>

definition stamp :: "(nat \<Rightarrow> bool) \<Rightarrow> 'f vfs \<Rightarrow> 'f vfs" where
  "stamp P v = v\<lparr>v_dentry := \<lambda>e. if P e then map_option (\<lambda>n. n\<lparr>dn_time := jiffies v\<rparr>) (v_dentry v e)
     else v_dentry v e\<rparr>"

lemma stamp_same_tree: "same_tree v (stamp P v)"
  by (simp add: same_tree_def stamp_def option.map_comp comp_def)

lemma stamp_one: "upd_dentry d (\<lambda>n. n\<lparr>dn_time := jiffies v\<rparr>) v = stamp (\<lambda>e. e = d) v"
  by (simp add: upd_dentry_def stamp_def fun_eq_iff)

lemma stamp_stamp: "stamp P (stamp Q v) = stamp (\<lambda>e. P e \<or> Q e) v"
  by (simp add: stamp_def fun_eq_iff option.map_comp comp_def)

lemma renew_times_spec:
  assumes "tree_by rank v" and "v_dentry v d \<noteq> None"
  shows "shfs_renew_times d v = Some (stamp (above v d) v)"
  using assms
proof (induction "rank d" arbitrary: d v rule: less_induct)
  case less
  then obtain n where n: "v_dentry v d = Some n" by auto
  let ?v = "stamp (\<lambda>e. e = d) v"
  show ?case
  proof (cases "dn_parent n = d")
    case True
    with n have "above v d = (\<lambda>e. e = d)" by (simp add: fun_eq_iff above_root)
    with n True show ?thesis by (subst shfs_renew_times.simps) (simp add: stamp_one)
  next
    case False
    with n less.prems(1) have up: "rank (dn_parent n) < rank d" "v_dentry v (dn_parent n) \<noteq> None"
      by (auto simp: tree_by_def)
    have "shfs_renew_times (dn_parent n) ?v = Some (stamp (above ?v (dn_parent n)) ?v)"
      by (rule less.hyps [OF up(1)])
        (use tree_by_same_tree [OF stamp_same_tree less.prems(1)] up(2) in \<open>auto simp: stamp_def\<close>)
    moreover have "above v d = (\<lambda>e. above v (dn_parent n) e \<or> e = d)"
      using n False by (auto simp: fun_eq_iff above_step)
    moreover have "above ?v (dn_parent n) = above v (dn_parent n)"
      by (simp add: fun_eq_iff above_same_tree_iff [OF stamp_same_tree])
    ultimately show ?thesis
      using n False by (subst shfs_renew_times.simps) (simp add: stamp_one stamp_stamp)
  qed
qed

section \<open>What keeps the invariant\<close>

named_theorems vfs_simps \<open>the parts of the state that an update leaves alone\<close>

lemma upd_inode_simps [vfs_simps]:
  "v_dentry (upd_inode a f v) = v_dentry v" "v_sb (upd_inode a f v) = v_sb v"
  "v_next (upd_inode a f v) = v_next v" "jiffies (upd_inode a f v) = jiffies v"
  "v_stk (upd_inode a f v) = v_stk v" "s_magic (upd_inode a f v) = s_magic v" "hz (upd_inode a f v) = hz v"
  "v_inode (upd_inode a f v) b = (if b = a then map_option f (v_inode v a) else v_inode v b)"
  by (simp_all add: upd_inode_def)

lemma upd_dentry_simps [vfs_simps]:
  "v_inode (upd_dentry d f v) = v_inode v" "v_sb (upd_dentry d f v) = v_sb v"
  "v_next (upd_dentry d f v) = v_next v" "jiffies (upd_dentry d f v) = jiffies v"
  "v_stk (upd_dentry d f v) = v_stk v" "s_magic (upd_dentry d f v) = s_magic v" "hz (upd_dentry d f v) = hz v"
  "v_dentry (upd_dentry d f v) e = (if e = d then map_option f (v_dentry v d) else v_dentry v e)"
  by (simp_all add: upd_dentry_def)

lemma stamp_simps [vfs_simps]:
  "v_inode (stamp P v) = v_inode v" "v_sb (stamp P v) = v_sb v" "v_next (stamp P v) = v_next v"
  "jiffies (stamp P v) = jiffies v" "v_stk (stamp P v) = v_stk v" "s_magic (stamp P v) = s_magic v"
  "hz (stamp P v) = hz v"
  by (simp_all add: stamp_def)

lemma live_cong: "v_inode v' a = v_inode v a \<Longrightarrow> live v' a = live v a"
  by (simp add: live_def)

lemma vfs_ok_cong:
  assumes "v_dentry v' = v_dentry v" and "v_inode v' = v_inode v" and "v_next v' = v_next v"
  shows "vfs_ok v' = vfs_ok v"
  unfolding vfs_ok_def tree_by_def live_def assms ..

lemma vfs_ok_sb [simp]: "vfs_ok (v\<lparr>v_sb := w\<rparr>) = vfs_ok v"
  by (rule vfs_ok_cong) simp_all

lemma vfs_ok_upd_inode:
  assumes "vfs_ok v" and "\<And>vn. has_info vn \<Longrightarrow> has_info (f vn)"
  shows "vfs_ok (upd_inode a f v)"
proof -
  obtain rank where rank: "tree_by rank v" using vfs_okD(1) [OF assms(1)] by blast
  note v = rank vfs_okD(2-4) [OF assms(1)]
  have live: "live (upd_inode a f v) b" if "live v b" for b
    using that assms(2) by (auto simp: live_def vfs_simps)
  show ?thesis
  proof (rule vfs_okI)
    show "tree_by rank (upd_inode a f v)" using v(1) by (simp add: tree_by_def vfs_simps)
    show "b < v_next (upd_inode a f v)" if "v_inode (upd_inode a f v) b = Some vn" for b vn
      using that v(4) by (auto simp: vfs_simps split: if_splits)
  qed (auto simp: vfs_simps intro: v live)
qed

lemma vfs_ok_upd_dentry:
  assumes "vfs_ok v" and f: "\<And>n. dn_name (f n) = dn_name n \<and> dn_parent (f n) = dn_parent n"
    and i: "\<And>n a. v_dentry v d = Some n \<Longrightarrow> dn_inode (f n) = Some a \<Longrightarrow> dn_inode n = Some a \<or> live v a"
  shows "vfs_ok (upd_dentry d f v)"
proof -
  obtain rank where rank: "tree_by rank v" using vfs_okD(1) [OF assms(1)] by blast
  note v = rank vfs_okD(2-4) [OF assms(1)]
  show ?thesis
  proof (rule vfs_okI)
    show "tree_by rank (upd_dentry d f v)" by (rule tree_by_same_tree [OF same_tree_upd [OF f] v(1)])
    show "live (upd_dentry d f v) a" if "v_dentry (upd_dentry d f v) e = Some n" "dn_inode n = Some a" for e n a
    proof -
      have "live v a"
      proof (cases "e = d")
        case True
        with that obtain m where m: "v_dentry v d = Some m" "dn_inode (f m) = Some a"
          by (auto simp: vfs_simps)
        then show ?thesis using i [OF m] v(3) [OF m(1)] by blast
      next
        case False
        with that v(3) show ?thesis by (auto simp: vfs_simps)
      qed
      then show ?thesis using live_cong [of "upd_dentry d f v" a v] by (simp add: vfs_simps)
    qed
  qed (auto simp: vfs_simps dest: v(2-4) split: if_splits)
qed

lemma vfs_ok_stamp:
  assumes "vfs_ok v"
  shows "vfs_ok (stamp P v)"
proof -
  obtain rank where rank: "tree_by rank v" using vfs_okD(1) [OF assms(1)] by blast
  note v = rank vfs_okD(2-4) [OF assms(1)]
  show ?thesis
  proof (rule vfs_okI)
    show "tree_by rank (stamp P v)" by (rule tree_by_same_tree [OF stamp_same_tree v(1)])
    show "live (stamp P v) a" if "v_dentry (stamp P v) e = Some n" "dn_inode n = Some a" for e n a
      using that v(3) live_cong [of "stamp P v" a v] by (auto simp: stamp_def split: if_splits)
  qed (auto simp: stamp_def dest: v(2-4) split: if_splits)
qed

lemma clear_private: "i_private i \<noteq> None \<Longrightarrow> i_private (the (snd (fcache_file_clear (Some i)))) \<noteq> None"
  by (auto simp: fcache_file_clear_def split: option.splits)

lemma set_attr_info: "has_info vn \<Longrightarrow> has_info (set_attr w t fa vn)"
  using clear_private [of "fattr_inode w t fa (vn_inode vn)"]
  by (simp add: has_info_def set_attr_def Let_def fattr_inode_def)

lemma vfs_ok_set_inode_attr: "vfs_ok v \<Longrightarrow> vfs_ok (shfs_set_inode_attr a fa v)"
  unfolding shfs_set_inode_attr_def by (erule vfs_ok_upd_inode) (rule set_attr_info)

lemma vfs_ok_invalid_dir_cache: "vfs_ok v \<Longrightarrow> vfs_ok (shfs_invalid_dir_cache a v)"
  unfolding shfs_invalid_dir_cache_def
  by (erule vfs_ok_upd_inode) (simp add: has_info_def split: option.split)

lemma vfs_ok_new_dentry: "vfs_ok v \<Longrightarrow> vfs_ok (shfs_new_dentry d v)"
  unfolding shfs_new_dentry_def by (erule vfs_ok_upd_dentry) auto

lemma vfs_ok_age_dentry: "vfs_ok v \<Longrightarrow> vfs_ok (shfs_age_dentry d v)"
  unfolding shfs_age_dentry_def by (erule vfs_ok_upd_dentry) auto

lemma renew_times_ok:
  assumes "vfs_ok v" and "v_dentry v d \<noteq> None"
  shows "shfs_renew_times d v = Some (stamp (above v d) v)"
  using vfs_okD(1) [OF assms(1)] renew_times_spec [OF _ assms(2)] by blast

lemma vfs_ok_renew_times:
  assumes "vfs_ok v" and "shfs_renew_times d v = Some v'"
  shows "vfs_ok v'"
proof (cases "v_dentry v d = None")
  case True
  with assms(2) show ?thesis by (simp add: shfs_renew_times.simps)
next
  case False
  then have "v' = stamp (above v d) v" using assms(2) renew_times_ok [OF assms(1)] by simp
  then show ?thesis using vfs_ok_stamp [OF assms(1)] by simp
qed

lemma d_path_ok: "vfs_ok v \<Longrightarrow> v_dentry v d \<noteq> None \<Longrightarrow> \<exists>ns. d_path v d = Some ns"
  using vfs_okD(1) d_path_total by blast

text \<open>A new inode: it has a fresh address and the attributes reported, and nothing else changes.\<close>

lemma fattr_inode_simps:
  "i_ino (fattr_inode w t fa i) = i_ino i" "i_mode (fattr_inode w t fa i) = f_mode fa"
  "i_size (fattr_inode w t fa i) = f_size fa" "i_mtime (fattr_inode w t fa i) = f_mtime fa"
  "i_private (fattr_inode w t fa i) = map_option (\<lambda>p. p\<lparr>oldmtime := t\<rparr>) (i_private i)"
  by (simp_all add: fattr_inode_def)

text \<open>An inode without a cache is given the attributes and nothing else.\<close>

lemma set_attr_no_cache:
  assumes "i_private (vn_inode vn) = Some p" and "cache p = None"
  shows "vn_inode (set_attr w t fa vn) = fattr_inode w t fa (vn_inode vn)"
    and "vn_ops (set_attr w t fa vn) = vn_ops vn" and "vn_bad (set_attr w t fa vn) = vn_bad vn"
  using assms by (simp_all add: set_attr_def Let_def fcache_file_clear_def fattr_inode_simps)

lemma alloc_ok_simps:
  assumes "alloc_ok v = (ok, v1)"
  shows "v_dentry v1 = v_dentry v" "v_inode v1 = v_inode v" "v_next v1 = v_next v" "v_sb v1 = v_sb v"
    "jiffies v1 = jiffies v" "v_stk v1 = v_stk v" "allocs v = [] \<Longrightarrow> ok \<and> v1 = v"
  using assms by (auto simp: alloc_ok_def split: list.splits)

definition new_info :: shfs_inode_info where
  "new_info = \<lparr>oldmtime = 0, unset_write_on_close = False, cache = None\<rparr>"

definition new_vnode :: "'f vfs \<Rightarrow> shfs_fattr \<Rightarrow> vnode" where
  "new_vnode v fa = \<lparr>vn_inode = fattr_inode (v_sb v) (jiffies v) fa
       (blank_inode\<lparr>i_ino := f_ino fa, i_private := Some new_info\<rparr>),
     vn_ops = inode_ops (f_mode fa), vn_bad = False, vn_pages = (\<lambda>_. None)\<rparr>"

lemma shfs_iget_cases:
  assumes "shfs_iget fa v = (r, v')"
  shows "v_dentry v' = v_dentry v" and "v_sb v' = v_sb v" and "jiffies v' = jiffies v" and "v_stk v' = v_stk v"
    and "r = Some a \<Longrightarrow> a = v_next v \<and> v_inode v' = (v_inode v)(a := Some (new_vnode v fa)) \<and> v_next v' = a + 1"
    and "r = None \<Longrightarrow> v_inode v' = v_inode v \<and> v_next v' = v_next v \<or>
      v_next v' = v_next v + 1 \<and> (\<exists>vn. v_inode v' = (v_inode v)(v_next v := Some vn))"
    and "allocs v = [] \<Longrightarrow> r = Some (v_next v)"
proof -
  obtain ok v1 where 1: "alloc_ok v = (ok, v1)" by fastforce
  note s1 = alloc_ok_simps [OF 1]
  define vn where "vn = \<lparr>vn_inode = blank_inode\<lparr>i_ino := f_ino fa\<rparr>, vn_ops = No_ops, vn_bad = False,
    vn_pages = (\<lambda>_. None)\<rparr>"
  define v2 where "v2 = v1\<lparr>v_next := v_next v1 + 1, v_inode := (v_inode v1)(v_next v1 := Some vn)\<rparr>"
  obtain ok2 v3 where 3: "alloc_ok v2 = (ok2, v3)" by fastforce
  note s3 = alloc_ok_simps [OF 3]
  define vn4 where "vn4 = vn\<lparr>vn_inode := blank_inode\<lparr>i_ino := f_ino fa, i_private := Some new_info\<rparr>\<rparr>"
  have attr: "(set_attr (v_sb v) (jiffies v) fa vn4)\<lparr>vn_ops := inode_ops (f_mode fa)\<rparr> = new_vnode v fa"
    using set_attr_no_cache [of vn4 new_info "v_sb v" "jiffies v" fa]
    by (simp add: new_vnode_def vn4_def vn_def new_info_def set_attr_def Let_def)
  have eq: "shfs_iget fa v = (if \<not> ok then (None, v1) else if \<not> ok2 then (None, v3)
    else (Some (v_next v), v3\<lparr>v_inode := (v_inode v)(v_next v := Some (new_vnode v fa))\<rparr>))"
  proof -
    have m: "i_mode (vn_inode (set_attr (v_sb v) (jiffies v) fa vn4)) = f_mode fa"
      using set_attr_no_cache(1) [of vn4 new_info "v_sb v" "jiffies v" fa]
      by (simp add: vn4_def new_info_def fattr_inode_simps)
    have "upd_inode (v_next v) (\<lambda>vn. vn\<lparr>vn_ops := inode_ops (i_mode (vn_inode vn))\<rparr>)
        (shfs_set_inode_attr (v_next v) fa (upd_inode (v_next v)
          (\<lambda>vn. vn\<lparr>vn_inode := blank_inode\<lparr>i_ino := f_ino fa, i_private := Some new_info\<rparr>\<rparr>) v3)) =
        v3\<lparr>v_inode := (v_inode v)(v_next v := Some (new_vnode v fa))\<rparr>"
      using s1 s3 attr m
      by (simp add: upd_inode_def shfs_set_inode_attr_def v2_def vn4_def [symmetric] fun_upd_def [symmetric])
    then show ?thesis
      using 1 3 s1 by (simp add: shfs_iget_def Let_def v2_def vn_def new_info_def [symmetric] del: fun_upd_apply)
  qed
  show "v_dentry v' = v_dentry v" "v_sb v' = v_sb v" "jiffies v' = jiffies v" "v_stk v' = v_stk v"
    using assms eq s1 s3 by (auto simp: v2_def split: if_splits)
  show "r = Some a \<Longrightarrow> a = v_next v \<and> v_inode v' = (v_inode v)(a := Some (new_vnode v fa)) \<and> v_next v' = a + 1"
    using assms eq s1 s3 by (auto simp: v2_def split: if_splits)
  show "r = None \<Longrightarrow> v_inode v' = v_inode v \<and> v_next v' = v_next v \<or>
      v_next v' = v_next v + 1 \<and> (\<exists>vn. v_inode v' = (v_inode v)(v_next v := Some vn))"
    using assms eq s1 s3 by (auto simp: v2_def split: if_splits)
  show "allocs v = [] \<Longrightarrow> r = Some (v_next v)"
    using assms eq s1 s3 by (auto simp: v2_def)
qed

lemma shfs_iget_ok:
  assumes "vfs_ok v" and "shfs_iget fa v = (r, v')"
  shows "vfs_ok v'" and "r = Some a \<Longrightarrow> live v' a"
proof -
  obtain rank where rank: "tree_by rank v" using vfs_okD(1) [OF assms(1)] by blast
  note v = vfs_okD(2-4) [OF assms(1)] and c = shfs_iget_cases [OF assms(2)]
  have new: "has_info (new_vnode v fa)" by (simp add: has_info_def new_vnode_def fattr_inode_simps)
  have le: "v_next v \<le> v_next v'" using c(5) [of "the r"] c(6) by (cases r) auto
  have old: "v_inode v' b = v_inode v b" if "b < v_next v" for b
    using c(5) [of "the r"] c(6) that by (cases r) auto
  show "vfs_ok v'"
  proof (rule vfs_okI)
    show "tree_by rank v'" using rank c(1) by (simp add: tree_by_def)
    show "d < v_next v'" if "v_dentry v' d = Some n" for d n
      using v(1) [of d n] that c(1) le by simp
    show "live v' b" if "v_dentry v' d = Some n" "dn_inode n = Some b" for d n b
    proof -
      have "live v b" using that c(1) v(2) by simp
      then show ?thesis using old [of b] v(3) live_cong [of v' b v] by (auto simp: live_def)
    qed
    show "b < v_next v'" if "v_inode v' b = Some vn" for b vn
      using c(5) [of "the r"] c(6) that v(3) [of b vn] by (cases r) (auto split: if_splits)
  qed
  show "live v' a" if "r = Some a" using c(5) [OF that] new by (simp add: live_def)
qed

section \<open>Attributes and caches\<close>

text \<open>
  C37: When the remote side reports another time or size, the file cache is right for any new
  content of the remote file: a clean window is emptied, and bytes not yet sent stay laid over it.
\<close>

theorem attr_change_coherent:
  assumes "v_inode v a = Some vn" and "fd_ok S \<lparr>d_names = ns, d_inode = Some (vn_inode vn)\<rparr> old"
    and "\<not> S_ISDIR (f_mode fa)"
    and "f_mtime fa \<noteq> i_mtime (vn_inode vn) \<or> f_size fa \<noteq> i_size (vn_inode vn)"
  shows "\<exists>vn'. v_inode (shfs_set_inode_attr a fa v) a = Some vn' \<and>
    fd_ok S \<lparr>d_names = ns, d_inode = Some (vn_inode vn')\<rparr> new \<and>
    fd_view \<lparr>d_names = ns, d_inode = Some (vn_inode vn')\<rparr> new =
      fd_view \<lparr>d_names = ns, d_inode = Some (vn_inode vn)\<rparr> new"
proof -
  let ?i = "fattr_inode (v_sb v) (jiffies v) fa (vn_inode vn)"
  let ?vn = "set_attr (v_sb v) (jiffies v) fa vn"
  obtain p where p: "i_private (vn_inode vn) = Some p"
    "\<And>c. cache p = Some c \<Longrightarrow> fc_ok S c old"
    using assms(2) by (auto simp: fd_ok_def cache_of_def inode_info_ok_def split: option.splits if_splits)
  have eq: "vn_inode ?vn = the (snd (fcache_file_clear (Some ?i)))"
    using assms(4) by (simp add: set_attr_def Let_def fattr_inode_simps)
  have "fd_ok S \<lparr>d_names = ns, d_inode = Some (vn_inode ?vn)\<rparr> new \<and>
    fd_view \<lparr>d_names = ns, d_inode = Some (vn_inode ?vn)\<rparr> new =
      fd_view \<lparr>d_names = ns, d_inode = Some (vn_inode vn)\<rparr> new"
  proof (cases "cache p")
    case None
    with p eq assms(3) show ?thesis
      by (simp add: fcache_file_clear_def fattr_inode_simps fd_ok_def fd_view_def cache_of_def inode_info_ok_def)
  next
    case (Some c)
    from p(2) [OF Some] have "fc_type c = FCACHE_READ \<Longrightarrow> fc_ok S (c\<lparr>fc_count := 0\<rparr>) new"
      and "fc_type c = FCACHE_WRITE \<Longrightarrow> fc_ok S c new"
      by (simp_all add: fc_ok_def fc_wf_def fc_clean_def fslice_def)
    moreover have "fc_type c = FCACHE_READ \<Longrightarrow> fc_count c = 0 \<Longrightarrow> c = c\<lparr>fc_count := 0\<rparr>" by simp
    ultimately show ?thesis using p(1) Some eq assms(3)
      by (cases "fc_type c"; cases "fc_count c = 0")
        (simp_all add: fcache_file_clear_def fattr_inode_simps fd_ok_def fd_view_def cache_of_def inode_info_ok_def)
  qed
  with assms(1) show ?thesis by (simp add: shfs_set_inode_attr_def vfs_simps)
qed

section \<open>Refreshing\<close>

lemma vfs_ok_bad_inode: "vfs_ok v \<Longrightarrow> vfs_ok (upd_inode a (bad_inode t) v)"
  by (erule vfs_ok_upd_inode) (simp add: has_info_def bad_inode_def)

lemma refresh_ok:
  assumes "vfs_ok v" and r: "shfs_refresh_inode fops d v = Some (r, v')"
  shows "vfs_ok v'"
proof -
  from r obtain a vn where di: "dentry_inode v d = Some (a, vn)"
    by (auto simp: shfs_refresh_inode_def elim: bind_SomeE)
  show ?thesis
  proof (cases "i_ino (vn_inode vn) = 2")
    case True
    with r di show ?thesis
      using vfs_ok_renew_times [OF assms(1)] by (auto simp: shfs_refresh_inode_def elim: bind_SomeE)
  next
    case False
    with r di obtain gn name where n: "vfs_name v d = Some (gn, name)"
      by (auto simp: shfs_refresh_inode_def elim: bind_SomeE)
    show ?thesis
    proof (cases "gn < 0")
      case True
      with r di False n assms(1) show ?thesis by (simp add: shfs_refresh_inode_def)
    next
      case pos: False
      with r di False n obtain res nm fa w1 where st: "op_stat fops (v_sb v) (c_str name) = Some (res, nm, fa, w1)"
        by (auto simp: shfs_refresh_inode_def elim: bind_SomeE)
      let ?v = "v\<lparr>v_sb := w1\<rparr>"
      show ?thesis
      proof (cases "res < 0")
        case True
        with r di False n pos st assms(1) show ?thesis by (auto simp: shfs_refresh_inode_def Let_def)
      next
        case False
        note * = r [unfolded shfs_refresh_inode_def di n st Let_def Option.bind.bind_lunit prod.case]
        obtain v2 where v2: "shfs_renew_times d ?v = Some v2"
          using * \<open>i_ino (vn_inode vn) \<noteq> 2\<close> pos False by (auto elim: bind_SomeE)
        have "vfs_ok v2" using vfs_ok_renew_times [OF _ v2] assms(1) by simp
        then show ?thesis using * \<open>i_ino (vn_inode vn) \<noteq> 2\<close> pos False v2
          by (auto split: if_splits
              intro: vfs_ok_set_inode_attr vfs_ok_invalid_dir_cache vfs_ok_bad_inode)
      qed
    qed
  qed
qed

lemma revalidate_ok:
  assumes "vfs_ok v" and "shfs_revalidate_inode fops d v = Some (r, v')"
  shows "vfs_ok v'"
proof -
  have ok: "vfs_ok (v\<lparr>v_sb := w\<rparr>)" for w using assms(1) by simp
  show ?thesis using assms(2) ok refresh_ok [OF ok]
    by (auto simp: shfs_revalidate_inode_def Let_def elim!: bind_SomeE split: if_splits)
qed

text \<open>The root is never looked up.\<close>

lemma refresh_root:
  assumes "vfs_ok v" and "dentry_inode v d = Some (a, vn)" and "i_ino (vn_inode vn) = 2"
  shows "shfs_refresh_inode fops d v = Some (0, stamp (above v d) v)"
proof -
  from assms(2) have "v_dentry v d \<noteq> None" by (auto simp: dentry_inode_def elim: bind_SomeE)
  with assms show ?thesis by (simp add: shfs_refresh_inode_def renew_times_ok)
qed

lemma refresh_held:
  assumes "vfs_ok v" and "dentry_inode v d = Some (a, vn)" and "i_ino (vn_inode vn) \<noteq> 2"
    and "d_path v d = Some ns" and "check_path (c_str (snd (get_name ns (v_stk v)))) = (True, name)"
    and "shfs_mutex (v_sb v)" and "\<not> signalled (v_sb v)"
  shows "shfs_refresh_inode (shell_fops so mktime) d v = None"
proof -
  obtain gn nm where gn: "get_name ns (v_stk v) = (gn, nm)" "\<not> gn < 0"
    using get_name_not_negative [of ns "v_stk v"] by (cases "get_name ns (v_stk v)") auto
  with assms(5,6,7) have "op_stat (shell_fops so mktime) (v_sb v) (c_str nm) = None"
    by (simp add: shell_fops_def shell_stat_def do_ls_def locked_held)
  with assms(2,3,4) gn show ?thesis
    by (simp add: shfs_refresh_inode_def vfs_name_def)
qed

text \<open>
  C38: An inode whose attributes are old is never refreshed: \<open>shfs_revalidate_inode\<close> holds the lock
  that \<open>stat\<close> takes. Only the root and inodes looked up less than the time to live ago return.
\<close>

theorem revalidate_deadlock:
  assumes "vfs_ok v" and "dentry_inode v d = Some (a, vn)" and "\<not> vn_bad vn" and "s_magic v = SHFS_SUPER_MAGIC"
    and "i_private (vn_inode vn) = Some p" and "i_ino (vn_inode vn) \<noteq> 2"
    and "\<not> time_before (jiffies v) (u64 (int (oldmtime p) + max_age v))"
    and "d_path v d = Some ns" and "check_path (c_str (snd (get_name ns (v_stk v)))) = (True, name)"
    and "\<not> signalled (v_sb v)"
  shows "shfs_revalidate_inode (shell_fops so mktime) d v = None \<and>
    shfs_getattr (shell_fops so mktime) d v = None"
proof -
  have "shfs_revalidate_inode (shell_fops so mktime) d v = None"
  proof (cases "shfs_mutex (v_sb v)")
    case True
    with assms(2) show ?thesis by (simp add: shfs_revalidate_inode_def mutex_lock_def)
  next
    case False
    let ?v = "v\<lparr>v_sb := (v_sb v)\<lparr>shfs_mutex := True\<rparr>\<rparr>"
    have "dentry_inode ?v d = Some (a, vn)" using assms(2) by (simp add: dentry_inode_def)
    moreover obtain rank where "tree_by rank v" using vfs_okD(1) [OF assms(1)] by blast
    then have "d_path ?v d = Some ns"
      using d_path_same_tree [of rank v ?v d] assms(2,8)
      by (auto simp: same_tree_def dentry_inode_def elim: bind_SomeE)
    ultimately have "shfs_refresh_inode (shell_fops so mktime) d ?v = None"
      using assms by (intro refresh_held) simp_all
    with False assms show ?thesis
      by (simp add: shfs_revalidate_inode_def mutex_lock_def)
  qed
  then show ?thesis by (simp add: shfs_getattr_def)
qed

text \<open>Fresh, bad and root inodes are revalidated without a word to the remote side.\<close>

lemma quiet_spec:
  assumes "vfs_ok v" and "dentry_inode v d = Some (a, vn)" and "\<not> shfs_mutex (v_sb v)"
    and "i_private (vn_inode vn) = Some p"
    and "vn_bad vn \<or> i_ino (vn_inode vn) = 2 \<or> time_before (jiffies v) (u64 (int (oldmtime p) + max_age v))"
  shows "\<exists>v'. shfs_revalidate_inode fops d v = Some (0, v') \<and> v_sb v' = v_sb v \<and> v_inode v' = v_inode v \<and>
    (v' = v \<or> v' = stamp (above v d) v) \<and> vfs_ok v'"
proof -
  let ?v = "v\<lparr>v_sb := (v_sb v)\<lparr>shfs_mutex := True\<rparr>\<rparr>"
  have sb: "(v_sb v)\<lparr>shfs_mutex := False\<rparr> = v_sb v" using assms(3) by simp
  have di: "dentry_inode ?v d = Some (a, vn)" using assms(2) by (simp add: dentry_inode_def)
  have st: "(stamp (above ?v d) ?v)\<lparr>v_sb := v_sb v\<rparr> = stamp (above v d) v"
    using above_same_tree_iff [of v ?v d] by (simp add: stamp_def same_tree_def fun_eq_iff)
  show ?thesis
  proof (cases "vn_bad vn \<or> s_magic v \<noteq> SHFS_SUPER_MAGIC \<or>
      time_before (jiffies v) (u64 (int (oldmtime p) + max_age v))")
    case True
    have "shfs_revalidate_inode fops d v = Some (0, v)"
    proof (cases "vn_bad vn \<or> s_magic v \<noteq> SHFS_SUPER_MAGIC")
      case True
      with assms(2,3) show ?thesis
        by (simp add: shfs_revalidate_inode_def mutex_lock_def mutex_unlock_def sb)
    next
      case False
      with True assms(2,3,4) show ?thesis
        by (simp add: shfs_revalidate_inode_def mutex_lock_def mutex_unlock_def sb)
    qed
    with assms(1) show ?thesis by blast
  next
    case False
    with assms(5) have "i_ino (vn_inode vn) = 2" by blast
    with refresh_root [OF _ di, of fops] assms(1)
    have "shfs_refresh_inode fops d ?v = Some (0, stamp (above ?v d) ?v)" by simp
    with False assms(2,3,4) st have "shfs_revalidate_inode fops d v = Some (0, stamp (above v d) v)"
      by (simp add: shfs_revalidate_inode_def mutex_lock_def mutex_unlock_def vfs_simps sb)
    then show ?thesis using vfs_ok_stamp [OF assms(1)] by (auto simp: vfs_simps)
  qed
qed

end
