(* ===== verification/DirSpec.thy ===== *)
theory DirSpec
  imports Dir VfsSpec
begin

text \<open>
  What the directory operations do to the store: a state machine whose steps are the operations,
  with the invariant of the store; the effect of creating a file; what a read-only mount refuses;
  the dentry operation that waits for itself; and links that are followed the wrong way round.
\<close>

section \<open>The invariant\<close>

lemma namedE:
  assumes "named v d rest = Some (r, v')" and "vfs_ok v \<Longrightarrow> P v"
    and "\<And>name. rest name = Some (r, v') \<Longrightarrow> vfs_ok v \<Longrightarrow> P v'"
    and "vfs_ok v"
  shows "P v'"
  using assms by (auto simp: named_def elim!: bind_SomeE split: if_splits prod.splits)

lemma vfs_ok_iunique: "iunique v = (i, v') \<Longrightarrow> vfs_ok v \<Longrightarrow> vfs_ok v'"
  by (auto simp: iunique_def intro: iffD1 [OF vfs_ok_cong, rotated 3])

lemma live_renew_times: "shfs_renew_times d v = Some v' \<Longrightarrow> vfs_ok v \<Longrightarrow> live v' a = live v a"
  using renew_times_ok [of v d]
  by (cases "v_dentry v d") (auto simp: shfs_renew_times.simps [of d v] live_def vfs_simps)

lemma vfs_ok_bind_inode:
  assumes "vfs_ok v" and "case a of None \<Rightarrow> True | Some b \<Rightarrow> live v b"
  shows "vfs_ok (d_add d a v)" and "a = Some b \<Longrightarrow> vfs_ok (d_instantiate d b v)"
  unfolding d_add_def d_instantiate_def
  using assms by (auto intro!: vfs_ok_upd_dentry)

lemma instantiate_ok:
  assumes "vfs_ok v" and "shfs_instantiate fops d v = Some (r, v')"
  shows "vfs_ok v'"
proof (rule namedE [OF assms(2) [unfolded shfs_instantiate_def] _ _ assms(1)])
  fix name
  assume st: "op_stat fops (v_sb v) name \<bind> (\<lambda>(result, _, fa, w1). let v1 = v\<lparr>v_sb := w1\<rparr> in
    if result < 0 then Some (result, v1)
    else shfs_renew_times d v1 \<bind> (\<lambda>v2. case iunique v2 of (ino, v3) \<Rightarrow>
      case shfs_iget (found_attr v fa\<lparr>f_ino := ino\<rparr>) v3 of
        (None, v4) \<Rightarrow> Some (- EACCES, v4) | (Some a, v4) \<Rightarrow> Some (0, d_instantiate d a v4))) = Some (r, v')"
  then obtain res nm fa w1 where 1: "op_stat fops (v_sb v) name = Some (res, nm, fa, w1)"
    by (auto elim: bind_SomeE)
  let ?v = "v\<lparr>v_sb := w1\<rparr>"
  show "vfs_ok v'"
  proof (cases "res < 0")
    case True
    with st 1 assms(1) show ?thesis by (auto simp: Let_def)
  next
    case False
    with st 1 obtain v2 where 2: "shfs_renew_times d ?v = Some v2" by (auto simp: Let_def elim: bind_SomeE)
    obtain ino v3 where 3: "iunique v2 = (ino, v3)" by fastforce
    obtain ao v4 where 4: "shfs_iget (found_attr v fa\<lparr>f_ino := ino\<rparr>) v3 = (ao, v4)" by fastforce
    have "vfs_ok v2" by (rule vfs_ok_renew_times [OF _ 2]) (simp add: assms(1))
    then have v4: "vfs_ok v4" "\<And>a. ao = Some a \<Longrightarrow> live v4 a"
      using shfs_iget_ok [OF _ 4] vfs_ok_iunique [OF 3] by auto
    then show ?thesis using st 1 2 3 4 False vfs_ok_bind_inode(2) [OF v4(1)]
      by (auto simp: Let_def split: option.splits)
  qed
qed

lemma vfs_ok_set_unset_write: "vfs_ok v \<Longrightarrow> vfs_ok (set_unset_write d v)"
  unfolding set_unset_write_def
  by (auto split: option.split intro!: vfs_ok_upd_inode simp: has_info_def)

lemma vfs_ok_d_alloc:
  assumes "vfs_ok v" and "v_dentry v p \<noteq> None" and a: "d_alloc p name v = (r, v')"
  shows "vfs_ok v'"
proof -
  obtain rank where rank: "tree_by rank v" using vfs_okD(1) [OF assms(1)] by blast
  note v = vfs_okD(2-4) [OF assms(1)]
  obtain ok v1 where 1: "alloc_ok v = (ok, v1)" by fastforce
  note s1 = alloc_ok_simps [OF 1]
  have v1: "vfs_ok v1" using assms(1) vfs_ok_cong [OF s1(1,2,3)] by simp
  show ?thesis
  proof (cases ok)
    case False
    with a 1 v1 show ?thesis by (simp add: d_alloc_def)
  next
    case True
    let ?d = "v_next v"
    let ?rank = "\<lambda>e. if e = ?d then Suc (rank p) else rank e"
    have new: "v_dentry v ?d = None" "p \<noteq> ?d"
      using v(1) [of ?d] v(1) [of p] assms(2) by (cases "v_dentry v ?d"; auto)+
    obtain n where n: "v' = v1\<lparr>v_next := ?d + 1, v_dentry := (v_dentry v)(?d := Some n)\<rparr>"
      "dn_parent n = p" "dn_inode n = None"
      using a 1 s1 True by (auto simp: d_alloc_def Let_def)
    show ?thesis
    proof (rule vfs_okI)
      have "v_dentry v (dn_parent m) \<noteq> None \<and> dn_parent m \<noteq> ?d" if "v_dentry v e = Some m" for e m
        using rank new(1) that unfolding tree_by_def by metis
      then show "tree_by ?rank v'"
        using rank new assms(2) n unfolding tree_by_def by (auto split: if_splits)
      show "live v' b" if "v_dentry v' e = Some m" "dn_inode m = Some b" for e m b
        using that n v(2) [of e m b] s1 by (auto simp: live_def split: if_splits)
      show "b < v_next v'" if "v_inode v' b = Some vn" for b vn
        using that n s1 v(3) [of b vn] by simp
      show "e < v_next v'" if "v_dentry v' e = Some m" for e m
        using that n v(1) [of e m] by (auto split: if_splits)
    qed
  qed
qed

text \<open>
  The steps: the operations of \<open>dir.c\<close> and \<open>inode.c\<close> that return, the kernel's new dentries, and
  the clock.
\<close>

inductive dir_step :: "'f world shfs_fileops \<Rightarrow> 'f vfs \<Rightarrow> 'f vfs \<Rightarrow> bool" for fops where
  step_alloc: "v_dentry v p \<noteq> None \<Longrightarrow> d_alloc p name v = (r, v') \<Longrightarrow> dir_step fops v v'"
| step_clock: "dir_step fops v (v\<lparr>jiffies := t\<rparr>)"
| step_open: "shfs_dir_open fops d v = Some (r, v') \<Longrightarrow> dir_step fops v v'"
| step_getattr: "shfs_getattr fops d v = Some (r, i, v') \<Longrightarrow> dir_step fops v v'"
| step_lookup: "shfs_lookup fops d v = Some (r, v') \<Longrightarrow> dir_step fops v v'"
| step_mkdir: "shfs_mkdir fops dir d v = Some (r, v') \<Longrightarrow> dir_step fops v v'"
| step_create: "shfs_create fops dir d m v = Some (r, v') \<Longrightarrow> dir_step fops v v'"
| step_rmdir: "shfs_rmdir fops dir d v = Some (r, v') \<Longrightarrow> dir_step fops v v'"
| step_rename: "shfs_rename fops sole dir d dir2 d2 v = Some (r, v') \<Longrightarrow> dir_step fops v v'"
| step_unlink: "shfs_unlink fops dir d v = Some (r, v') \<Longrightarrow> dir_step fops v v'"
| step_link: "shfs_link fops d dir d2 v = Some (r, v') \<Longrightarrow> dir_step fops v v'"
| step_symlink: "shfs_symlink fops dir d s v = Some (r, v') \<Longrightarrow> dir_step fops v v'"
| step_d_revalidate: "shfs_d_revalidate fops d v = Some (r, v') \<Longrightarrow> dir_step fops v v'"

lemma vfs_ok_d_delete: "vfs_ok v \<Longrightarrow> vfs_ok (d_delete sole d v)"
  unfolding d_delete_def by (erule vfs_ok_upd_dentry) (auto split: if_splits)

lemmas vfs_ok_intros = vfs_ok_invalid_dir_cache vfs_ok_set_unset_write vfs_ok_d_delete

lemma lookup_ok:
  assumes "vfs_ok v" and "shfs_lookup fops d v = Some (r, v')"
  shows "vfs_ok v'"
  using assms(2) [unfolded shfs_lookup_def]
proof (rule namedE [OF _ _ _ assms(1)])
  fix name
  let ?st = "op_stat fops (v_sb v) name"
  assume st: "?st \<bind> (\<lambda>(result, _, fa, w1). let v1 = v\<lparr>v_sb := w1\<rparr> in
    if result < 0 then shfs_renew_times d (d_add d None v1) \<bind>
      (\<lambda>v2. Some (if result = - EINTR then result else 0, v2))
    else case iunique v1 of (ino, v2) \<Rightarrow>
      case shfs_iget (found_attr v fa\<lparr>f_ino := ino\<rparr>) v2 of
        (None, v3) \<Rightarrow> Some (0, v3)
      | (Some a, v3) \<Rightarrow> shfs_renew_times d (d_add d (Some a) v3) \<bind> (\<lambda>v4. Some (0, v4))) = Some (r, v')"
  then obtain res nm fa w1 where 1: "?st = Some (res, nm, fa, w1)" by (auto elim: bind_SomeE)
  let ?v = "v\<lparr>v_sb := w1\<rparr>"
  have v: "vfs_ok ?v" using assms(1) by simp
  show "vfs_ok v'"
  proof (cases "res < 0")
    case True
    with st 1 have "shfs_renew_times d (d_add d None ?v) = Some v'" by (auto simp: Let_def elim: bind_SomeE)
    moreover have "vfs_ok (d_add d None ?v)" by (rule vfs_ok_bind_inode(1) [OF v]) simp
    ultimately show ?thesis using vfs_ok_renew_times by blast
  next
    case False
    obtain ino v2 where 2: "iunique ?v = (ino, v2)" by fastforce
    obtain ao v3 where 3: "shfs_iget (found_attr v fa\<lparr>f_ino := ino\<rparr>) v2 = (ao, v3)" by fastforce
    have v3: "vfs_ok v3" "\<And>a. ao = Some a \<Longrightarrow> live v3 a"
      using shfs_iget_ok [OF _ 3] vfs_ok_iunique [OF 2 v] by auto
    show ?thesis
    proof (cases ao)
      case None
      with st 1 2 3 False v3 show ?thesis by (simp add: Let_def)
    next
      case (Some a)
      with st 1 2 3 False have "shfs_renew_times d (d_add d (Some a) v3) = Some v'"
        by (auto simp: Let_def elim: bind_SomeE)
      moreover have "vfs_ok (d_add d (Some a) v3)"
        by (rule vfs_ok_bind_inode(1) [OF v3(1)]) (simp add: v3(2) Some)
      ultimately show ?thesis using vfs_ok_renew_times by blast
    qed
  qed
qed (rule assms(1))

lemma create_ok:
  assumes "vfs_ok v"
  shows "shfs_mkdir fops dir d v = Some (r, v') \<Longrightarrow> vfs_ok v'"
    and "shfs_create fops dir d m v = Some (r, v') \<Longrightarrow> vfs_ok v'"
    and "shfs_link fops d dir d2 v = Some (r, v') \<Longrightarrow> vfs_ok v'"
    and "shfs_symlink fops dir d s v = Some (r, v') \<Longrightarrow> vfs_ok v'"
proof -
  have inst: "vfs_ok v'" if "shfs_instantiate fops e (shfs_invalid_dir_cache dir (v\<lparr>v_sb := w\<rparr>)) = Some (r, v')"
    for e w r v'
    by (rule instantiate_ok [OF _ that]) (simp add: vfs_ok_invalid_dir_cache assms)
  have sb: "vfs_ok (v\<lparr>v_sb := w\<rparr>)" for w using assms by simp
  show "shfs_mkdir fops dir d v = Some (r, v') \<Longrightarrow> vfs_ok v'"
    and "shfs_create fops dir d m v = Some (r, v') \<Longrightarrow> vfs_ok v'"
    and "shfs_link fops d dir d2 v = Some (r, v') \<Longrightarrow> vfs_ok v'"
    and "shfs_symlink fops dir d s v = Some (r, v') \<Longrightarrow> vfs_ok v'"
    unfolding shfs_mkdir_def shfs_create_def shfs_link_def shfs_symlink_def named_def
    using assms sb
    by - ((auto simp: Let_def elim!: bind_SomeE split: if_splits;
        ((rule vfs_ok_set_unset_write)?, rule inst, assumption))+)
qed

lemma remove_ok:
  assumes "vfs_ok v"
  shows "shfs_rmdir fops dir d v = Some (r, v') \<Longrightarrow> vfs_ok v'"
    and "shfs_unlink fops dir d v = Some (r, v') \<Longrightarrow> vfs_ok v'"
    and "shfs_rename fops sole dir d dir2 d2 v = Some (r, v') \<Longrightarrow> vfs_ok v'"
proof -
  have sb: "vfs_ok (v\<lparr>v_sb := w\<rparr>)" "vfs_ok ((d_delete sole d2 v)\<lparr>v_sb := w\<rparr>)" for w
    using assms by (simp_all add: vfs_ok_d_delete)
  note renew = vfs_ok_renew_times [OF sb(1)] vfs_ok_renew_times [OF sb(2)]
  have renew2: "shfs_renew_times d (v\<lparr>v_sb := w\<rparr>) = Some v2 \<Longrightarrow> shfs_renew_times d2 v2 = Some v3 \<Longrightarrow> vfs_ok v3"
    "shfs_renew_times d ((d_delete sole d2 v)\<lparr>v_sb := w\<rparr>) = Some v2 \<Longrightarrow> shfs_renew_times d2 v2 = Some v3 \<Longrightarrow> vfs_ok v3"
    for w v2 v3
    using vfs_ok_renew_times [OF renew(1)] vfs_ok_renew_times [OF renew(2)] by blast+
  show "shfs_rmdir fops dir d v = Some (r, v') \<Longrightarrow> vfs_ok v'"
    and "shfs_unlink fops dir d v = Some (r, v') \<Longrightarrow> vfs_ok v'"
    unfolding shfs_rmdir_def shfs_unlink_def named_def
    using assms sb by - ((auto elim!: bind_SomeE split: if_splits intro!: vfs_ok_invalid_dir_cache;
      erule renew)+)
  show "shfs_rename fops sole dir d dir2 d2 v = Some (r, v') \<Longrightarrow> vfs_ok v'"
    unfolding shfs_rename_def named_def
    using assms sb by - ((auto simp: Let_def elim!: bind_SomeE split: if_splits intro!: vfs_ok_invalid_dir_cache;
      (erule (1) renew2(1) | erule (1) renew2(2)))+)
qed

lemma d_revalidate_ok:
  assumes "vfs_ok v" and "shfs_d_revalidate fops d v = Some (r, v')"
  shows "vfs_ok v'"
proof -
  have sb: "vfs_ok (v\<lparr>v_sb := w\<rparr>)" for w using assms(1) by simp
  show ?thesis using assms sb revalidate_ok [OF sb, of fops d]
    by (auto simp: shfs_d_revalidate_def Let_def elim!: bind_SomeE split: option.splits if_splits)
qed


section \<open>What the operations do\<close>

text \<open>
  C39: On a read-only mount nothing is changed, and the remote side is not asked.
\<close>

theorem readonly_refused:
  assumes "readonly (v_sb v)"
  shows "shfs_mkdir fops dir d v = Some (- EROFS, v) \<and>
    shfs_create fops dir d m v = Some (- EROFS, v) \<and>
    shfs_rmdir fops dir d v = Some (- EROFS, v) \<and>
    shfs_rename fops sole dir d dir2 d2 v = Some (- EROFS, v) \<and>
    shfs_unlink fops dir d v = Some (- EROFS, v) \<and>
    shfs_link fops d dir d2 v = Some (- EROFS, v) \<and>
    shfs_symlink fops dir d s v = Some (- EROFS, v)"
  using assms by (simp add: shfs_mkdir_def shfs_create_def shfs_rmdir_def shfs_rename_def
      shfs_unlink_def shfs_link_def shfs_symlink_def)

text \<open>
  An expired dentry of a good inode is never revalidated: the operation holds the lock that
  \<open>shfs_revalidate_inode\<close> waits for, whatever the remote side.
\<close>

theorem d_revalidate_deadlock:
  assumes "v_dentry v d = Some n" and "dn_inode n = Some a" and "v_inode v a = Some vn" and "\<not> vn_bad vn"
    and "u64 (max_age v) < u64 (int (jiffies v) - int (dn_time n))"
  shows "shfs_d_revalidate fops d v = None"
proof (cases "shfs_mutex (v_sb v)")
  case True
  with assms show ?thesis by (simp add: shfs_d_revalidate_def mutex_lock_def)
next
  case False
  have "shfs_revalidate_inode fops d (v\<lparr>v_sb := (v_sb v)\<lparr>shfs_mutex := True\<rparr>\<rparr>) = None"
    using assms(1-3) by (simp add: shfs_revalidate_inode_def dentry_inode_def mutex_lock_def)
  with False assms show ?thesis by (simp add: shfs_d_revalidate_def mutex_lock_def)
qed

text \<open>Fresh dentries are used without asking the remote side, negative and positive alike.\<close>

lemma d_revalidate_fresh:
  assumes "vfs_ok v" and "v_dentry v d = Some n" and "\<not> shfs_mutex (v_sb v)"
    and "u64 (int (jiffies v) - int (dn_time n)) \<le> u64 (max_age v)"
  shows "\<exists>r. shfs_d_revalidate fops d v = Some (r, v)"
proof -
  have "(v_sb v)\<lparr>shfs_mutex := False\<rparr> = v_sb v" using assms(3) by simp
  moreover have "\<exists>vn. v_inode v a = Some vn" if "dn_inode n = Some a" for a
    using vfs_okD(3) [OF assms(1,2) that] by (auto simp: live_def)
  ultimately show ?thesis using assms(2-4)
    by (cases "dn_inode n") (auto simp: shfs_d_revalidate_def mutex_lock_def mutex_unlock_def Let_def)
qed

text \<open>The name that an operation works on.\<close>

lemma named_eq:
  assumes "d_path v d = Some ns" and "c_str (snd (get_name ns (v_stk v))) = name"
  shows "named v d rest = rest name"
proof -
  obtain gn nm where "get_name ns (v_stk v) = (gn, nm)" "\<not> gn < 0"
    using get_name_not_negative [of ns "v_stk v"] by (cases "get_name ns (v_stk v)") auto
  with assms show ?thesis by (simp add: named_def vfs_name_def)
qed

lemma d_path_cong:
  assumes "vfs_ok v" and "v_dentry v d \<noteq> None" and "same_tree v v'"
  shows "d_path v' d = d_path v d"
  using vfs_okD(1) [OF assms(1)] d_path_same_tree [OF _ assms(3,2)] by blast

lemma same_tree_eq: "v_dentry v' = v_dentry v \<Longrightarrow> same_tree v v'"
  by (simp add: same_tree_def)

lemma invalid_dir_cache_simps [vfs_simps]:
  "v_dentry (shfs_invalid_dir_cache a v) = v_dentry v" "v_sb (shfs_invalid_dir_cache a v) = v_sb v"
  "v_next (shfs_invalid_dir_cache a v) = v_next v" "jiffies (shfs_invalid_dir_cache a v) = jiffies v"
  "v_stk (shfs_invalid_dir_cache a v) = v_stk v" "allocs (shfs_invalid_dir_cache a v) = allocs v"
  by (simp_all add: shfs_invalid_dir_cache_def upd_inode_def)

lemma invalid_dir_cache_time:
  assumes "v_inode (shfs_invalid_dir_cache a v) a = Some vn" and "vn_pages vn 0 = Some pg" and "pg_uptodate pg"
  shows "ch_time (pg_head pg) = u64 (int (jiffies v) - max_age v)"
proof -
  from assms(1) obtain vn0 where 0: "v_inode v a = Some vn0"
    by (auto simp: shfs_invalid_dir_cache_def vfs_simps)
  show ?thesis
  proof (cases "vn_pages vn0 0")
    case None
    with 0 assms show ?thesis by (simp add: shfs_invalid_dir_cache_def vfs_simps)
  next
    case (Some pg0)
    with 0 assms show ?thesis
      by (cases "pg_uptodate pg0") (auto simp: shfs_invalid_dir_cache_def vfs_simps)
  qed
qed

text \<open>
  A dentry just made on the remote side: it is bound to a new inode with the attributes the
  remote side reports, under a number not used before, and it and the directories above it are fresh.
\<close>

lemma instantiate_spec:
  assumes v: "vfs_ok v" "v_dentry v d \<noteq> None" "allocs v = []"
    and name: "d_path v d = Some ns" "c_str (snd (get_name ns (v_stk v))) = name"
    and st: "op_stat fops (v_sb v) name = Some (0, name', Some fa, w1)"
  shows "\<exists>v' vn. shfs_instantiate fops d v = Some (0, v') \<and> v_sb v' = w1 \<and> vfs_ok v' \<and>
    dentry_inode v' d = Some (v_next v, vn) \<and>
    vn = new_vnode (v\<lparr>v_sb := w1\<rparr>) (fa\<lparr>f_ino := v_ino v\<rparr>) \<and>
    (\<forall>e n. above v d e \<and> v_dentry v' e = Some n \<longrightarrow> dn_time n = jiffies v) \<and>
    v_inode v' = (v_inode v)(v_next v := Some vn)"
proof -
  let ?v = "v\<lparr>v_sb := w1\<rparr>"
  have same: "same_tree v ?v" by (simp add: same_tree_eq)
  have ab: "above ?v d = above v d" using above_same_tree_iff [OF same] by (simp add: fun_eq_iff)
  have rn: "shfs_renew_times d ?v = Some (stamp (above v d) ?v)"
    using renew_times_ok [of ?v d] v by (simp add: ab)
  let ?v2 = "stamp (above v d) ?v" and ?fa = "fa\<lparr>f_ino := v_ino v\<rparr>"
  have iu: "iunique ?v2 = (v_ino v, ?v2\<lparr>v_ino := v_ino v + 1\<rparr>)" by (simp add: iunique_def stamp_def)
  let ?v3 = "?v2\<lparr>v_ino := v_ino v + 1\<rparr>"
  obtain r v4 where ig: "shfs_iget ?fa ?v3 = (r, v4)" by fastforce
  have r: "r = Some (v_next v)" using shfs_iget_cases(7) [OF ig] v(3) by (simp add: stamp_def)
  note c = shfs_iget_cases(1-5) [OF ig]
  have nv: "new_vnode ?v3 ?fa = new_vnode ?v ?fa" by (simp add: new_vnode_def stamp_def)
  have i4: "v_inode v4 = (v_inode v)(v_next v := Some (new_vnode ?v ?fa))"
    using c(5) [OF r] nv by (simp add: vfs_simps)
  let ?v' = "d_instantiate d (v_next v) v4"
  have eq: "shfs_instantiate fops d v = Some (0, ?v')"
    unfolding shfs_instantiate_def named_eq [OF name]
    by (simp add: st rn iu found_attr_def ig [simplified] r)
  have "dentry_inode ?v' d = Some (v_next v, new_vnode ?v ?fa)"
    using v(2) c(1) i4 by (auto simp: dentry_inode_def d_instantiate_def vfs_simps stamp_def)
  moreover have "\<forall>e n. above v d e \<and> v_dentry ?v' e = Some n \<longrightarrow> dn_time n = jiffies v"
    using c(1) by (auto simp: d_instantiate_def vfs_simps stamp_def split: if_splits)
  moreover have "v_sb ?v' = w1" using c(2) by (simp add: d_instantiate_def vfs_simps)
  moreover have "v_inode ?v' = (v_inode v)(v_next v := Some (new_vnode ?v ?fa))"
    using i4 by (simp add: d_instantiate_def vfs_simps)
  ultimately show ?thesis using eq instantiate_ok [OF v(1) eq] by blast
qed

text \<open>
  C36: \<open>shfs_create\<close>: the new file has an inode with the attributes reported, its dentry and the
  directories above are fresh, the listing of the directory counts as expired, and a mode without
  the owner's write permission is remembered.
\<close>

theorem create_new_file:
  assumes v: "vfs_ok v" "v_dentry v d \<noteq> None" "allocs v = []" "\<not> readonly (v_sb v)"
    and name: "d_path v d = Some ns" "c_str (snd (get_name ns (v_stk v))) = name"
    and cr: "op_create fops (v_sb v) name (if mode AND S_IWUSR = 0 then mode OR S_IWUSR else mode) =
      Some (0, name1, w1)"
    and st: "op_stat fops w1 name = Some (0, name2, Some fa, w2)"
  shows "\<exists>v' vn. shfs_create fops dir d mode v = Some (0, v') \<and> v_sb v' = w2 \<and> vfs_ok v' \<and>
    dentry_inode v' d = Some (v_next v, vn) \<and> i_ino (vn_inode vn) = v_ino v \<and>
    i_mode (vn_inode vn) = f_mode fa \<and> i_size (vn_inode vn) = f_size fa \<and> vn_ops vn = inode_ops (f_mode fa) \<and>
    (\<exists>p. i_private (vn_inode vn) = Some p \<and> unset_write_on_close p = (mode AND S_IWUSR = 0)) \<and>
    (\<forall>e n. above v d e \<and> v_dentry v' e = Some n \<longrightarrow> dn_time n = jiffies v) \<and>
    (\<forall>dn pg. v_inode v' dir = Some dn \<and> vn_pages dn 0 = Some pg \<and> pg_uptodate pg \<longrightarrow>
      ch_time (pg_head pg) = u64 (int (jiffies v) - max_age (v\<lparr>v_sb := w1\<rparr>)))"
proof -
  let ?v = "shfs_invalid_dir_cache dir (v\<lparr>v_sb := w1\<rparr>)"
  have same: "same_tree v ?v" by (simp add: same_tree_eq vfs_simps)
  have ab: "above ?v d = above v d" using above_same_tree_iff [OF same] by (simp add: fun_eq_iff)
  have ino: "v_ino ?v = v_ino v" by (simp add: shfs_invalid_dir_cache_def upd_inode_def)
  obtain v2 vn where inst: "shfs_instantiate fops d ?v = Some (0, v2)" "v_sb v2 = w2" "vfs_ok v2"
    "dentry_inode v2 d = Some (v_next v, vn)" "vn = new_vnode (?v\<lparr>v_sb := w2\<rparr>) (fa\<lparr>f_ino := v_ino v\<rparr>)"
    "\<forall>e n. above v d e \<and> v_dentry v2 e = Some n \<longrightarrow> dn_time n = jiffies v"
    "v_inode v2 = (v_inode ?v)(v_next v := Some vn)"
  proof -
    have "\<exists>v' vn. shfs_instantiate fops d ?v = Some (0, v') \<and> v_sb v' = w2 \<and> vfs_ok v' \<and>
      dentry_inode v' d = Some (v_next ?v, vn) \<and>
      vn = new_vnode (?v\<lparr>v_sb := w2\<rparr>) (fa\<lparr>f_ino := v_ino ?v\<rparr>) \<and>
      (\<forall>e n. above ?v d e \<and> v_dentry v' e = Some n \<longrightarrow> dn_time n = jiffies ?v) \<and>
      v_inode v' = (v_inode ?v)(v_next ?v := Some vn)"
      by (rule instantiate_spec [where ns = ns and name = name])
        (use v name st d_path_cong [OF v(1,2) same] in \<open>simp_all add: vfs_ok_invalid_dir_cache vfs_simps\<close>)
    then show thesis using that unfolding ab ino vfs_simps by auto
  qed
  define v' where "v' = (if mode AND S_IWUSR = 0 then set_unset_write d v2 else v2)"
  have eq: "shfs_create fops dir d mode v = Some (0, v')"
    unfolding shfs_create_def named_eq [OF name] v'_def
    using v(4) cr inst(1) by (cases "mode AND S_IWUSR = 0") simp_all
  have vn: "i_private (vn_inode vn) = Some (new_info\<lparr>oldmtime := jiffies v\<rparr>)" "i_mode (vn_inode vn) = f_mode fa"
    "i_ino (vn_inode vn) = v_ino v" "i_size (vn_inode vn) = f_size fa" "vn_ops vn = inode_ops (f_mode fa)"
    "vn_pages vn = (\<lambda>_. None)"
    by (simp_all add: inst(5) new_vnode_def fattr_inode_simps vfs_simps)
  let ?vn = "if mode AND S_IWUSR = 0 then vn\<lparr>vn_inode := (vn_inode vn)\<lparr>i_private :=
      Some (new_info\<lparr>oldmtime := jiffies v, unset_write_on_close := True\<rparr>)\<rparr>\<rparr> else vn"
  have v2': "v_inode v' = (v_inode ?v)(v_next v := Some ?vn)" "v_dentry v' = v_dentry v2" "v_sb v' = w2"
    using inst(2,4,7) vn(1) by (auto simp: v'_def set_unset_write_def upd_inode_def)
  have ok: "vfs_ok v'" using inst(3) by (simp add: v'_def vfs_ok_set_unset_write)
  have di: "dentry_inode v' d = Some (v_next v, ?vn)"
    using inst(4) v2' by (auto simp: dentry_inode_def elim!: bind_SomeE)
  have age: "ch_time (pg_head pg) = u64 (int (jiffies v) - max_age (v\<lparr>v_sb := w1\<rparr>))"
    if "v_inode v' dir = Some dn" "vn_pages dn 0 = Some pg" "pg_uptodate pg" for dn pg
  proof -
    have "dir \<noteq> v_next v" using that v2'(1) vn(6) by (auto split: if_splits)
    then have "v_inode ?v dir = Some dn" using that(1) v2'(1) by simp
    from invalid_dir_cache_time [OF this that(2,3)] show ?thesis by simp
  qed
  have "\<exists>p. i_private (vn_inode ?vn) = Some p \<and> unset_write_on_close p = (mode AND S_IWUSR = 0)"
    using vn(1) by (simp add: new_info_def)
  with eq di vn v2' ok inst(6) age show ?thesis by (intro exI [of _ v'] exI [of _ ?vn]) simp
qed


end
