(* ===== verification/DirCacheSpec.thy ===== *)
theory DirCacheSpec
  imports DirCache DirSpec
begin

text \<open>
  The directory cache: what a reader is given from the cache is what the reader that filled it was
  given, entry by entry, wherever he starts and however soon he stops.
\<close>

section \<open>The reference: entries handed to a reader\<close>

text \<open>\<open>emit\<close>: entries with their names and inode numbers go to \<open>filldir\<close>, the first at \<open>pos\<close>.\<close>

fun emit :: "('b \<Rightarrow> string \<Rightarrow> nat \<Rightarrow> nat \<Rightarrow> int \<times> 'b) \<Rightarrow> nat \<Rightarrow> (string \<times> nat) list \<Rightarrow> 'b
    \<Rightarrow> int \<times> nat \<times> 'b" where
  "emit filldir pos [] out = (0, pos, out)"
| "emit filldir pos (e # es) out =
    (case filldir out (fst e) pos (snd e) of (r, out1) \<Rightarrow>
      if r \<noteq> 0 then (r, pos, out1) else emit filldir (pos + 1) es out1)"

lemma emit_snoc:
  "emit filldir pos (es @ [e]) out =
    (case emit filldir pos es out of (r, p, o1) \<Rightarrow> if r \<noteq> 0 then (r, p, o1) else emit filldir p [e] o1)"
  by (induction es arbitrary: pos out) (auto split: prod.splits)

lemma emit_pos: "emit filldir pos es out = (0, p, o1) \<Longrightarrow> p = pos + length es"
  by (induction es arbitrary: pos out) (fastforce split: prod.splits if_splits)+

section \<open>Reading from the cache\<close>

text \<open>The entry behind an address in the cache, and a cache that holds entries from position 2 on.\<close>

definition entry_at :: "'f vfs \<Rightarrow> nat \<Rightarrow> nat \<Rightarrow> nat \<Rightarrow> (string \<times> nat) option" where
  "entry_at v d e pos = map_option (\<lambda>(n, vn). (dn_name n, i_ino (vn_inode vn))) (shfs_dget_fpos v e d pos)"

lemma entry_at_iff:
  "entry_at v d e pos = Some (name, ino) \<longleftrightarrow>
    (\<exists>n b vn. v_dentry v e = Some n \<and> dn_parent n = d \<and> e \<noteq> d \<and> dn_fsdata n = pos \<and> dn_name n = name \<and>
      dn_inode n = Some b \<and> v_inode v b = Some vn \<and> i_ino (vn_inode vn) = ino)"
  by (auto simp: entry_at_def shfs_dget_fpos_def is_child_def elim!: bind_SomeE split: option.splits if_splits)

definition slots :: "'f vfs \<Rightarrow> nat \<Rightarrow> (nat \<Rightarrow> dir_page option) \<Rightarrow> (string \<times> nat) list \<Rightarrow> bool" where
  "slots v d pages ents \<longleftrightarrow> (\<forall>j<length ents. \<exists>p. pages ((j + 3) div SHFS_DIRCACHE_SIZE) = Some p \<and>
     entry_at v d (pg_dentry p ((j + 3) mod SHFS_DIRCACHE_SIZE)) (j + 2) = Some (ents ! j))"

definition dir_cached :: "'f vfs \<Rightarrow> nat \<Rightarrow> nat \<Rightarrow> (string \<times> nat) list \<Rightarrow> bool" where
  "dir_cached v a d ents \<longleftrightarrow> (\<exists>vn p0. v_inode v a = Some vn \<and> vn_pages vn 0 = Some p0 \<and>
     ch_eof (pg_head p0) \<and> ch_end (pg_head p0) = length ents + 1 \<and> slots v d (vn_pages vn) ents \<and>
     (\<forall>k p. k * SHFS_DIRCACHE_SIZE \<le> length ents + 2 \<and> vn_pages vn k = Some p \<longrightarrow> pg_uptodate p))"

lemma next_slot:
  "Suc m div SHFS_DIRCACHE_SIZE = (if Suc (m mod SHFS_DIRCACHE_SIZE) < SHFS_DIRCACHE_SIZE
    then m div SHFS_DIRCACHE_SIZE else Suc (m div SHFS_DIRCACHE_SIZE))"
  "Suc m mod SHFS_DIRCACHE_SIZE = (if Suc (m mod SHFS_DIRCACHE_SIZE) < SHFS_DIRCACHE_SIZE
    then Suc (m mod SHFS_DIRCACHE_SIZE) else 0)"
  using mod_less_divisor [of SHFS_DIRCACHE_SIZE m] by (auto simp: div_Suc mod_Suc)

lemma dircache_loop_step:
  assumes "pages ofs = Some p" "pg_uptodate p" "shfs_dget_fpos v (pg_dentry p idx) d pos = Some (n, vn)"
    and "filldir out (dn_name n) pos (i_ino (vn_inode vn)) = (r, out1)"
  shows "dircache_loop filldir v pages d end_pos ofs idx pos out =
    (if r \<noteq> 0 then (True, pos, out1) else if end_pos < pos + 1 then (True, pos + 1, out1)
     else dircache_loop filldir v pages d end_pos
       (if Suc idx < SHFS_DIRCACHE_SIZE then ofs else Suc ofs)
       (if Suc idx < SHFS_DIRCACHE_SIZE then Suc idx else 0) (pos + 1) out1)"
  using assms by (subst dircache_loop.simps) simp

lemma dircache_loop_emits:
  assumes "slots v d pages ents"
    and "\<And>k p. k * SHFS_DIRCACHE_SIZE \<le> length ents + 2 \<Longrightarrow> pages k = Some p \<Longrightarrow> pg_uptodate p"
    and "j < length ents"
  shows "dircache_loop filldir v pages d (length ents + 1) ((j + 3) div SHFS_DIRCACHE_SIZE)
      ((j + 3) mod SHFS_DIRCACHE_SIZE) (j + 2) out = (True, snd (emit filldir (j + 2) (drop j ents) out))"
  using assms(3)
proof (induction "length ents - j" arbitrary: j out rule: less_induct)
  case less
  from assms(1) less.prems obtain p where p: "pages ((j + 3) div SHFS_DIRCACHE_SIZE) = Some p"
    "entry_at v d (pg_dentry p ((j + 3) mod SHFS_DIRCACHE_SIZE)) (j + 2) = Some (ents ! j)"
    by (auto simp: slots_def)
  have "(j + 3) div SHFS_DIRCACHE_SIZE * SHFS_DIRCACHE_SIZE \<le> length ents + 2"
    using less.prems div_times_less_eq_dividend [of "j + 3" SHFS_DIRCACHE_SIZE] by linarith
  then have up: "pg_uptodate p" using assms(2) p(1) by blast
  obtain n vn where dg: "shfs_dget_fpos v (pg_dentry p ((j + 3) mod SHFS_DIRCACHE_SIZE)) d (j + 2) = Some (n, vn)"
    "ents ! j = (dn_name n, i_ino (vn_inode vn))"
    using p(2) by (auto simp: entry_at_def)
  have drop: "drop j ents = ents ! j # drop (Suc j) ents" using less.prems by (simp add: Cons_nth_drop_Suc)
  obtain r out1 where fd: "filldir out (dn_name n) (j + 2) (i_ino (vn_inode vn)) = (r, out1)" by fastforce
  let ?rest = "\<lambda>j. dircache_loop filldir v pages d (length ents + 1) ((j + 3) div SHFS_DIRCACHE_SIZE)
      ((j + 3) mod SHFS_DIRCACHE_SIZE) (j + 2)"
  have step: "?rest j out =
    (if r \<noteq> 0 then (True, j + 2, out1) else if length ents + 1 < j + 2 + 1 then (True, j + 2 + 1, out1)
     else ?rest (Suc j) out1)"
  proof -
    have nx: "(Suc j + 3) div 512 = (if Suc ((j + 3) mod 512) < 512 then (j + 3) div 512 else Suc ((j + 3) div 512))"
      "(Suc j + 3) mod 512 = (if Suc ((j + 3) mod 512) < 512 then Suc ((j + 3) mod 512) else 0)" "Suc j + 2 = j + 2 + 1"
      using next_slot [of "j + 3"] by simp_all
    show ?thesis unfolding nx by (rule dircache_loop_step) (rule p(1) up dg(1) fd)+
  qed
  show ?case
  proof (cases "r = 0 \<and> Suc j < length ents")
    case True
    then have "?rest (Suc j) out1 = (True, snd (emit filldir (Suc j + 2) (drop (Suc j) ents) out1))"
      by (intro less.hyps) auto
    with True show ?thesis unfolding step drop by (simp add: dg(2) fd [simplified])
  next
    case False
    then show ?thesis unfolding step drop by (auto simp: dg(2) fd [simplified])
  qed
qed

lemma entry_at_stamp: "entry_at (stamp P v) d e pos = Some x \<longleftrightarrow> entry_at v d e pos = Some x"
  by (cases x) (auto simp: entry_at_iff stamp_def)

lemma dir_cached_stamp: "dir_cached (stamp P v) a d ents = dir_cached v a d ents"
  by (simp add: dir_cached_def slots_def entry_at_stamp vfs_simps)

text \<open>The inode of the directory need not be looked up again: \<open>shfs_revalidate_inode\<close> answers at once.\<close>

definition settled :: "'f vfs \<Rightarrow> vnode \<Rightarrow> bool" where
  "settled v vn \<longleftrightarrow> vn_bad vn \<or> i_ino (vn_inode vn) = 2 \<or>
     (\<exists>p. i_private (vn_inode vn) = Some p \<and> time_before (jiffies v) (u64 (int (oldmtime p) + max_age v)))"

lemma settled_quiet:
  assumes "vfs_ok v" and "dentry_inode v d = Some (a, vn)" and "\<not> shfs_mutex (v_sb v)" and "settled v vn"
  obtains v' where "shfs_revalidate_inode fops d v = Some (0, v')" "v' = v \<or> v' = stamp (above v d) v" "vfs_ok v'"
    "v_sb v' = v_sb v" "v_inode v' = v_inode v"
proof -
  have "live v a" using vfs_okD(3) [OF assms(1)] assms(2) by (auto simp: dentry_inode_def elim!: bind_SomeE)
  then obtain p where "i_private (vn_inode vn) = Some p"
    using assms(2) by (auto simp: live_def has_info_def dentry_inode_def elim!: bind_SomeE)
  then show thesis
    using quiet_spec [OF assms(1-3), of p fops] assms(4) that by (auto simp: settled_def)
qed

text \<open>The time of the listing in the cache.\<close>

definition listing_time :: "'f vfs \<Rightarrow> nat \<Rightarrow> nat" where
  "listing_time v a = (case v_inode v a of None \<Rightarrow> 0
     | Some vn \<Rightarrow> (case vn_pages vn 0 of None \<Rightarrow> 0 | Some p \<Rightarrow> ch_time (pg_head p)))"

lemma cached_read_spec:
  assumes v: "vfs_ok v" "dentry_inode v d = Some (a, vn)" "\<not> shfs_mutex (v_sb v)" "settled v vn"
    and c: "dir_cached v a d ents" and pos: "2 \<le> pos"
    and fresh: "pos = 2 \<Longrightarrow> u64 (int (jiffies v) - int (listing_time v a)) < u64 (max_age v)"
  shows "\<exists>v'. shfs_readdir fops rd filldir d pos out v =
      Some (0, fst (snd (emit filldir pos (drop (pos - 2) ents) out)),
        snd (snd (emit filldir pos (drop (pos - 2) ents) out)), v') \<and>
    v_sb v' = v_sb v \<and> (v' = v \<or> v' = stamp (above v d) v)"
proof -
  from v(2) obtain n where n: "v_dentry v d = Some n" by (auto simp: dentry_inode_def elim: bind_SomeE)
  from v(2) have vn: "v_inode v a = Some vn" by (auto simp: dentry_inode_def elim!: bind_SomeE)
  with c obtain p0 where p0: "vn_pages vn 0 = Some p0" "ch_eof (pg_head p0)" "ch_end (pg_head p0) = length ents + 1"
    by (auto simp: dir_cached_def)
  then have up: "pg_uptodate p0" using c vn by (auto simp: dir_cached_def dest: spec [of _ 0])
  obtain v' where v': "shfs_revalidate_inode fops d v = Some (0, v')" "v' = v \<or> v' = stamp (above v d) v" "vfs_ok v'"
    "v_sb v' = v_sb v" "v_inode v' = v_inode v"
    by (rule settled_quiet [OF v])
  have c': "dir_cached v' a d ents" using v'(2) c dir_cached_stamp [of "above v d" v] by auto
  then have sl: "slots v' d (vn_pages vn) ents"
    "k * SHFS_DIRCACHE_SIZE \<le> length ents + 2 \<Longrightarrow> vn_pages vn k = Some p \<Longrightarrow> pg_uptodate p" for k p
    using v'(5) vn by (auto simp: dir_cached_def)
  have j: "jiffies v' = jiffies v" "max_age v' = max_age v" using v'(2) by (auto simp: vfs_simps max_age_def)
  have time: "listing_time v a = ch_time (pg_head p0)" using vn p0 by (simp add: listing_time_def)
  have dot: "dot_entries filldir i q pos out = (True, pos, out)" for i q
    using pos by (simp add: dot_entries_def)
  have stale: "\<not> (pos = 2 \<and> u64 (int (jiffies v') - int (ch_time (pg_head p0))) \<ge> u64 (max_age v'))"
    using fresh unfolding j time by auto
  have grab: "grab_page a 0 v' = (True, v')" by (simp add: grab_page_def v'(5) vn p0)
  let ?e = "emit filldir pos (drop (pos - 2) ents) out"
  have "shfs_readdir fops rd filldir d pos out v = Some (0, fst (snd ?e), snd (snd ?e), v')"
  proof (cases "pos - 2 < length ents")
    case True
    have "dircache_loop filldir v' (vn_pages vn) d (length ents + 1) ((pos - 2 + 3) div SHFS_DIRCACHE_SIZE)
      ((pos - 2 + 3) mod SHFS_DIRCACHE_SIZE) (pos - 2 + 2) out =
      (True, snd (emit filldir (pos - 2 + 2) (drop (pos - 2) ents) out))"
      by (rule dircache_loop_emits [OF sl True])
    moreover have "pos - 2 + 3 = pos + 1" "pos - 2 + 2 = pos" using pos by simp_all
    ultimately have loop: "dircache_loop filldir v' (vn_pages vn) d (length ents + 1)
      ((pos + 1) div SHFS_DIRCACHE_SIZE) ((pos + 1) mod SHFS_DIRCACHE_SIZE) pos out = (True, snd ?e)" by simp
    obtain x y where xy: "snd ?e = (x, y)" by fastforce
    show ?thesis
      using True stale pos
      by (auto simp: Let_def shfs_readdir_def n v(2) dot v'(1) grab v'(5) vn p0 up loop [unfolded xy, simplified] xy
          )
  next
    case False
    with stale pos show ?thesis
      by (auto simp: Let_def shfs_readdir_def n v(2) dot v'(1) grab v'(5) vn p0 up)
  qed
  with v' show ?thesis by blast
qed

end
