(* ===== verification/DirFill.thy ===== *)
theory DirFill
  imports DirCacheSpec
begin

text \<open>
  Filling the directory cache: the entries of a listing get dentries and inodes, their addresses
  go into the pages, and the reader is given them at the same time. An invariant of the filling
  shows that afterwards the cache holds what the listing said.
\<close>

section \<open>A new inode\<close>

lemma shfs_iget_new:
  assumes "allocs v = []"
  shows "shfs_iget fa v = (Some (v_next v),
    v\<lparr>v_next := v_next v + 1, v_inode := (v_inode v)(v_next v := Some (new_vnode v fa))\<rparr>)"
proof -
  define vn4 where "vn4 = \<lparr>vn_inode = blank_inode\<lparr>i_ino := f_ino fa, i_private := Some new_info\<rparr>, vn_ops = No_ops,
    vn_bad = False, vn_pages = (\<lambda>_. None)\<rparr>"
  have attr: "(set_attr (v_sb v) (jiffies v) fa vn4)\<lparr>vn_ops := inode_ops (f_mode fa)\<rparr> = new_vnode v fa"
    using set_attr_no_cache [of vn4 new_info "v_sb v" "jiffies v" fa]
    by (simp add: new_vnode_def vn4_def new_info_def set_attr_def Let_def)
  have m: "i_mode (vn_inode (set_attr (v_sb v) (jiffies v) fa vn4)) = f_mode fa"
    using set_attr_no_cache(1) [of vn4 new_info "v_sb v" "jiffies v" fa]
    by (simp add: vn4_def new_info_def fattr_inode_simps)
  have ok: "alloc_ok v' = (True, v')" if "allocs v' = []" for v' :: "'a vfs"
    using that by (simp add: alloc_ok_def)
  show ?thesis
    using assms attr m
    by (simp add: shfs_iget_def ok Let_def upd_inode_def shfs_set_inode_attr_def new_info_def [symmetric]
        vn4_def [symmetric] fun_upd_def [symmetric])
qed

section \<open>What filling leaves alone\<close>

text \<open>The part of a dentry that an entry of the cache depends on.\<close>

definition dn_core :: "dnode \<Rightarrow> string \<times> nat \<times> nat \<times> nat option" where
  "dn_core n = (dn_name n, dn_parent n, dn_fsdata n, dn_inode n)"

text \<open>Every dentry but \<open>nd\<close> keeps that part, every inode its number, and the directory its inode.\<close>

definition frame :: "nat \<Rightarrow> nat \<Rightarrow> 'f vfs \<Rightarrow> 'f vfs \<Rightarrow> bool" where
  "frame a nd v v' \<longleftrightarrow>
    (\<forall>e n. v_dentry v e = Some n \<and> e \<noteq> nd \<longrightarrow> (\<exists>n'. v_dentry v' e = Some n' \<and> dn_core n' = dn_core n)) \<and>
    (\<forall>b vn. v_inode v b = Some vn \<longrightarrow>
      (\<exists>vn'. v_inode v' b = Some vn' \<and> i_ino (vn_inode vn') = i_ino (vn_inode vn) \<and> (b = a \<longrightarrow> vn' = vn)))"

lemma frame_refl [simp]: "frame a nd v v"
  by (simp add: frame_def)

lemma frameD:
  assumes "frame a nd v v'"
  shows "v_dentry v e = Some n \<Longrightarrow> e \<noteq> nd \<Longrightarrow> \<exists>n'. v_dentry v' e = Some n' \<and> dn_core n' = dn_core n"
    and "v_inode v b = Some vn \<Longrightarrow> \<exists>vn'. v_inode v' b = Some vn' \<and> i_ino (vn_inode vn') = i_ino (vn_inode vn)"
    and "v_inode v a = Some vn \<Longrightarrow> v_inode v' a = Some vn"
  using assms unfolding frame_def by blast+

lemma frame_trans:
  assumes "frame a nd v v'" and "frame a nd v' v''"
  shows "frame a nd v v''"
proof -
  have "\<exists>n''. v_dentry v'' e = Some n'' \<and> dn_core n'' = dn_core n" if "v_dentry v e = Some n" "e \<noteq> nd" for e n
    using frameD(1) [OF assms(1) that] frameD(1) [OF assms(2) _ that(2)] by metis
  moreover have "\<exists>vn''. v_inode v'' b = Some vn'' \<and> i_ino (vn_inode vn'') = i_ino (vn_inode vn) \<and> (b = a \<longrightarrow> vn'' = vn)"
    if vn: "v_inode v b = Some vn" for b vn
  proof (cases "b = a")
    case True
    with frameD(3) [OF assms(2) frameD(3) [OF assms(1)]] vn show ?thesis by blast
  next
    case False
    with frameD(2) [OF assms(1) vn] frameD(2) [OF assms(2)] show ?thesis by metis
  qed
  ultimately show ?thesis unfolding frame_def by blast
qed

lemma frame_entry:
  assumes "frame a nd v v'" and "entry_at v d e pos = Some x" and "e \<noteq> nd"
  shows "entry_at v' d e pos = Some x"
proof -
  obtain name ino where x: "x = (name, ino)" by (cases x)
  from assms(2) obtain n b vn where n: "v_dentry v e = Some n" "dn_parent n = d" "e \<noteq> d" "dn_fsdata n = pos"
    "dn_name n = name" "dn_inode n = Some b" "v_inode v b = Some vn" "i_ino (vn_inode vn) = ino"
    by (auto simp: x entry_at_iff)
  from assms(1,3) n(1) obtain n' where n': "v_dentry v' e = Some n'" "dn_core n' = dn_core n"
    unfolding frame_def by blast
  from assms(1) n(7) obtain vn' where vn': "v_inode v' b = Some vn'" "i_ino (vn_inode vn') = i_ino (vn_inode vn)"
    unfolding frame_def by blast
  have "entry_at v' d e pos = Some (name, ino)"
    unfolding entry_at_iff using n n' vn' by (intro exI [of _ n'] exI [of _ b] exI [of _ vn']) (simp add: dn_core_def)
  with x show ?thesis by simp
qed

lemma frame_pages:
  assumes "frame a nd v v'" and "v_inode v a = Some vn"
  shows "v_inode v' a = Some vn"
  using assms unfolding frame_def by blast

lemma frame_stamp: "frame a nd v (stamp P v)"
  by (auto simp: frame_def stamp_def dn_core_def)

lemma frame_upd_dentry: "frame a nd v (upd_dentry nd f v)"
  by (auto simp: frame_def vfs_simps)

lemma frame_new_inode:
  assumes "v_inode v (v_next v) = None"
  shows "frame a nd v (v\<lparr>v_next := k, v_inode := (v_inode v)(v_next v := Some vn)\<rparr>)"
  using assms by (auto simp: frame_def)

lemma set_attr_ino: "i_ino (vn_inode (set_attr w t fa vn)) = i_ino (vn_inode vn)"
  by (auto simp: set_attr_def Let_def fcache_file_clear_def fattr_inode_simps split: option.split)

lemma frame_set_attr: "b \<noteq> a \<Longrightarrow> frame a nd v (shfs_set_inode_attr b fa v)"
  by (auto simp: frame_def shfs_set_inode_attr_def vfs_simps set_attr_ino)

text \<open>
  The children of a directory in a good state: their inodes are not the directory's own and have
  numbers. What is needed of the state besides is collected in \<open>fill_ready\<close>.
\<close>

definition kids :: "'f vfs \<Rightarrow> nat \<Rightarrow> nat \<Rightarrow> bool" where
  "kids v a d \<longleftrightarrow> (\<forall>e n b. v_dentry v e = Some n \<and> dn_parent n = d \<and> e \<noteq> d \<and> dn_inode n = Some b \<longrightarrow>
     b \<noteq> a \<and> (\<forall>vn. v_inode v b = Some vn \<longrightarrow> i_ino (vn_inode vn) \<noteq> 0))"

definition fill_ready :: "'f vfs \<Rightarrow> nat \<Rightarrow> nat \<Rightarrow> bool" where
  "fill_ready v a d \<longleftrightarrow> vfs_ok v \<and> kids v a d \<and> allocs v = [] \<and> 0 < v_ino v \<and> v_dentry v d \<noteq> None \<and>
     v_inode v a \<noteq> None"

lemma fill_readyD:
  assumes "fill_ready v a d"
  shows "vfs_ok v" "kids v a d" "allocs v = []" "0 < v_ino v" "v_dentry v d \<noteq> None" "v_inode v a \<noteq> None"
    "v_inode v (v_next v) = None" "v_dentry v (v_next v) = None"
proof -
  show ok: "vfs_ok v" and "kids v a d" "allocs v = []" "0 < v_ino v" "v_dentry v d \<noteq> None" "v_inode v a \<noteq> None"
    using assms by (simp_all add: fill_ready_def)
  show "v_inode v (v_next v) = None"
    using vfs_okD(4) [OF ok, of "v_next v"] by (cases "v_inode v (v_next v)") auto
  show "v_dentry v (v_next v) = None"
    using vfs_okD(2) [OF ok, of "v_next v"] by (cases "v_dentry v (v_next v)") auto
qed

lemma kidsD:
  assumes "kids v a d" and "v_dentry v e = Some n" "dn_parent n = d" "e \<noteq> d" "dn_inode n = Some b"
  shows "b \<noteq> a" and "v_inode v b = Some vn \<Longrightarrow> i_ino (vn_inode vn) \<noteq> 0"
  using assms unfolding kids_def by blast+

lemma kids_frame:
  assumes "kids v a d" and "frame a nd v v'" and "\<And>e. e \<noteq> nd \<Longrightarrow> v_dentry v' e = None \<longleftrightarrow> v_dentry v e = None"
    and "vfs_ok v"
    and "\<And>n b. v_dentry v' nd = Some n \<Longrightarrow> dn_parent n = d \<Longrightarrow> dn_inode n = Some b \<Longrightarrow>
      b \<noteq> a \<and> (\<forall>vn. v_inode v' b = Some vn \<longrightarrow> i_ino (vn_inode vn) \<noteq> 0)"
  shows "kids v' a d"
  unfolding kids_def
proof (intro allI impI, elim conjE)
  fix e n' b
  assume n': "v_dentry v' e = Some n'" "dn_parent n' = d" "e \<noteq> d" "dn_inode n' = Some b"
  show "b \<noteq> a \<and> (\<forall>vn. v_inode v' b = Some vn \<longrightarrow> i_ino (vn_inode vn) \<noteq> 0)"
  proof (cases "e = nd")
    case True
    with assms(5) n' show ?thesis by blast
  next
    case False
    with assms(3) n'(1) obtain n where n: "v_dentry v e = Some n" by fastforce
    with assms(2) False n'(1) have "dn_core n' = dn_core n" unfolding frame_def by fastforce
    then have p: "dn_parent n = d" "dn_inode n = Some b" using n' by (simp_all add: dn_core_def)
    note k = kidsD [OF assms(1) n p(1) n'(3) p(2)]
    from vfs_okD(3) [OF assms(4) n p(2)] obtain vn where vn: "v_inode v b = Some vn" by (auto simp: live_def)
    with assms(2) obtain vn' where "v_inode v' b = Some vn'" "i_ino (vn_inode vn') = i_ino (vn_inode vn)"
      unfolding frame_def by blast
    with k vn show ?thesis by simp
  qed
qed

lemma fill_inode_ok:
  assumes r: "fill_ready v a d" and n: "v_dentry v nd = Some n" "dn_parent n = d" "nd \<noteq> d"
  shows "\<exists>v' n' b vn. fill_inode nd hashed fa v = Some v' \<and> fill_ready v' a d \<and> frame a nd v v' \<and>
    v_sb v' = v_sb v \<and> jiffies v' = jiffies v \<and> hz v' = hz v \<and>
    v_dentry v' nd = Some n' \<and> dn_name n' = dn_name n \<and> dn_parent n' = d \<and> dn_inode n' = Some b \<and>
    v_inode v' b = Some vn \<and> i_ino (vn_inode vn) \<noteq> 0"
proof (cases "dn_inode n")
  case (Some b)
  let ?v = "shfs_set_inode_attr b fa v"
  from vfs_okD(3) [OF fill_readyD(1) [OF r] n(1) Some] obtain vn where vn: "v_inode v b = Some vn"
    by (auto simp: live_def)
  note k = kidsD [OF fill_readyD(2) [OF r] n Some]
  have fr: "frame a nd v ?v" by (rule frame_set_attr [OF k(1)])
  have "kids ?v a d"
    by (rule kids_frame [OF fill_readyD(2) [OF r] fr _ fill_readyD(1) [OF r]])
      (use k vn n Some in \<open>auto simp: shfs_set_inode_attr_def vfs_simps set_attr_ino\<close>)
  moreover have "v_inode ?v a \<noteq> None" using fill_readyD(6) [OF r] k(1)
    by (simp add: shfs_set_inode_attr_def vfs_simps)
  ultimately have "fill_ready ?v a d"
    using fill_readyD [OF r] by (simp add: fill_ready_def vfs_ok_set_inode_attr)
      (simp add: shfs_set_inode_attr_def upd_inode_def)
  then show ?thesis using fr n vn k Some
    by (auto simp: fill_inode_def shfs_set_inode_attr_def vfs_simps set_attr_ino)
next
  case None
  let ?v1 = "stamp (above v nd) v" and ?b = "v_next v"
  let ?vn = "new_vnode v (fa\<lparr>f_ino := v_ino v\<rparr>)"
  let ?v3 = "?v1\<lparr>v_ino := v_ino v + 1, v_next := ?b + 1, v_inode := (v_inode v)(?b := Some ?vn)\<rparr>"
  let ?v4 = "upd_dentry nd (\<lambda>n. n\<lparr>dn_inode := Some ?b, dn_hashed := True\<rparr>) (shfs_new_dentry nd ?v3)"
  note rd = fill_readyD [OF r]
  have nv: "new_vnode (?v1\<lparr>v_ino := v_ino v + 1\<rparr>) (fa\<lparr>f_ino := v_ino v\<rparr>) = ?vn"
    by (simp add: new_vnode_def stamp_def)
  have "allocs (?v1\<lparr>v_ino := v_ino v + 1\<rparr>) = []" using rd(3) by (simp add: stamp_def)
  note ig = shfs_iget_new [OF this, of "fa\<lparr>f_ino := v_ino v\<rparr>", unfolded nv]
  have fill: "fill_inode nd hashed fa v = Some ?v4"
    using n(1) None renew_times_ok [OF rd(1), of nd] ig
    by (simp add: fill_inode_def iunique_def vfs_simps) (simp add: stamp_def)
  have ino: "i_ino (vn_inode ?vn) = v_ino v" by (simp add: new_vnode_def fattr_inode_simps)
  have fr: "frame a nd v ?v4"
  proof -
    have "frame a nd v ?v1" by (rule frame_stamp)
    moreover have "frame a nd ?v1 ?v3" using rd(7) by (auto simp: frame_def vfs_simps)
    moreover have "frame a nd ?v3 ?v4" unfolding shfs_new_dentry_def
      by (rule frame_trans [OF frame_upd_dentry frame_upd_dentry])
    ultimately show ?thesis using frame_trans by blast
  qed
  have nd4: "v_dentry ?v4 nd = Some (n\<lparr>dn_time := jiffies v, dn_op := True, dn_inode := Some ?b, dn_hashed := True\<rparr>)"
    using n(1) above.above_refl [OF n(1)] by (simp add: vfs_simps shfs_new_dentry_def) (simp add: stamp_def)
  have b4: "v_inode ?v4 ?b = Some ?vn" by (simp add: vfs_simps shfs_new_dentry_def)
  have ba: "?b \<noteq> a" using rd(6,7) by auto
  have dom: "v_dentry ?v4 e = None \<longleftrightarrow> v_dentry v e = None" if "e \<noteq> nd" for e
    using that by (simp add: vfs_simps shfs_new_dentry_def) (simp add: stamp_def)
  have "kids ?v4 a d"
  proof (rule kids_frame [OF rd(2) fr dom rd(1)])
    fix m b
    assume "v_dentry ?v4 nd = Some m" "dn_inode m = Some b"
    then have "b = ?b" unfolding nd4 by auto
    then show "b \<noteq> a \<and> (\<forall>vn. v_inode ?v4 b = Some vn \<longrightarrow> i_ino (vn_inode vn) \<noteq> 0)"
      using ba b4 ino rd(4) by simp
  qed
  moreover have "vfs_ok ?v4"
  proof -
    have "vfs_ok (?v1\<lparr>v_ino := v_ino v + 1\<rparr>)"
      using vfs_ok_stamp [OF rd(1)] vfs_ok_cong [of "?v1\<lparr>v_ino := v_ino v + 1\<rparr>" ?v1] by simp
    from shfs_iget_ok(1) [OF this ig] have "vfs_ok ?v3" by (simp add: vfs_simps)
    then have "vfs_ok (shfs_new_dentry nd ?v3)" by (rule vfs_ok_new_dentry)
    then show ?thesis
      by (rule vfs_ok_upd_dentry) (auto simp: live_def vfs_simps shfs_new_dentry_def has_info_def new_vnode_def fattr_inode_simps)
  qed
  moreover have "v_dentry ?v4 d \<noteq> None" "v_inode ?v4 a \<noteq> None" "allocs ?v4 = []" "0 < v_ino ?v4"
    "v_sb ?v4 = v_sb v" "jiffies ?v4 = jiffies v" "hz ?v4 = hz v"
    using rd ba n(1) by (simp_all add: upd_dentry_def shfs_new_dentry_def stamp_def)
  ultimately show ?thesis
    using fill fr nd4 b4 ino rd(4) n by (simp add: fill_ready_def)
qed

section \<open>The slots\<close>

lemma upd_inode_more [vfs_simps]: "allocs (upd_inode a f v) = allocs v" "v_ino (upd_inode a f v) = v_ino v"
  by (simp_all add: upd_inode_def)

text \<open>The pages so far: all there, and complete but for the first and the last.\<close>

definition pages_upto :: "(nat \<Rightarrow> dir_page option) \<Rightarrow> nat \<Rightarrow> bool" where
  "pages_upto pages m \<longleftrightarrow> (\<forall>k\<le>m. \<exists>p. pages k = Some p \<and> (0 < k \<and> k < m \<longrightarrow> pg_uptodate p))"

text \<open>An update of the pages that changes the slot \<open>m\<close> to \<open>nd\<close> and no other.\<close>

definition slot_set :: "(nat \<Rightarrow> dir_page option) \<Rightarrow> (nat \<Rightarrow> dir_page option) \<Rightarrow> nat \<Rightarrow> nat \<Rightarrow> bool" where
  "slot_set pages pages' m nd \<longleftrightarrow>
    (\<forall>k p i. pages k = Some p \<and> (k, i) \<noteq> (m div SHFS_DIRCACHE_SIZE, m mod SHFS_DIRCACHE_SIZE) \<longrightarrow>
      (\<exists>p'. pages' k = Some p' \<and> pg_dentry p' i = pg_dentry p i)) \<and>
    (\<exists>p'. pages' (m div SHFS_DIRCACHE_SIZE) = Some p' \<and> pg_dentry p' (m mod SHFS_DIRCACHE_SIZE) = nd)"

lemma fill_slot_ok:
  assumes vn: "v_inode v a = Some vn" and "allocs v = []"
    and m: "ctl_ofs ctl * SHFS_DIRCACHE_SIZE + ctl_idx ctl = m" "ctl_idx ctl \<le> SHFS_DIRCACHE_SIZE"
    and cc: "ctl_cache ctl = Some (ctl_ofs ctl)" "ctl_page ctl = (if ctl_ofs ctl = 0 then None else Some (ctl_ofs ctl))"
    and pg: "pages_upto (vn_pages vn) (ctl_ofs ctl)"
  shows "\<exists>P. fill_slot a nd ctl v = (True,
      ctl\<lparr>ctl_idx := m mod SHFS_DIRCACHE_SIZE, ctl_ofs := m div SHFS_DIRCACHE_SIZE,
        ctl_cache := Some (m div SHFS_DIRCACHE_SIZE),
        ctl_page := (if m div SHFS_DIRCACHE_SIZE = 0 then None else Some (m div SHFS_DIRCACHE_SIZE))\<rparr>,
      upd_inode a (\<lambda>vn. vn\<lparr>vn_pages := P\<rparr>) v) \<and>
    pages_upto P (m div SHFS_DIRCACHE_SIZE) \<and> slot_set (vn_pages vn) P m nd"
proof (cases "ctl_idx ctl < SHFS_DIRCACHE_SIZE")
  case True
  then have d: "m div 512 = ctl_ofs ctl" "m mod 512 = ctl_idx ctl" using m by auto
  obtain p where p: "vn_pages vn (ctl_ofs ctl) = Some p" using pg by (auto simp: pages_upto_def)
  let ?P = "(vn_pages vn)(ctl_ofs ctl := Some (p\<lparr>pg_dentry := (pg_dentry p)(ctl_idx ctl := nd)\<rparr>))"
  have c: "ctl = ctl\<lparr>ctl_idx := m mod 512, ctl_ofs := m div 512, ctl_cache := Some (m div 512),
        ctl_page := (if m div 512 = 0 then None else Some (m div 512))\<rparr>"
    using cc by (simp add: d)
  have "fill_slot a nd ctl v = (True, ctl, upd_inode a (\<lambda>vn. vn\<lparr>vn_pages := ?P\<rparr>) v)"
    using True cc(1) vn p by (simp add: fill_slot_def set_page_def upd_inode_def)
  moreover have "pages_upto ?P (m div 512)" using pg d p by (auto simp: pages_upto_def)
  moreover have "slot_set (vn_pages vn) ?P m nd" using d p by (auto simp: slot_set_def)
  ultimately show ?thesis by (intro exI [of _ ?P] conjI) (simp_all only: c [symmetric])
next
  case False
  then have i: "ctl_idx ctl = 512" using m(2) by simp
  then have d: "m div 512 = ctl_ofs ctl + 1" "m mod 512 = 0" using m by auto
  let ?k = "ctl_ofs ctl + 1"
  obtain p where p: "vn_pages vn (ctl_ofs ctl) = Some p" using pg by (auto simp: pages_upto_def)
  define P1 where "P1 = (if ctl_ofs ctl = 0 then vn_pages vn
    else (vn_pages vn)(ctl_ofs ctl := Some (p\<lparr>pg_uptodate := True\<rparr>)))"
  define q where "q = (case vn_pages vn ?k of None \<Rightarrow> blank_page | Some q \<Rightarrow> q)"
  let ?P = "P1(?k := Some (q\<lparr>pg_dentry := (pg_dentry q)(0 := nd)\<rparr>))"
  have dn: "page_done a (ctl_page ctl) v = upd_inode a (\<lambda>vn. vn\<lparr>vn_pages := P1\<rparr>) v"
    using cc(2) vn p by (simp add: page_done_def set_page_def upd_inode_def P1_def fun_upd_idem)
  have grab: "grab_page a ?k (upd_inode a (\<lambda>vn. vn\<lparr>vn_pages := P1\<rparr>) v) =
      (True, upd_inode a (\<lambda>vn. vn\<lparr>vn_pages := P1(?k := Some q)\<rparr>) v)"
    using vn assms(2)
    by (auto simp: grab_page_def vfs_simps q_def P1_def alloc_ok_def split: option.split)
      (auto simp: upd_inode_def fun_upd_idem)
  have "fill_slot a nd ctl v = (True, ctl\<lparr>ctl_idx := 0, ctl_ofs := ?k, ctl_page := Some ?k, ctl_cache := Some ?k\<rparr>,
      upd_inode a (\<lambda>vn. vn\<lparr>vn_pages := ?P\<rparr>) v)"
    using i vn dn grab by (simp add: fill_slot_def Let_def set_page_def) (simp add: upd_inode_def)
  moreover have "pages_upto ?P (m div 512)"
    using pg p d by (auto simp: pages_upto_def P1_def le_Suc_eq)
  moreover have "slot_set (vn_pages vn) ?P m nd"
    using d p by (auto simp: slot_set_def P1_def q_def)
  ultimately show ?thesis by (intro exI [of _ ?P]) (simp add: d)
qed

section \<open>One entry\<close>

lemma find_holds: "find P xs = Some x \<Longrightarrow> P x"
  by (induction xs) (auto split: if_splits)

lemma d_lookup_Some:
  assumes "d_lookup v p name = Some e"
  obtains n where "v_dentry v e = Some n" "dn_parent n = p" "e \<noteq> p" "dn_name n = name"
  using find_holds [OF assms [unfolded d_lookup_def]] that by (auto simp: is_child_def split: option.splits)

definition entry_node :: "'f vfs \<Rightarrow> nat \<Rightarrow> string \<Rightarrow> nat option \<times> bool \<times> 'f vfs" where
  "entry_node v d name = (case d_lookup v d name of Some e \<Rightarrow> (Some e, True, v)
     | None \<Rightarrow> (case d_alloc d name v of (nd, v1) \<Rightarrow> (nd, False, v1)))"

lemma entry_node_ok:
  assumes r: "fill_ready v a d"
  shows "\<exists>nd h v1 n. entry_node v d name = (Some nd, h, v1) \<and> fill_ready v1 a d \<and> frame a nd v v1 \<and>
    v_dentry v1 nd = Some n \<and> dn_parent n = d \<and> nd \<noteq> d \<and> dn_name n = name \<and> v_sb v1 = v_sb v \<and>
    jiffies v1 = jiffies v \<and> hz v1 = hz v \<and> (\<forall>pos x. entry_at v d nd pos = Some x \<longrightarrow> fst x = name)"
proof (cases "d_lookup v d name")
  case (Some e)
  then obtain n where "v_dentry v e = Some n" "dn_parent n = d" "e \<noteq> d" "dn_name n = name"
    by (rule d_lookup_Some)
  with r Some show ?thesis by (auto simp: entry_node_def entry_at_iff)
next
  case None
  note rd = fill_readyD [OF r]
  let ?n = "\<lparr>dn_name = name, dn_parent = d, dn_inode = None, dn_time = 0, dn_fsdata = 0, dn_hashed = False, dn_op = False\<rparr>"
  let ?v = "v\<lparr>v_next := v_next v + 1, v_dentry := (v_dentry v)(v_next v := Some ?n)\<rparr>"
  have a: "d_alloc d name v = (Some (v_next v), ?v)" using rd(3) by (simp add: d_alloc_def alloc_ok_def Let_def)
  have fr: "frame a (v_next v) v ?v" by (auto simp: frame_def)
  have "kids ?v a d" by (rule kids_frame [OF rd(2) fr _ rd(1)]) auto
  moreover have "vfs_ok ?v" by (rule vfs_ok_d_alloc [OF rd(1,5) a])
  moreover have "d \<noteq> v_next v" using rd(5,8) by auto
  moreover have "entry_at v d (v_next v) pos \<noteq> Some x" for pos x
    using rd(8) by (cases x) (auto simp: entry_at_iff)
  ultimately show ?thesis using rd None a fr by (auto simp: entry_node_def fill_ready_def)
qed

lemma entry_at_pages: "entry_at (upd_inode a (\<lambda>vn. vn\<lparr>vn_pages := P\<rparr>) v) d e pos = entry_at v d e pos"
proof (cases "v_dentry v e")
  case (Some n)
  then show ?thesis
    by (cases "dn_inode n"; cases "v_inode v a"; cases "v_inode v (the (dn_inode n))")
      (auto simp: entry_at_def shfs_dget_fpos_def is_child_def vfs_simps)
qed (simp add: entry_at_def shfs_dget_fpos_def is_child_def vfs_simps)

lemma fill_ready_pages:
  assumes "fill_ready v a d"
  shows "fill_ready (upd_inode a (\<lambda>vn. vn\<lparr>vn_pages := P\<rparr>) v) a d"
proof -
  have "vfs_ok (upd_inode a (\<lambda>vn. vn\<lparr>vn_pages := P\<rparr>) v)"
    by (rule vfs_ok_upd_inode [OF fill_readyD(1) [OF assms]]) (simp add: has_info_def)
  with fill_readyD [OF assms] show ?thesis by (auto simp: fill_ready_def kids_def vfs_simps)
qed

text \<open>The dentry gets its position and the operations of the module.\<close>

definition placed :: "nat \<Rightarrow> nat \<Rightarrow> 'f vfs \<Rightarrow> 'f vfs" where
  "placed nd pos v = shfs_new_dentry nd (upd_dentry nd (\<lambda>n. n\<lparr>dn_fsdata := pos\<rparr>) v)"

lemma placed_ok:
  assumes r: "fill_ready v a d" and n: "v_dentry v nd = Some n" and nd: "nd \<noteq> d"
  shows "fill_ready (placed nd pos v) a d" and "frame a nd v (placed nd pos v)"
    and "v_sb (placed nd pos v) = v_sb v" "jiffies (placed nd pos v) = jiffies v" "hz (placed nd pos v) = hz v" "v_inode (placed nd pos v) = v_inode v"
    and "v_dentry (placed nd pos v) nd = Some (n\<lparr>dn_fsdata := pos, dn_op := True, dn_time := jiffies v\<rparr>)"
proof -
  note rd = fill_readyD [OF r]
  show fr: "frame a nd v (placed nd pos v)"
    unfolding placed_def shfs_new_dentry_def by (rule frame_trans [OF frame_upd_dentry frame_upd_dentry])
  show eq: "v_sb (placed nd pos v) = v_sb v" "jiffies (placed nd pos v) = jiffies v" "hz (placed nd pos v) = hz v" "v_inode (placed nd pos v) = v_inode v"
    "v_dentry (placed nd pos v) nd = Some (n\<lparr>dn_fsdata := pos, dn_op := True, dn_time := jiffies v\<rparr>)"
    using n by (simp_all add: placed_def shfs_new_dentry_def vfs_simps)
  have "vfs_ok (placed nd pos v)" unfolding placed_def
    by (intro vfs_ok_new_dentry vfs_ok_upd_dentry [OF rd(1)]) auto
  moreover have "kids (placed nd pos v) a d"
  proof (rule kids_frame [OF rd(2) fr _ rd(1)])
    fix m b
    assume m: "v_dentry (placed nd pos v) nd = Some m" "dn_parent m = d" "dn_inode m = Some b"
    show "b \<noteq> a \<and> (\<forall>vn. v_inode (placed nd pos v) b = Some vn \<longrightarrow> i_ino (vn_inode vn) \<noteq> 0)"
      using m kidsD [OF rd(2) n _ nd] unfolding eq by auto
  qed (use n in \<open>auto simp: placed_def shfs_new_dentry_def vfs_simps\<close>)
  ultimately show "fill_ready (placed nd pos v) a d"
    using rd n by (simp add: fill_ready_def eq) (simp add: placed_def shfs_new_dentry_def upd_dentry_def)
qed

end
