(* ===== verification/DirListing.thy ===== *)
theory DirListing
  imports DirFill
begin

text \<open>
  A directory read from the remote side and then from the cache: the invariant of the filling is kept
  by every entry, and at its end the cache holds the listing.
\<close>

section \<open>What stays of the directory\<close>

text \<open>The directory's dentry, and of its inode all but the pages; the super block and the clock.\<close>

definition dir_same :: "nat \<Rightarrow> nat \<Rightarrow> 'f vfs \<Rightarrow> 'f vfs \<Rightarrow> bool" where
  "dir_same a d v v' \<longleftrightarrow> map_option dn_core (v_dentry v' d) = map_option dn_core (v_dentry v d) \<and>
     map_option (\<lambda>vn. vn\<lparr>vn_pages := (\<lambda>_. None)\<rparr>) (v_inode v' a) = map_option (\<lambda>vn. vn\<lparr>vn_pages := (\<lambda>_. None)\<rparr>) (v_inode v a) \<and>
     v_sb v' = v_sb v \<and> jiffies v' = jiffies v \<and> hz v' = hz v"

lemma dir_same_refl [simp]: "dir_same a d v v"
  by (simp add: dir_same_def)

lemma dir_same_trans: "dir_same a d v v' \<Longrightarrow> dir_same a d v' v'' \<Longrightarrow> dir_same a d v v''"
  by (simp add: dir_same_def)

lemma dir_same_frame:
  assumes "frame a nd v v'" and "v_dentry v d = Some n" "d \<noteq> nd" "v_inode v a = Some vn"
    and "v_sb v' = v_sb v" "jiffies v' = jiffies v" "hz v' = hz v"
  shows "dir_same a d v v'"
proof -
  from assms(1-3) obtain n' where "v_dentry v' d = Some n'" "dn_core n' = dn_core n" unfolding frame_def by blast
  with frame_pages [OF assms(1,4)] assms show ?thesis by (simp add: dir_same_def)
qed

lemma dir_same_pages: "dir_same a d v (upd_inode a (\<lambda>vn. vn\<lparr>vn_pages := P\<rparr>) v)"
  by (simp add: dir_same_def vfs_simps option.map_comp comp_def)

section \<open>The invariant of the filling\<close>

text \<open>
  After the entries \<open>ents\<close>: the control block stands behind them, the slots hold them, and the
  reader who started at \<open>p0\<close> has been given those from there on, until he wanted no more.
\<close>

definition filled :: "('b \<Rightarrow> string \<Rightarrow> nat \<Rightarrow> nat \<Rightarrow> int \<times> 'b) \<Rightarrow> nat \<Rightarrow> 'b \<Rightarrow> nat \<Rightarrow> nat
    \<Rightarrow> (string \<times> nat) list \<Rightarrow> ('f, 'b) filling \<Rightarrow> bool" where
  "filled filldir p0 out0 a d ents st \<longleftrightarrow> fill_ready (fl_v st) a d \<and>
     ctl_fpos (fl_ctl st) = length ents + 2 \<and> ctl_valid (fl_ctl st) \<and>
     ctl_ofs (fl_ctl st) * SHFS_DIRCACHE_SIZE + ctl_idx (fl_ctl st) = length ents + 3 \<and>
     ctl_idx (fl_ctl st) \<le> SHFS_DIRCACHE_SIZE \<and> ctl_cache (fl_ctl st) = Some (ctl_ofs (fl_ctl st)) \<and>
     ctl_page (fl_ctl st) = (if ctl_ofs (fl_ctl st) = 0 then None else Some (ctl_ofs (fl_ctl st))) \<and>
     (ctl_filled (fl_ctl st), fl_pos st, fl_out st) = emit filldir p0 (drop (p0 - 2) ents) out0 \<and>
     (\<exists>vn. v_inode (fl_v st) a = Some vn \<and> slots (fl_v st) d (vn_pages vn) ents \<and>
       pages_upto (vn_pages vn) (ctl_ofs (fl_ctl st)))"

lemma filledD:
  assumes "filled filldir p0 out0 a d ents st"
  shows "fill_ready (fl_v st) a d" "ctl_fpos (fl_ctl st) = length ents + 2" "ctl_valid (fl_ctl st)"
    "ctl_ofs (fl_ctl st) * SHFS_DIRCACHE_SIZE + ctl_idx (fl_ctl st) = length ents + 3"
    "ctl_idx (fl_ctl st) \<le> SHFS_DIRCACHE_SIZE" "ctl_cache (fl_ctl st) = Some (ctl_ofs (fl_ctl st))"
    "ctl_page (fl_ctl st) = (if ctl_ofs (fl_ctl st) = 0 then None else Some (ctl_ofs (fl_ctl st)))"
    "(ctl_filled (fl_ctl st), fl_pos st, fl_out st) = emit filldir p0 (drop (p0 - 2) ents) out0"
    "\<exists>vn. v_inode (fl_v st) a = Some vn \<and> slots (fl_v st) d (vn_pages vn) ents \<and>
       pages_upto (vn_pages vn) (ctl_ofs (fl_ctl st))"
  using assms unfolding filled_def by blast+

text \<open>The reader is given the entry exactly when he stands at it and still wants entries.\<close>

lemma fill_advance_idle:
  assumes "\<not> (ctl_filled (fl_ctl st) = 0 \<and> ctl_fpos (fl_ctl st) = fl_pos st)" and "ctl_valid (fl_ctl st)"
  shows "fill_advance filldir d name ino True st = (1, st\<lparr>fl_ctl := (fl_ctl st)\<lparr>ctl_fpos := ctl_fpos (fl_ctl st) + 1,
    ctl_idx := ctl_idx (fl_ctl st) + 1, ctl_filled := ctl_filled (fl_ctl st)\<rparr>\<rparr>)"
  using assms by (auto simp: fill_advance_def Let_def)

lemma fill_advance_emit:
  assumes "ctl_filled (fl_ctl st) = 0" and "ctl_fpos (fl_ctl st) = fl_pos st" and "ctl_valid (fl_ctl st)"
    and "ino \<noteq> 0" and "filldir (fl_out st) name (fl_pos st) ino = (q, o2)"
  shows "fill_advance filldir d name ino True st = (1, st\<lparr>fl_out := o2, fl_pos := if q = 0 then fl_pos st + 1 else fl_pos st,
    fl_ctl := (fl_ctl st)\<lparr>ctl_fpos := ctl_fpos (fl_ctl st) + 1, ctl_idx := ctl_idx (fl_ctl st) + 1, ctl_filled := q\<rparr>\<rparr>)"
  using assms by (simp add: fill_advance_def Let_def)

lemma fill_advance_ok:
  assumes p0: "2 \<le> p0" and fp: "ctl_fpos (fl_ctl st) = length ents + 2" and va: "ctl_valid (fl_ctl st)"
    and em: "(ctl_filled (fl_ctl st), fl_pos st, fl_out st) = emit filldir p0 (drop (p0 - 2) ents) out0"
    and ino: "ino \<noteq> 0"
  shows "\<exists>st' r. fill_advance filldir d name ino True st = (1, st') \<and> fl_v st' = fl_v st \<and>
    fl_ctl st' = (fl_ctl st)\<lparr>ctl_fpos := ctl_fpos (fl_ctl st) + 1, ctl_idx := ctl_idx (fl_ctl st) + 1, ctl_filled := r\<rparr> \<and>
    (r, fl_pos st', fl_out st') = emit filldir p0 (drop (p0 - 2) (ents @ [(name, ino)])) out0"
proof -
  let ?es = "drop (p0 - 2) ents" and ?es' = "drop (p0 - 2) (ents @ [(name, ino)])"
  have idle: ?thesis if "\<not> (ctl_filled (fl_ctl st) = 0 \<and> ctl_fpos (fl_ctl st) = fl_pos st)"
    and "emit filldir p0 ?es' out0 = emit filldir p0 ?es out0"
    unfolding fill_advance_idle [OF that(1) va] that(2) em [symmetric]
    by (rule exI, rule exI [of _ "ctl_filled (fl_ctl st)"], intro conjI, rule refl) simp_all
  show ?thesis
  proof (cases "length ents < p0 - 2")
    case True
    then have "?es' = []" "?es = []" by simp_all
    moreover have "fl_pos st = p0" using em \<open>?es = []\<close> by simp
    ultimately show ?thesis using True fp by (intro idle) auto
  next
    case False
    then have snoc: "?es' = ?es @ [(name, ino)]" by simp
    show ?thesis
    proof (cases "ctl_filled (fl_ctl st) = 0")
      case no: False
      then have "emit filldir p0 ?es' out0 = emit filldir p0 ?es out0"
        unfolding snoc emit_snoc em [symmetric] by simp
      with no show ?thesis by (intro idle) simp_all
    next
      case True
      then have p: "ctl_fpos (fl_ctl st) = fl_pos st"
        using emit_pos [of filldir p0 ?es out0] em [symmetric] fp False p0 by simp
      obtain q o2 where fd: "filldir (fl_out st) name (fl_pos st) ino = (q, o2)" by fastforce
      have "emit filldir p0 ?es' out0 = (q, if q = 0 then fl_pos st + 1 else fl_pos st, o2)"
        unfolding snoc emit_snoc em [symmetric] using True fd by simp
      then show ?thesis unfolding fill_advance_emit [where filldir = filldir, OF True p va ino fd]
        by - (rule exI, rule exI [of _ q], intro conjI, rule refl, simp_all)
    qed
  qed
qed

lemma slot_neq: "j < m \<Longrightarrow> ((j + 3) div n, (j + 3) mod n) \<noteq> ((m + 3) div n, (m + 3) mod (n :: nat))"
  by (metis add_right_cancel div_mult_mod_eq less_irrefl prod.inject)

lemma fill_cache_step:
  assumes p0: "2 \<le> p0" and f: "filled filldir p0 out0 a d ents st" and new: "name \<notin> fst ` set ents"
  shows "\<exists>st' ino. shfs_fill_cache filldir a d (Some st) name fa = (1, Some st') \<and>
    filled filldir p0 out0 a d (ents @ [(name, ino)]) st' \<and>
    dir_same a d (fl_v st) (fl_v st') \<and> ctl_head (fl_ctl st') = ctl_head (fl_ctl st)"
proof -
  note fD = filledD [OF f]
  let ?m = "length ents + 3" and ?ctl = "fl_ctl st"
  obtain nd h v1 n where 1: "entry_node (fl_v st) d name = (Some nd, h, v1)" "fill_ready v1 a d" "frame a nd (fl_v st) v1"
    "v_dentry v1 nd = Some n" "dn_parent n = d" "nd \<noteq> d" "dn_name n = name" "v_sb v1 = v_sb (fl_v st)"
    "jiffies v1 = jiffies (fl_v st)" "hz v1 = hz (fl_v st)" "\<And>pos x. entry_at (fl_v st) d nd pos = Some x \<Longrightarrow> fst x = name"
    using entry_node_ok [OF fD(1), of name] by blast
  note name_nd = 1(11)
  obtain v2 n2 b vn2 where 2: "fill_inode nd h fa v1 = Some v2" "fill_ready v2 a d" "frame a nd v1 v2"
    "v_sb v2 = v_sb v1" "jiffies v2 = jiffies v1" "hz v2 = hz v1" "v_dentry v2 nd = Some n2" "dn_name n2 = name" "dn_parent n2 = d"
    "dn_inode n2 = Some b" "v_inode v2 b = Some vn2" "i_ino (vn_inode vn2) \<noteq> 0"
    using fill_inode_ok [OF 1(2,4,5,6), of h fa] 1(7) by blast
  define ino where "ino = i_ino (vn_inode vn2)"
  have di: "dentry_inode v2 nd = Some (b, vn2)" "inode_number v2 nd = ino"
    using 2 by (simp_all add: dentry_inode_def inode_number_def ino_def)
  let ?v3 = "placed nd (length ents + 2) v2"
  note 3 = placed_ok [OF 2(2,7) 1(6), of "length ents + 2"]
  have fr: "frame a nd (fl_v st) ?v3" using 1(3) 2(3) 3(2) frame_trans by blast
  obtain vn where vn: "v_inode (fl_v st) a = Some vn" "slots (fl_v st) d (vn_pages vn) ents"
    "pages_upto (vn_pages vn) (ctl_ofs ?ctl)" using fD(9) by blast
  note vn3 = frame_pages [OF fr vn(1)]
  obtain P where P: "fill_slot a nd ?ctl ?v3 = (True,
      ?ctl\<lparr>ctl_idx := ?m mod SHFS_DIRCACHE_SIZE, ctl_ofs := ?m div SHFS_DIRCACHE_SIZE,
        ctl_cache := Some (?m div SHFS_DIRCACHE_SIZE),
        ctl_page := (if ?m div SHFS_DIRCACHE_SIZE = 0 then None else Some (?m div SHFS_DIRCACHE_SIZE))\<rparr>,
      upd_inode a (\<lambda>vn. vn\<lparr>vn_pages := P\<rparr>) ?v3)"
    "pages_upto P (?m div SHFS_DIRCACHE_SIZE)" "slot_set (vn_pages vn) P ?m nd"
    using fill_slot_ok [OF vn3 fill_readyD(3) [OF 3(1)] fD(4,5,6,7), of nd] vn(3) by metis
  let ?v4 = "upd_inode a (\<lambda>vn. vn\<lparr>vn_pages := P\<rparr>) ?v3"
  let ?ctl1 = "?ctl\<lparr>ctl_idx := ?m mod SHFS_DIRCACHE_SIZE, ctl_ofs := ?m div SHFS_DIRCACHE_SIZE,
        ctl_cache := Some (?m div SHFS_DIRCACHE_SIZE),
        ctl_page := (if ?m div SHFS_DIRCACHE_SIZE = 0 then None else Some (?m div SHFS_DIRCACHE_SIZE))\<rparr>"
  have sl: "slots ?v4 d P (ents @ [(name, ino)])"
    unfolding slots_def
  proof (intro allI impI)
    fix j
    assume "j < length (ents @ [(name, ino)])"
    then consider "j < length ents" | "j = length ents" by fastforce
    then show "\<exists>p. P ((j + 3) div SHFS_DIRCACHE_SIZE) = Some p \<and>
      entry_at ?v4 d (pg_dentry p ((j + 3) mod SHFS_DIRCACHE_SIZE)) (j + 2) = Some ((ents @ [(name, ino)]) ! j)"
    proof cases
      case 1
      then obtain p where p: "vn_pages vn ((j + 3) div SHFS_DIRCACHE_SIZE) = Some p"
        "entry_at (fl_v st) d (pg_dentry p ((j + 3) mod SHFS_DIRCACHE_SIZE)) (j + 2) = Some (ents ! j)"
        using vn(2) unfolding slots_def by blast
      have "((j + 3) div 512, (j + 3) mod 512) \<noteq> (?m div 512, ?m mod 512)"
        using 1 by (rule slot_neq)
      with P(3) p(1) obtain p' where p': "P ((j + 3) div 512) = Some p'"
        "pg_dentry p' ((j + 3) mod 512) = pg_dentry p ((j + 3) mod 512)"
        unfolding slot_set_def by blast
      have "fst (ents ! j) \<noteq> name" using new 1 by (metis imageI nth_mem)
      then have "pg_dentry p ((j + 3) mod 512) \<noteq> nd" using p(2) name_nd by metis
      from frame_entry [OF fr p(2) this] p' 1 show ?thesis by (simp add: entry_at_pages nth_append)
    next
      case 2
      obtain p' where "P (?m div 512) = Some p'" "pg_dentry p' (?m mod 512) = nd"
        using P(3) unfolding slot_set_def by blast
      moreover have "entry_at ?v3 d nd (length ents + 2) = Some (name, ino)"
        unfolding entry_at_iff using 3(6,7) \<open>dn_name n2 = name\<close> \<open>dn_parent n2 = d\<close> \<open>dn_inode n2 = Some b\<close>
          \<open>v_inode v2 b = Some vn2\<close> \<open>nd \<noteq> d\<close> ino_def by auto
      ultimately show ?thesis using 2 by (auto simp: entry_at_pages nth_append)
    qed
  qed
  let ?st = "st\<lparr>fl_v := ?v4, fl_ctl := ?ctl1\<rparr>"
  have "\<exists>st' r. fill_advance filldir d name ino True ?st = (1, st') \<and> fl_v st' = fl_v ?st \<and>
    fl_ctl st' = (fl_ctl ?st)\<lparr>ctl_fpos := ctl_fpos (fl_ctl ?st) + 1, ctl_idx := ctl_idx (fl_ctl ?st) + 1, ctl_filled := r\<rparr> \<and>
    (r, fl_pos st', fl_out st') = emit filldir p0 (drop (p0 - 2) (ents @ [(name, ino)])) out0"
    by (rule fill_advance_ok [OF p0]) (use fD(2,3,8) 2(12) in \<open>simp_all add: ino_def\<close>)
  then obtain st' r where adv: "fill_advance filldir d name ino True ?st = (1, st')" "fl_v st' = fl_v ?st"
    "fl_ctl st' = (fl_ctl ?st)\<lparr>ctl_fpos := ctl_fpos (fl_ctl ?st) + 1, ctl_idx := ctl_idx (fl_ctl ?st) + 1, ctl_filled := r\<rparr>"
    "(r, fl_pos st', fl_out st') = emit filldir p0 (drop (p0 - 2) (ents @ [(name, ino)])) out0"
    by blast
  have "shfs_fill_cache filldir a d (Some st) name fa = (1, Some st')"
    using 1(1) 2(1,7) di fD(2) P(1) adv(1)
    by (simp add: shfs_fill_cache_def entry_node_def [symmetric] placed_def)
  moreover have "filled filldir p0 out0 a d (ents @ [(name, ino)]) st'"
    unfolding filled_def adv(2,3)
    using fill_ready_pages [OF 3(1), of P] fD(2,3) adv(4) sl P(2) vn3
    by (auto simp: vfs_simps)
  moreover have "dir_same a d (fl_v st) ?v4"
  proof (rule dir_same_trans [OF _ dir_same_pages])
    obtain dn where "v_dentry (fl_v st) d = Some dn" using fill_readyD(5) [OF fD(1)] by blast
    then show "dir_same a d (fl_v st) ?v3"
      by (rule dir_same_frame [OF fr _ _ vn(1)]) (use 1 2 3 in auto)
  qed
  ultimately show ?thesis using adv(2,3) by (intro exI [of _ st'] exI [of _ ino]) simp
qed

section \<open>A whole listing\<close>

text \<open>The entries handed to the callback in turn, until it answers 0 (the loop of \<open>do_ls\<close>).\<close>

fun feed :: "('c \<Rightarrow> string \<Rightarrow> shfs_fattr \<Rightarrow> int \<times> 'c) \<Rightarrow> (string \<times> shfs_fattr) list \<Rightarrow> 'c \<Rightarrow> 'c" where
  "feed f [] c = c"
| "feed f (e # es) c = (case f c (fst e) (snd e) of (r, c1) \<Rightarrow> if r = 0 then c1 else feed f es c1)"

text \<open>The callback takes all of them.\<close>

fun accepts :: "('c \<Rightarrow> string \<Rightarrow> shfs_fattr \<Rightarrow> int \<times> 'c) \<Rightarrow> (string \<times> shfs_fattr) list \<Rightarrow> 'c \<Rightarrow> bool" where
  "accepts f [] c = True"
| "accepts f (e # es) c = (case f c (fst e) (snd e) of (r, c1) \<Rightarrow> r \<noteq> 0 \<and> accepts f es c1)"

lemma feed_filled:
  assumes "2 \<le> p0" and "filled filldir p0 out0 a d ents st" and "distinct (map fst ents @ map fst es)"
  shows "\<exists>st' ents'. feed (shfs_fill_cache filldir a d) es (Some st) = Some st' \<and>
    accepts (shfs_fill_cache filldir a d) es (Some st) \<and> filled filldir p0 out0 a d (ents @ ents') st' \<and> map fst ents' = map fst es \<and>
    dir_same a d (fl_v st) (fl_v st') \<and> ctl_head (fl_ctl st') = ctl_head (fl_ctl st)"
  using assms(2,3)
proof (induction es arbitrary: ents st)
  case Nil
  then show ?case by (intro exI [of _ st] exI [of _ "[]"]) simp
next
  case (Cons e es)
  obtain name fa where e: "e = (name, fa)" by (cases e)
  then have "name \<notin> fst ` set ents" using Cons.prems(2) by auto
  from fill_cache_step [OF assms(1) Cons.prems(1) this, of fa] obtain st1 ino where
    1: "shfs_fill_cache filldir a d (Some st) name fa = (1, Some st1)"
    "filled filldir p0 out0 a d (ents @ [(name, ino)]) st1" "dir_same a d (fl_v st) (fl_v st1)"
    "ctl_head (fl_ctl st1) = ctl_head (fl_ctl st)" by blast
  have "distinct (map fst (ents @ [(name, ino)]) @ map fst es)" using Cons.prems(2) e by auto
  from Cons.IH [OF 1(2) this] obtain st2 ents2 where
    2: "feed (shfs_fill_cache filldir a d) es (Some st1) = Some st2" "accepts (shfs_fill_cache filldir a d) es (Some st1)"
    "filled filldir p0 out0 a d ((ents @ [(name, ino)]) @ ents2) st2" "map fst ents2 = map fst es"
    "dir_same a d (fl_v st1) (fl_v st2)" "ctl_head (fl_ctl st2) = ctl_head (fl_ctl st1)" by blast
  with 1 e dir_same_trans [OF 1(3) 2(5)] show ?case
    by (intro exI [of _ st2] exI [of _ "(name, ino) # ents2"]) simp
qed

lemma invalidate_ok:
  assumes r: "fill_ready v a d" and "\<not> shfs_mutex (v_sb v)"
  shows "\<exists>v1. shfs_invalidate_dircache_entries d v = Some v1 \<and> fill_ready v1 a d \<and> dir_same a d v v1 \<and>
    same_tree v v1 \<and> v_inode v1 = v_inode v \<and> v_stk v1 = v_stk v"
proof -
  let ?f = "\<lambda>n. n\<lparr>dn_fsdata := 0, dn_time := u64 (int (jiffies v) - max_age v)\<rparr>"
  let ?v1 = "v\<lparr>v_dentry := \<lambda>e. if is_child v d e then map_option ?f (v_dentry v e) else v_dentry v e\<rparr>"
  note rd = fill_readyD [OF r]
  have sb: "(v_sb v)\<lparr>shfs_mutex := False\<rparr> = v_sb v" using assms(2) by simp
  have eq: "shfs_invalidate_dircache_entries d v = Some ?v1"
    using assms(2) by (simp add: shfs_invalidate_dircache_entries_def mutex_lock_def mutex_unlock_def sb)
  have tree: "same_tree v ?v1" by (auto simp: same_tree_def option.map_comp comp_def)
  have orig: "\<exists>n. v_dentry v e = Some n \<and> dn_inode n = dn_inode n1 \<and> dn_parent n = dn_parent n1"
    if "v_dentry ?v1 e = Some n1" for e n1
    using that by (auto split: if_splits)
  have "vfs_ok ?v1"
  proof -
    obtain rank where rank: "tree_by rank v" using vfs_okD(1) [OF rd(1)] by blast
    show ?thesis
    proof (rule vfs_okI)
      show "tree_by rank ?v1" by (rule tree_by_same_tree [OF tree rank])
      show "e < v_next ?v1" if "v_dentry ?v1 e = Some n" for e n
        using orig [OF that] vfs_okD(2) [OF rd(1)] by auto
      show "live ?v1 b" if "v_dentry ?v1 e = Some n" "dn_inode n = Some b" for e n b
        using orig [OF that(1)] that(2) vfs_okD(3) [OF rd(1)] by (auto simp: live_def)
    qed (use vfs_okD(4) [OF rd(1)] in simp)
  qed
  moreover have "kids ?v1 a d"
    unfolding kids_def
  proof (intro allI impI, elim conjE)
    fix e n b
    assume n: "v_dentry ?v1 e = Some n" "dn_parent n = d" "e \<noteq> d" "dn_inode n = Some b"
    from orig [OF n(1)] n(2,4) obtain m where "v_dentry v e = Some m" "dn_parent m = d" "dn_inode m = Some b" by auto
    from kidsD [OF rd(2) this(1,2) n(3) this(3)]
    show "b \<noteq> a \<and> (\<forall>vn. v_inode ?v1 b = Some vn \<longrightarrow> i_ino (vn_inode vn) \<noteq> 0)" by simp
  qed
  ultimately have "fill_ready ?v1 a d" using rd by (simp add: fill_ready_def)
  moreover have "dir_same a d v ?v1" by (simp add: dir_same_def is_child_def split: option.split)
  ultimately show ?thesis using eq tree by auto
qed

lemma dir_cached_cong:
  assumes "v_dentry v' = v_dentry v" and "v_inode v' = v_inode v"
  shows "dir_cached v' a d ents = dir_cached v a d ents" and "listing_time v' a = listing_time v a"
proof -
  have "entry_at v' d e pos = entry_at v d e pos" for e pos
    unfolding entry_at_def shfs_dget_fpos_def is_child_def assms ..
  then show "dir_cached v' a d ents = dir_cached v a d ents" by (simp add: dir_cached_def slots_def assms)
  show "listing_time v' a = listing_time v a" by (simp add: listing_time_def assms)
qed

text \<open>The end of a listing: the head is written, and the first and the last page are complete.\<close>

lemma close_cache:
  assumes f: "filled filldir p0 out0 a d ents st"
    and h: "ch_end h = length ents + 1" "ch_eof h" "ch_time h = t"
  shows "\<exists>v'. page_done a (ctl_page (fl_ctl st)) (set_page a 0 (\<lambda>p. p\<lparr>pg_head := h, pg_uptodate := True\<rparr>) (fl_v st)) = v' \<and>
    dir_cached v' a d ents \<and> listing_time v' a = t \<and> dir_same a d (fl_v st) v' \<and> fill_ready v' a d"
proof -
  note fD = filledD [OF f]
  let ?o = "ctl_ofs (fl_ctl st)" and ?v = "fl_v st"
  obtain vn where vn: "v_inode ?v a = Some vn" "slots ?v d (vn_pages vn) ents" "pages_upto (vn_pages vn) ?o"
    using fD(9) by blast
  define P1 where "P1 = (vn_pages vn)(0 := map_option (\<lambda>p. p\<lparr>pg_head := h, pg_uptodate := True\<rparr>) (vn_pages vn 0))"
  define P where "P = (if ?o = 0 then P1 else P1(?o := map_option (\<lambda>p. p\<lparr>pg_uptodate := True\<rparr>) (P1 ?o)))"
  let ?v' = "upd_inode a (\<lambda>vn. vn\<lparr>vn_pages := P\<rparr>) ?v"
  have eq: "page_done a (ctl_page (fl_ctl st)) (set_page a 0 (\<lambda>p. p\<lparr>pg_head := h, pg_uptodate := True\<rparr>) ?v) = ?v'"
    using fD(7) vn(1) by (simp add: page_done_def set_page_def upd_inode_def P_def P1_def)
  have pg: "\<exists>q. P k = Some q \<and> pg_dentry q = pg_dentry p" if "vn_pages vn k = Some p" for k p
    using that by (auto simp: P_def P1_def)
  have sl: "slots ?v' d P ents"
    using vn(2) pg unfolding slots_def entry_at_pages by metis
  have up: "pg_uptodate q" if "k * SHFS_DIRCACHE_SIZE \<le> length ents + 2" "P k = Some q" for k q
  proof -
    have "k \<le> ?o" using that(1) fD(4,5) by linarith
    with vn(3) that(2) show ?thesis by (auto simp: pages_upto_def P_def P1_def split: if_splits)
  qed
  obtain q0 where q0: "vn_pages vn 0 = Some q0" using vn(3) by (auto simp: pages_upto_def)
  then obtain p0 where p0: "P 0 = Some p0" "pg_head p0 = h"
    by (cases "?o = 0") (auto simp: P_def P1_def)
  have "dir_cached ?v' a d ents"
    unfolding dir_cached_def using vn(1) p0 h sl up by (auto simp: vfs_simps)
  moreover have "listing_time ?v' a = t" using vn(1) p0 h(3) by (simp add: listing_time_def vfs_simps)
  ultimately show ?thesis
    using eq dir_same_pages [of a d ?v P] fill_ready_pages [OF fD(1), of P] by blast
qed

definition given ::
  "('b \<Rightarrow> string \<Rightarrow> nat \<Rightarrow> nat \<Rightarrow> int \<times> 'b) \<Rightarrow> nat \<Rightarrow> (string \<times> nat) list \<Rightarrow> 'b \<Rightarrow> nat \<times> 'b" where
  "given filldir pos ents out = snd (emit filldir pos (drop (pos - 2) ents) out)"

lemma read_dir_fills:
  assumes r: "fill_ready v a d" and m: "\<not> shfs_mutex (v_sb v)" and pos: "2 \<le> pos"
    and vn: "v_inode v a = Some vn" "vn_pages vn 0 = Some p0"
    and name: "d_path v d = Some ns" "c_str (snd (get_name ns (v_stk v))) = name"
    and rd: "\<And>sto. accepts (shfs_fill_cache filldir a d) es sto \<Longrightarrow> \<exists>w1. rd (shfs_fill_cache filldir a d) (v_sb v) name sto =
      Some (r, name', feed (shfs_fill_cache filldir a d) es sto, w1) \<and> Q w1"
    and es: "distinct (map fst es)"
  shows "\<exists>v' ents w1. read_dir rd filldir a d head pos out v =
      Some (r, fst (given filldir pos ents out), snd (given filldir pos ents out), v') \<and>
    map fst ents = map fst es \<and> dir_cached v' a d ents \<and> listing_time v' a = jiffies v \<and>
    fill_ready v' a d \<and> dir_same a d (v\<lparr>v_sb := w1\<rparr>) v' \<and> Q w1"
proof -
  obtain v1 where 1: "shfs_invalidate_dircache_entries d v = Some v1" "fill_ready v1 a d" "dir_same a d v v1"
    "same_tree v v1" "v_inode v1 = v_inode v" "v_stk v1 = v_stk v"
    using invalidate_ok [OF r m] by blast
  have sb: "v_sb v1 = v_sb v" using 1(3) by (simp add: dir_same_def)
  obtain gn nm where gn: "get_name ns (v_stk v) = (gn, nm)" "\<not> gn < 0" "c_str nm = name"
    using get_name_not_negative [of ns "v_stk v"] name(2) by (cases "get_name ns (v_stk v)") auto
  have nm: "vfs_name v1 d = Some (gn, nm)"
    using d_path_cong [OF fill_readyD(1,5) [OF r] 1(4)] name(1) gn by (simp add: vfs_name_def 1(6))
  let ?ctl = "\<lparr>ctl_head = head\<lparr>ch_time := jiffies v, ch_eof := False\<rparr>, ctl_page = None, ctl_cache = Some 0,
           ctl_fpos = 2, ctl_ofs = 0, ctl_filled = 0, ctl_valid = True, ctl_idx = SHFS_DIRCACHE_START\<rparr>"
  let ?st = "\<lparr>fl_v = v1, fl_pos = pos, fl_out = out, fl_ctl = ?ctl\<rparr>"
  have "filled filldir pos out a d [] ?st"
    unfolding filled_def using 1(2,5) vn by (simp add: slots_def pages_upto_def)
  from feed_filled [OF pos this, of es] es obtain st ents where
    2: "feed (shfs_fill_cache filldir a d) es (Some ?st) = Some st" "filled filldir pos out a d ents st"
    "map fst ents = map fst es" "dir_same a d v1 (fl_v st)" "ctl_head (fl_ctl st) = head\<lparr>ch_time := jiffies v, ch_eof := False\<rparr>"
    "accepts (shfs_fill_cache filldir a d) es (Some ?st)"
    by auto
  let ?h = "(ctl_head (fl_ctl st))\<lparr>ch_end := ctl_fpos (fl_ctl st) - 1, ch_eof := ctl_valid (fl_ctl st)\<rparr>"
  have h: "ch_end ?h = length ents + 1" "ch_eof ?h" "ch_time ?h = jiffies v"
    using filledD(2,3) [OF 2(2)] 2(5) by simp_all
  obtain v2 where 3: "page_done a (ctl_page (fl_ctl st)) (set_page a 0 (\<lambda>p. p\<lparr>pg_head := ?h, pg_uptodate := True\<rparr>) (fl_v st)) = v2"
    "dir_cached v2 a d ents" "listing_time v2 a = jiffies v" "dir_same a d (fl_v st) v2" "fill_ready v2 a d"
    using close_cache [OF 2(2) h] by blast
  obtain w1 where w1: "rd (shfs_fill_cache filldir a d) (v_sb v) name (Some ?st) = Some (r, name', Some st, w1)" "Q w1"
    using rd [OF 2(6)] 2(1) by auto
  have "read_dir rd filldir a d head pos out v = Some (r, fl_pos st, fl_out st, v2\<lparr>v_sb := w1\<rparr>)"
    using gn(2) by (simp add: read_dir_def 1(1) nm sb w1(1) [folded gn(3)] 3(1) [simplified] Let_def)
  moreover have "given filldir pos ents out = (fl_pos st, fl_out st)"
    using filledD(8) [OF 2(2)] unfolding given_def by (metis snd_conv)
  moreover have "dir_cached (v2\<lparr>v_sb := w1\<rparr>) a d ents" "listing_time (v2\<lparr>v_sb := w1\<rparr>) a = jiffies v"
    using 3(2,3) dir_cached_cong [of "v2\<lparr>v_sb := w1\<rparr>" v2] by simp_all
  moreover have "fill_ready (v2\<lparr>v_sb := w1\<rparr>) a d" using 3(5) by (simp add: fill_ready_def kids_def)
  moreover have "dir_same a d (v\<lparr>v_sb := w1\<rparr>) (v2\<lparr>v_sb := w1\<rparr>)"
    using dir_same_trans [OF dir_same_trans [OF 1(3) 2(4)] 3(4)] by (simp add: dir_same_def)
  ultimately show ?thesis using 2(3) w1(2)
    by (intro exI [of _ "v2\<lparr>v_sb := w1\<rparr>"] exI [of _ ents] exI [of _ w1]) simp
qed

text \<open>
  A directory whose listing is not in the cache, or is too old, and what has to hold afterwards for
  the cache to be used.
\<close>

definition unread :: "'f vfs \<Rightarrow> nat \<Rightarrow> nat \<Rightarrow> bool" where
  "unread v a pos \<longleftrightarrow> (case v_inode v a of None \<Rightarrow> False | Some vn \<Rightarrow>
     (case vn_pages vn 0 of None \<Rightarrow> True | Some p \<Rightarrow> \<not> pg_uptodate p \<or> \<not> ch_eof (pg_head p) \<or>
        pos = 2 \<and> u64 (max_age v) \<le> u64 (int (jiffies v) - int (ch_time (pg_head p)))))"

definition dir_ready :: "'f vfs \<Rightarrow> nat \<Rightarrow> nat \<Rightarrow> vnode \<Rightarrow> bool" where
  "dir_ready v a d vn \<longleftrightarrow> fill_ready v a d \<and> dentry_inode v d = Some (a, vn) \<and> \<not> shfs_mutex (v_sb v) \<and> settled v vn"

lemma fill_ready_stamp:
  assumes "fill_ready v a d"
  shows "fill_ready (stamp P v) a d"
proof -
  have "kids (stamp P v) a d" unfolding kids_def
  proof (intro allI impI, elim conjE)
    fix e n b
    assume n: "v_dentry (stamp P v) e = Some n" "dn_parent n = d" "e \<noteq> d" "dn_inode n = Some b"
    then obtain m where "v_dentry v e = Some m" "dn_parent m = d" "dn_inode m = Some b"
      by (auto simp: stamp_def split: if_splits)
    from kidsD [OF fill_readyD(2) [OF assms] this(1,2) n(3) this(3)]
    show "b \<noteq> a \<and> (\<forall>vn. v_inode (stamp P v) b = Some vn \<longrightarrow> i_ino (vn_inode vn) \<noteq> 0)" by (simp add: vfs_simps)
  qed
  then show ?thesis using fill_readyD [OF assms] vfs_ok_stamp [of v P]
    by (simp add: fill_ready_def vfs_simps) (simp add: stamp_def)
qed

lemma dir_same_stamp: "dir_same a d v (stamp P v)"
  by (cases "v_dentry v d") (simp_all add: dir_same_def stamp_def dn_core_def)

lemma readdir_fills:
  assumes dr: "dir_ready v a d vn" and un: "unread v a pos" and pos: "2 \<le> pos"
    and name: "d_path v d = Some ns" "c_str (snd (get_name ns (v_stk v))) = name"
    and rd: "\<And>sto. accepts (shfs_fill_cache filldir a d) es sto \<Longrightarrow> \<exists>w1. rd (shfs_fill_cache filldir a d) (v_sb v) name sto =
      Some (r, name', feed (shfs_fill_cache filldir a d) es sto, w1) \<and> Q w1"
    and es: "distinct (map fst es)"
  shows "\<exists>v' ents w1. shfs_readdir fops rd filldir d pos out v =
      Some (r, fst (given filldir pos ents out), snd (given filldir pos ents out), v') \<and>
    map fst ents = map fst es \<and> dir_cached v' a d ents \<and> listing_time v' a = jiffies v \<and>
    fill_ready v' a d \<and> dir_same a d (v\<lparr>v_sb := w1\<rparr>) v' \<and> Q w1"
proof -
  from dr have fr: "fill_ready v a d" and di: "dentry_inode v d = Some (a, vn)" and m: "\<not> shfs_mutex (v_sb v)"
    and st: "settled v vn" by (simp_all add: dir_ready_def)
  note rdy = fill_readyD [OF fr]
  obtain n where n: "v_dentry v d = Some n" using rdy(5) by blast
  have vn: "v_inode v a = Some vn" using di by (auto simp: dentry_inode_def elim!: bind_SomeE)
  obtain v1 where v1: "shfs_revalidate_inode fops d v = Some (0, v1)" "v1 = v \<or> v1 = stamp (above v d) v" "vfs_ok v1"
    "v_sb v1 = v_sb v" "v_inode v1 = v_inode v"
    by (rule settled_quiet [OF rdy(1) di m st])
  have f1: "fill_ready v1 a d" "dir_same a d v v1" "same_tree v v1" "v_stk v1 = v_stk v" "allocs v1 = []"
    "jiffies v1 = jiffies v" "max_age v1 = max_age v"
    using v1(2) fr fill_ready_stamp [OF fr, of "above v d"] dir_same_stamp [of a d v "above v d"]
      stamp_same_tree [of v "above v d"] rdy(3) by (auto simp: vfs_simps max_age_def) (simp add: stamp_def)
  define P where "P = (case vn_pages vn 0 of None \<Rightarrow> (vn_pages vn)(0 := Some blank_page) | Some p \<Rightarrow> vn_pages vn)"
  define p0 where "p0 = (case vn_pages vn 0 of None \<Rightarrow> blank_page | Some p \<Rightarrow> p)"
  let ?v2 = "upd_inode a (\<lambda>vn. vn\<lparr>vn_pages := P\<rparr>) v1"
  have grab: "grab_page a 0 v1 = (True, ?v2)"
    using vn f1(5) by (cases "vn_pages vn 0") (simp_all add: grab_page_def v1(5) alloc_ok_def P_def upd_inode_def fun_upd_idem)
  have vn2: "v_inode ?v2 a = Some (vn\<lparr>vn_pages := P\<rparr>)" "P 0 = Some p0"
    using vn by (auto simp: vfs_simps v1(5) P_def p0_def split: option.split)
  have must: "\<not> pg_uptodate p0 \<or> \<not> ch_eof (pg_head p0) \<or>
      pos = 2 \<and> u64 (int (jiffies ?v2) - int (ch_time (pg_head p0))) \<ge> u64 (max_age ?v2)"
    using un vn f1(6,7)
    by (cases "vn_pages vn 0") (auto simp: unread_def p0_def blank_page_def vfs_simps max_age_def)
  have dot: "dot_entries filldir i q pos out = (True, pos, out)" for i q
    using pos by (simp add: dot_entries_def)
  have eq: "shfs_readdir fops rd filldir d pos out v = read_dir rd filldir a d (pg_head p0) pos out ?v2"
    unfolding shfs_readdir_def n di dot v1(1) grab Option.bind.bind_lunit prod.case vn2(1)
    using vn2(2) must by (simp add: Let_def)
  have same: "same_tree v ?v2" using f1(3) by (simp add: same_tree_def vfs_simps)
  have fr2: "fill_ready ?v2 a d" by (rule fill_ready_pages [OF f1(1)])
  have path: "d_path ?v2 d = Some ns" using d_path_cong [OF rdy(1,5) same] name(1) by simp
  have sb: "v_sb ?v2 = v_sb v" "v_stk ?v2 = v_stk v" "jiffies ?v2 = jiffies v" using v1(4) f1(4,6) by (simp_all add: vfs_simps)
  have "\<exists>v' ents w1. read_dir rd filldir a d (pg_head p0) pos out ?v2 =
      Some (r, fst (given filldir pos ents out), snd (given filldir pos ents out), v') \<and>
    map fst ents = map fst es \<and> dir_cached v' a d ents \<and> listing_time v' a = jiffies ?v2 \<and>
    fill_ready v' a d \<and> dir_same a d (?v2\<lparr>v_sb := w1\<rparr>) v' \<and> Q w1"
    by (rule read_dir_fills [OF fr2 _ pos vn2(1) _ path _ _ es, where name = name and name' = name'])
      (use m name(2) rd vn2(2) in \<open>simp_all add: sb\<close>)
  moreover have "dir_same a d (v\<lparr>v_sb := w\<rparr>) (?v2\<lparr>v_sb := w\<rparr>)" for w
    using dir_same_trans [OF f1(2) dir_same_pages] by (simp add: dir_same_def)
  ultimately show ?thesis unfolding eq sb(3) using dir_same_trans by blast
qed

text \<open>
  The listing and what follows it: the reader is given the entries of the remote side, and while the
  listing is fresh every further reader is given the same ones without a word to the remote side.
\<close>

lemma dir_same_settled:
  assumes "dir_same a d v v'" and "dentry_inode v d = Some (a, vn)" and "fill_ready v' a d" and "settled v vn"
  shows "\<exists>vn'. dentry_inode v' d = Some (a, vn') \<and> settled v' vn'"
proof -
  from assms(2) obtain n where n: "v_dentry v d = Some n" "dn_inode n = Some a" "v_inode v a = Some vn"
    by (auto simp: dentry_inode_def elim!: bind_SomeE)
  obtain n' vn' where n': "v_dentry v' d = Some n'" "v_inode v' a = Some vn'"
    using fill_readyD(5,6) [OF assms(3)] by blast
  have "dn_core n' = dn_core n" "vn'\<lparr>vn_pages := (\<lambda>_. None)\<rparr> = vn\<lparr>vn_pages := (\<lambda>_. None)\<rparr>"
    using assms(1) n n' by (simp_all add: dir_same_def)
  then have "dn_inode n' = Some a" "vn_inode vn' = vn_inode vn" "vn_bad vn' = vn_bad vn"
    using n(2) by (auto simp: dn_core_def dest: arg_cong [of _ _ vn_inode] arg_cong [of _ _ vn_bad])
  then show ?thesis
    using n' assms(1,4) by (simp add: dentry_inode_def settled_def dir_same_def max_age_def)
qed

lemma listing_spec:
  assumes dr: "dir_ready v a d vn" and un: "unread v a pos" and pos: "2 \<le> pos"
    and name: "d_path v d = Some ns" "c_str (snd (get_name ns (v_stk v))) = name"
    and rd: "\<And>sto. accepts (shfs_fill_cache filldir a d) es sto \<Longrightarrow> \<exists>w1. rd (shfs_fill_cache filldir a d) (v_sb v) name sto =
      Some (r, name', feed (shfs_fill_cache filldir a d) es sto, w1) \<and> Q w1"
    and es: "distinct (map fst es)"
    and later: "\<And>w1. Q w1 \<Longrightarrow> \<not> shfs_mutex w1" "\<And>w1. Q w1 \<Longrightarrow> settled (v\<lparr>v_sb := w1\<rparr>) vn"
      "\<And>w1. Q w1 \<Longrightarrow> 0 < u64 (max_age (v\<lparr>v_sb := w1\<rparr>))"
  shows "\<exists>v' ents. shfs_readdir fops rd filldir d pos out v =
      Some (r, fst (given filldir pos ents out), snd (given filldir pos ents out), v') \<and>
    map fst ents = map fst es \<and> Q (v_sb v') \<and> vfs_ok v' \<and>
    (\<forall>pos2\<ge>2. \<exists>v''. shfs_readdir fops rd2 filldir2 d pos2 out2 v' =
      Some (0, fst (given filldir2 pos2 ents out2), snd (given filldir2 pos2 ents out2), v'') \<and> v_sb v'' = v_sb v')"
proof -
  have "\<exists>v' ents w1. shfs_readdir fops rd filldir d pos out v =
      Some (r, fst (given filldir pos ents out), snd (given filldir pos ents out), v') \<and>
    map fst ents = map fst es \<and> dir_cached v' a d ents \<and> listing_time v' a = jiffies v \<and>
    fill_ready v' a d \<and> dir_same a d (v\<lparr>v_sb := w1\<rparr>) v' \<and> Q w1"
    by (rule readdir_fills [OF dr un pos name _ es]) (rule rd)
  then obtain v' ents w1 where 1: "shfs_readdir fops rd filldir d pos out v =
      Some (r, fst (given filldir pos ents out), snd (given filldir pos ents out), v')"
    "map fst ents = map fst es" "dir_cached v' a d ents" "listing_time v' a = jiffies v"
    "fill_ready v' a d" "dir_same a d (v\<lparr>v_sb := w1\<rparr>) v'" and q: "Q w1"
    by blast
  have "dentry_inode (v\<lparr>v_sb := w1\<rparr>) d = Some (a, vn)" using dr by (simp add: dir_ready_def dentry_inode_def)
  from dir_same_settled [OF 1(6) this 1(5) later(2) [OF q]] obtain vn' where
    vn': "dentry_inode v' d = Some (a, vn')" "settled v' vn'" by blast
  have sb: "v_sb v' = w1" "jiffies v' = jiffies v" "hz v' = hz v" using 1(6) by (simp_all add: dir_same_def)
  have m: "\<not> shfs_mutex (v_sb v')" using later(1) [OF q] sb by simp
  have fresh: "u64 (int (jiffies v') - int (listing_time v' a)) < u64 (max_age v')"
    using later(3) [OF q] sb by (simp add: 1(4) max_age_def u64_def)
  have "\<exists>v''. shfs_readdir fops rd2 filldir2 d pos2 out2 v' =
      Some (0, fst (given filldir2 pos2 ents out2), snd (given filldir2 pos2 ents out2), v'') \<and> v_sb v'' = v_sb v'"
    if "2 \<le> pos2" for pos2
    using cached_read_spec [OF fill_readyD(1) [OF 1(5)] vn'(1) m vn'(2) 1(3) that fresh, of fops rd2 filldir2 out2] sb
    unfolding given_def by blast
  with 1(1,2) sb(1) q fill_readyD(1) [OF 1(5)] show ?thesis by blast
qed

end
