(* ===== verification/SuperSpec.thy ===== *)
theory SuperSpec
  imports Super DirListing
begin

text \<open>
  What a mount gives: options that parse leave a super block the cache and the directories work with,
  and the root is a dentry whose listing is not cached yet. What a failed mount leaves behind.
\<close>

section \<open>What the options leave\<close>

lemma digits_bound: "\<forall>c \<in> set s. isdigit c \<Longrightarrow> foldl (\<lambda>a c. a * 10 + digit_val c) 0 s < 10 ^ length s"
proof (induction s rule: rev_induct)
  case Nil
  then show ?case by simp
next
  case (snoc c s)
  then have "foldl (\<lambda>a c. a * 10 + digit_val c) 0 s + 1 \<le> 10 ^ length s" by simp
  moreover have "digit_val c < 10" using snoc.prems by (auto simp: isdigit_def digit_val_def)
  ultimately show ?case by simp
qed

lemma number_bounds:
  assumes "length s \<le> 5"
  shows "0 \<le> number s" and "number s < 100000"
proof -
  let ?t = "takeWhile isdigit s"
  let ?n = "foldl (\<lambda>a c. a * 10 + digit_val c) 0 ?t"
  have "\<forall>c \<in> set ?t. isdigit c" by (auto dest: set_takeWhileD)
  then have "?n < 10 ^ length ?t" by (rule digits_bound)
  moreover have "length ?t \<le> 5" using assms length_takeWhile_le [of isdigit s] by linarith
  then have "(10 :: nat) ^ length ?t \<le> 10 ^ 5" by (intro power_increasing) simp_all
  ultimately have n: "?n < 100000" by simp
  then have "strtoul s = ?n" by (simp add: strtoul_def u64_def)
  with n have "number s = int ?n" by (simp add: number_def)
  with n show "0 \<le> number s" and "number s < 100000" by simp_all
qed

lemma bit_count_small:
  assumes "n < 100000"
  shows "bit_count n \<le> 17"
proof (rule ccontr)
  assume "\<not> ?thesis"
  then have "(2 :: nat) ^ 17 \<le> 2 ^ (bit_count n - 1)" by (intro power_increasing) simp_all
  moreover have "n \<noteq> 0"
  proof
    assume "n = 0"
    with \<open>\<not> bit_count n \<le> 17\<close> show False by (simp add: bit_count.simps)
  qed
  then have "2 ^ (bit_count n - 1) \<le> n" using bit_count_bounds [of n] by simp
  ultimately show False using assms by simp
qed

text \<open>Of what is not an option nothing changes, and the size of the caches stays one they can have.\<close>

definition mountable :: "'f world \<Rightarrow> bool" where
  "mountable w \<longleftrightarrow> \<not> shfs_mutex w \<and> \<not> garbage w \<and> readlnbuf w = [] \<and> (\<exists>S. fsize_ok S \<and> fcache_size w = int S)"

definition same_task :: "'f world \<Rightarrow> 'f world \<Rightarrow> bool" where
  "same_task w w' \<longleftrightarrow> cur_uid w' = cur_uid w \<and> cur_groups w' = cur_groups w \<and> sigpipe w' = sigpipe w \<and>
     signalled w' = signalled w \<and> now w' = now w"

lemma cache_pages_ok:
  assumes "k \<le> 17"
  shows "fsize_ok (2 ^ k * PAGE_SIZE)" and "s32 (int (2 ^ k * PAGE_SIZE)) = int (2 ^ k * PAGE_SIZE)"
proof -
  have "(2 :: nat) ^ k \<le> 2 ^ 17" using assms by (intro power_increasing) simp_all
  then have k: "2 ^ k * PAGE_SIZE < (2147483648 :: nat)" by simp
  then show "fsize_ok (2 ^ k * PAGE_SIZE)" by (simp add: fsize_ok_def)
  show "s32 (int (2 ^ k * PAGE_SIZE)) = int (2 ^ k * PAGE_SIZE)" using k by (intro s32_id) linarith+
qed

lemma set_cachesize_mountable:
  assumes "length q \<le> 5" and "shift_loop (number q - 1) = Some j" and "mountable w"
  shows "mountable (w\<lparr>fcache_size := s32 (int (2 ^ j * PAGE_SIZE))\<rparr>)"
proof -
  have "j = bit_count (nat (number q - 1))" using assms(2) by (simp add: shift_loop_def split: if_splits)
  then have "j \<le> 17" using number_bounds [OF assms(1)] by (simp add: bit_count_small)
  then have "fsize_ok (2 ^ j * PAGE_SIZE)" "s32 (int (2 ^ j * PAGE_SIZE)) = int (2 ^ j * PAGE_SIZE)"
    by (rule cache_pages_ok)+
  with assms(3) show ?thesis unfolding mountable_def by auto
qed

lemma set_option_mountable:
  assumes "set_option fget p mem w = Some (ok, w')" and "mountable w"
  shows "mountable w' \<and> same_task w w'"
proof (cases "starts_with ''cachesize='' p \<and> fcache_size w' \<noteq> fcache_size w")
  case True
  then obtain j where j: "length (drop 10 p) \<le> 5" "shift_loop (number (drop 10 p) - 1) = Some j"
    "w' = w\<lparr>fcache_size := s32 (int (2 ^ j * PAGE_SIZE))\<rparr>"
    using assms(1) by (auto simp: set_option_def split: if_splits elim!: bind_SomeE)
  show ?thesis using set_cachesize_mountable [OF j(1,2) assms(2)] unfolding j(3) by (simp add: same_task_def)
next
  case False
  then show ?thesis using assms
    by (auto simp: set_option_def mountable_def same_task_def split: if_splits elim!: bind_SomeE)
qed

lemma same_task_trans: "same_task u v \<Longrightarrow> same_task v w \<Longrightarrow> same_task u w"
  by (simp add: same_task_def)

lemma options_loop_mountable:
  assumes "options_loop fget opts w = Some (r, w')" and "mountable w"
  shows "mountable w' \<and> same_task w w'"
  using assms
proof (induction fget opts w rule: options_loop.induct)
  case (1 fget w)
  then show ?case by (simp add: same_task_def)
next
  case (2 fget s w)
  obtain p rest where p: "strsep (CHR '','') s = (p, rest)" by fastforce
  from 2(2) obtain ok w1 where so: "set_option fget p (p @ [NUL] @ (case rest of None \<Rightarrow> [] | Some r \<Rightarrow> r)) w = Some (ok, w1)"
    by (cases "set_option fget p (p @ [NUL] @ (case rest of None \<Rightarrow> [] | Some r \<Rightarrow> r)) w") (auto simp: p)
  note m1 = set_option_mountable [OF so 2(3)]
  show ?case
  proof (cases ok)
    case True
    then have "options_loop fget rest w1 = Some (r, w')" using 2(2) by (simp add: p so [simplified])
    from 2(1) [OF p [symmetric] so refl _ this] True m1 show ?thesis by (auto intro: same_task_trans)
  next
    case False
    then show ?thesis using 2(2) m1 by (simp add: p so [simplified])
  qed
qed

lemma default_info_mountable [simp]: "mountable (default_info gr w)"
  using cache_pages_ok(1) [of 5] unfolding mountable_def by (auto simp: default_info_def)

section \<open>A mount\<close>

lemma alloc_super_ok: "allocs v = [] \<Longrightarrow> alloc_super v = (True, v\<lparr>s_magic := SHFS_SUPER_MAGIC\<rparr>)"
  by (simp add: alloc_super_def alloc_ok_def)

text \<open>The store after a mount: the root dentry and its inode, nothing else.\<close>

definition mounted :: "'f world \<Rightarrow> 'f vfs \<Rightarrow> nat \<Rightarrow> 'f vfs \<Rightarrow> bool" where
  "mounted w v d v' \<longleftrightarrow> v_sb v' = w \<and> d_path v' d = Some [] \<and> s_magic v' = SHFS_SUPER_MAGIC \<and>
     (\<exists>a vn. dir_ready v' a d vn \<and> (\<forall>pos. unread v' a pos) \<and> vn_ops vn = inode_ops (root_mode w) \<and>
        i_mode (vn_inode vn) = root_mode w \<and> i_uid (vn_inode vn) = uid w \<and> i_gid (vn_inode vn) = gid w) \<and>
     (\<forall>e. v_dentry v' e \<noteq> None \<longleftrightarrow> e = d) \<and> v_stk v' = v_stk v \<and> jiffies v' = jiffies v"

definition unmounted :: "'f vfs \<Rightarrow> bool" where
  "unmounted v \<longleftrightarrow> allocs v = [] \<and> v_dentry v = (\<lambda>_. None) \<and> v_inode v = (\<lambda>_. None) \<and> 0 < v_ino v"

lemma read_super_ok:
  assumes "unmounted v" and "parse_options fget (default_info gr (v_sb v)) opts = Some (0, w)"
    and "sock w \<noteq> None" and "version w = PROTO_VERSION" and "\<not> shfs_mutex w"
  shows "\<exists>d v'. shfs_read_super fget gr opts v = Some (0, Some d, v') \<and> mounted w v d v'"
proof -
  note v = assms(1) [unfolded unmounted_def]
  define v2 where "v2 = v\<lparr>s_magic := SHFS_SUPER_MAGIC, v_sb := w\<rparr>"
  let ?fa = "init_root_dirent v2" and ?a = "v_next v" and ?d = "Suc (v_next v)"
  define n where "n = \<lparr>dn_name = ''/'', dn_parent = ?d, dn_inode = Some ?a, dn_time = jiffies v, dn_fsdata = 0,
    dn_hashed = False, dn_op = True\<rparr>"
  define v' where "v' = v2\<lparr>v_next := Suc ?d, v_inode := [?a \<mapsto> new_vnode v2 ?fa], v_dentry := [?d \<mapsto> n]\<rparr>"
  have iget: "shfs_iget ?fa v2 = (Some ?a, v2\<lparr>v_next := ?d, v_inode := [?a \<mapsto> new_vnode v2 ?fa]\<rparr>)"
    using shfs_iget_new [of v2 ?fa] v by (simp add: v2_def)
  have new: "v_next v' = Suc ?d" "v_dentry v' = [?d \<mapsto> n]" "v_inode v' = [?a \<mapsto> new_vnode v2 ?fa]" "v_sb v' = w"
    "allocs v' = []" "v_ino v' = v_ino v" "s_magic v' = SHFS_SUPER_MAGIC" "v_stk v' = v_stk v" "jiffies v' = jiffies v"
    using v by (simp_all add: v'_def v2_def)
  have "shfs_read_super fget gr opts v = Some (0, Some ?d, v')"
    using v assms(2-4) iget
    by (simp add: shfs_read_super_def alloc_super_ok v2_def [symmetric] d_make_root_def alloc_ok_def shfs_new_dentry_def
        upd_dentry_def Let_def) (simp add: shfs_new_dentry_def upd_dentry_def v'_def v2_def n_def fun_eq_iff)
  moreover have ok: "vfs_ok v'"
  proof (rule vfs_okI)
    show "tree_by id v'" by (auto simp: tree_by_def new n_def split: if_splits)
  qed (auto simp: new n_def live_def has_info_def new_vnode_def fattr_inode_simps split: if_splits)
  have path: "d_path v' ?d = Some []" by (subst d_path.simps) (simp add: new n_def)
  have kids: "kids v' ?a ?d" by (auto simp: kids_def new split: if_splits)
  have "dir_ready v' ?a ?d (new_vnode v2 ?fa)"
    using ok kids assms(5) v by (simp add: dir_ready_def fill_ready_def settled_def dentry_inode_def new)
      (simp add: n_def new_vnode_def fattr_inode_simps init_root_dirent_def Let_def fattr_inode_def blank_inode_def)
  then have "mounted w v ?d v'"
    using path by (auto simp: mounted_def new unread_def new_vnode_def fattr_inode_def init_root_dirent_def Let_def v2_def
        intro!: exI [of _ ?a])
  ultimately show ?thesis by blast
qed

lemma read_super_refused:
  assumes "allocs v = []" and "parse_options fget (default_info gr (v_sb v)) opts = Some (r, w)"
    and "r < 0 \<or> sock w = None \<or> version w \<noteq> PROTO_VERSION"
  shows "shfs_read_super fget gr opts v = Some (- EINVAL, None, v\<lparr>s_magic := SHFS_SUPER_MAGIC, v_sb := w\<rparr>)"
  using assms by (simp add: shfs_read_super_def alloc_super_ok)

lemma parse_options_mountable:
  assumes "parse_options fget w opts = Some (r, w')" and "mountable w"
  shows "mountable w' \<and> same_task w w' \<and> (r = 0 \<or> r = - 1)"
proof (cases opts)
  case (Some s)
  have "r = 0 \<or> r = - 1" if "options_loop fget t w = Some (r, w')" for t w
    using that
  proof (induction fget t w rule: options_loop.induct)
    case (2 fget s w)
    then show ?case by (auto split: prod.splits option.splits if_splits)
  qed simp
  moreover have "options_loop fget (Some s) w = Some (r, w')" using Some assms(1) by (simp only: parse_options_def option.case)
  ultimately show ?thesis using options_loop_mountable [OF _ assms(2)] by blast
qed (use assms in \<open>simp add: parse_options_def same_task_def\<close>)

text \<open>
  C10: Whatever text of options the kernel is given, a mount that returns leaves a super block of
  the right type: the cache size is one the caches can have, lock and line buffer are empty;
  it answers 0 with a socket and a well-formed store of just the root, or -EINVAL with no
  dentry and no inode.
\<close>

lemma mount_is_typed:
  assumes "unmounted v" and "shfs_read_super fget gr opts v = Some (result, root, v')"
  shows "mountable (v_sb v') \<and> same_task (v_sb v) (v_sb v') \<and>
    (result = 0 \<and> (\<exists>d. root = Some d \<and> mounted (v_sb v') v d v') \<and> sock (v_sb v') \<noteq> None \<or>
     result = - EINVAL \<and> root = None \<and> v_dentry v' = (\<lambda>_. None) \<and> v_inode v' = (\<lambda>_. None))"
proof -
  note v = assms(1) [unfolded unmounted_def]
  obtain r w where parse: "parse_options fget (default_info gr (v_sb v)) opts = Some (r, w)"
    using assms(2) v by (cases "parse_options fget (default_info gr (v_sb v)) opts")
      (auto simp: shfs_read_super_def alloc_super_ok)
  have w: "mountable w" "same_task (v_sb v) w" "r = 0 \<or> r = - 1"
    using parse_options_mountable [OF parse default_info_mountable]
    by (simp_all add: same_task_def) (simp_all add: default_info_def)
  show ?thesis
  proof (cases "r < 0 \<or> sock w = None \<or> version w \<noteq> PROTO_VERSION")
    case True
    with read_super_refused [OF _ parse] v assms(2) w(1,2) show ?thesis by auto
  next
    case False
    with w have "r = 0" "\<not> shfs_mutex w" by (auto simp: mountable_def)
    with False read_super_ok [OF assms(1) parse [unfolded \<open>r = 0\<close>]] obtain d u where
      "shfs_read_super fget gr opts v = Some (0, Some d, u)" "mounted w v d u" by auto
    with assms(2) False w(1,2) show ?thesis by (auto simp: mounted_def)
  qed
qed

text \<open>Without memory for the root dentry its inode is given up twice.\<close>

lemma root_dentry_oops:
  assumes "allocs v = [True, True, True, True, True, False]"
    and "parse_options fget (default_info gr (v_sb v)) opts = Some (0, w)" and "sock w \<noteq> None" and "version w = PROTO_VERSION"
  shows "shfs_read_super fget gr opts v = None"
  using assms
  by (simp add: shfs_read_super_def alloc_super_def alloc_ok_def shfs_iget_def Let_def d_make_root_def iput_def
      shfs_set_inode_attr_def upd_inode_def)

end
