(* ===== verification/MountSpec.thy ===== *)
theory MountSpec
  imports MountTool SuperSpec
begin

text \<open>
  From the arguments of \<open>shfsmount\<close> to the super block: the text of options it composes is what the
  kernel module parses, and the mount succeeds. Two ways past its check of the options only root may use.
\<close>

section \<open>Texts of options\<close>

definition opt_text :: "string list \<Rightarrow> string" where
  "opt_text xs = concat (map (\<lambda>x. CHR '','' # x) xs)"

lemma opt_text_simps [simp]: "opt_text [] = []" "opt_text (x # xs) = CHR '','' # x @ opt_text xs"
  "opt_text (xs @ ys) = opt_text xs @ opt_text ys"
  by (simp_all add: opt_text_def)

lemma strnconcat_ok:
  "length dst + length (concat ss) < k \<Longrightarrow> strnconcat k dst ss = Inr (dst @ concat ss)"
  by (induction ss arbitrary: dst) (simp_all add: strncat_def Let_def)

lemma add_options_ok:
  "length (options m) + length (concat ss) < BUFFER_MAX \<Longrightarrow>
    add_options ss m = Inr (m\<lparr>options := options m @ concat ss\<rparr>)"
  by (simp add: add_options_def strnconcat_ok)

text \<open>What the kernel makes of an option, wherever it stands.\<close>

definition means :: "(int \<Rightarrow> 'f option) \<Rightarrow> string \<Rightarrow> ('f world \<Rightarrow> 'f world) \<Rightarrow> bool" where
  "means fget x e \<longleftrightarrow> CHR '','' \<notin> set x \<and> (\<forall>mem w. set_option fget x (x @ NUL # mem) w = Some (True, e w))"

lemma options_run:
  assumes "list_all2 (means fget) (x # xs) (e # es)"
  shows "options_loop fget (Some (x @ opt_text xs)) w = Some (0, fold (\<lambda>e. e) (e # es) w)"
  using assms
proof (induction xs arbitrary: x e es w)
  case Nil
  then have c: "CHR '','' \<notin> set x" "set_option fget x (x @ [NUL]) w = Some (True, e w)" "es = []" by (simp_all add: means_def)
  then show ?case unfolding opt_text_simps append_Nil2 options_loop_app(2) [OF c(1)] c(2) by simp
next
  case (Cons y ys)
  then obtain e' es' where es: "es = e' # es'" by (auto simp: list_all2_Cons1)
  have "options_loop fget (Some (x @ CHR '','' # (y @ opt_text ys))) w = options_loop fget (Some (y @ opt_text ys)) (e w)"
    using Cons.prems by (simp del: options_loop.simps add: options_loop_app(1) means_def)
  also have "\<dots> = Some (0, fold (\<lambda>e. e) (e' # es') (e w))" using Cons.prems es by (intro Cons.IH) simp
  finally show ?case by (simp add: es)
qed

lemma no_comma_dec: "CHR '','' \<notin> set (dec n)"
  by (auto dest: dec_digits simp: isdigit_def)

section \<open>The options of a user\<close>

text \<open>The options any user may give, their text, and what they mean to the mount.\<close>

datatype user_option = Ro | Rw | Nosuid | Nodev | Exec | Noexec | Cachesize nat | Cachemax nat | Ttl nat

fun option_text :: "user_option \<Rightarrow> string" where
  "option_text Ro = ''ro''"
| "option_text Rw = ''rw''"
| "option_text Nosuid = ''nosuid''"
| "option_text Nodev = ''nodev''"
| "option_text Exec = ''exec''"
| "option_text Noexec = ''noexec''"
| "option_text (Cachesize n) = ''cachesize='' @ dec n"
| "option_text (Cachemax n) = ''cachemax='' @ dec n"
| "option_text (Ttl n) = ''ttl='' @ dec n"

fun option_valid :: "user_option \<Rightarrow> bool" where
  "option_valid (Cachesize n) \<longleftrightarrow> 0 < n \<and> n < 100000"
| "option_valid (Cachemax n) \<longleftrightarrow> n < 100000"
| "option_valid (Ttl n) \<longleftrightarrow> n < 2000000"
| "option_valid _ \<longleftrightarrow> True"

abbreviation exec_bits :: umode where "exec_bits \<equiv> S_IXUSR OR S_IXGRP OR S_IXOTH"

fun option_effect :: "user_option \<Rightarrow> 'f world \<Rightarrow> 'f world" where
  "option_effect Ro w = w\<lparr>readonly := True\<rparr>"
| "option_effect Rw w = w\<lparr>readonly := False\<rparr>"
| "option_effect Nosuid w = w\<lparr>fmask := fmask w AND NOT (S_ISUID OR S_ISGID)\<rparr>"
| "option_effect Nodev w = w\<lparr>fmask := fmask w AND NOT (S_IFCHR OR S_IFBLK)\<rparr>"
| "option_effect Exec w = w\<lparr>fmask := fmask w OR exec_bits\<rparr>"
| "option_effect Noexec w = w\<lparr>fmask := fmask w AND NOT exec_bits\<rparr>"
| "option_effect (Cachesize n) w = w\<lparr>fcache_size := int (2 ^ bit_count (n - 1) * PAGE_SIZE)\<rparr>"
| "option_effect (Cachemax n) w = w\<lparr>fcache_free := int n\<rparr>"
| "option_effect (Ttl n) w = w\<lparr>ttl := int n * 1000\<rparr>"

lemma option_means:
  assumes "option_valid x"
  shows "means fget (option_text x) (option_effect x)"
proof (cases x)
  case (Cachesize n)
  let ?k = "bit_count (n - 1)"
  have n: "0 < n" "n < 100000" using assms Cachesize by simp_all
  then have "?k \<le> 17" by (intro bit_count_small) simp
  then have s: "s32 (int (2 ^ ?k * PAGE_SIZE)) = int (2 ^ ?k * PAGE_SIZE)" by (rule cache_pages_ok)
  have "shift_loop (number (dec n) - 1) = Some ?k"
    using n by (simp add: number_dec shift_loop_def nat_diff_distrib)
  moreover have "length (dec n) \<le> 5" using n by (intro dec_length) simp_all
  ultimately show ?thesis using s no_comma_dec
    by (simp add: Cachesize means_def set_option_def starts_with_def del: of_nat_mult)
next
  case (Cachemax n)
  moreover have "length (dec n) \<le> 5" using assms Cachemax by (intro dec_length) simp_all
  ultimately show ?thesis using assms no_comma_dec by (simp add: means_def set_option_def starts_with_def number_dec)
next
  case (Ttl n)
  moreover have "length (dec n) \<le> 10" using assms Ttl by (intro dec_length) simp_all
  moreover have "s32 (int n * 1000) = int n * 1000" using assms Ttl by (intro s32_id) simp_all
  ultimately show ?thesis using assms no_comma_dec by (simp add: means_def set_option_def starts_with_def number_dec)
qed (simp_all add: means_def set_option_def starts_with_def)

lemma option_keeps: "version (option_effect x w) = version w" "shfs_mutex (option_effect x w) = shfs_mutex w"
  by (cases x; simp)+

lemma fold_option_keeps:
  "version (fold option_effect xs w) = version w" "shfs_mutex (fold option_effect xs w) = shfs_mutex w"
  by (induction xs arbitrary: w) (simp_all add: option_keeps)

text \<open>\<open>shfsmount\<close> passes them on.\<close>

lemma mount_option_passes: "mount_option env (option_text x) m = add_options ['','', option_text x] m"
  by (cases x) (simp_all add: mount_option_def root_only_def starts_with_def)

lemma split_on_single: "d \<notin> set s \<Longrightarrow> split_on d s = [s]"
  by (induction s) auto

text \<open>Arguments \<open>-o x\<close>, each passed on as it is.\<close>

lemma arguments_pass:
  assumes "\<And>x m. x \<in> set xs \<Longrightarrow> CHR '','' \<notin> set x \<and> mount_option env x m = add_options ['','', x] m"
    and "length (options m) + length (opt_text xs) < BUFFER_MAX"
  shows "arguments env (map (\<lambda>x. (CHR ''o'', Some x)) xs) m = Inr (m\<lparr>options := options m @ opt_text xs\<rparr>)"
  using assms
proof (induction xs arbitrary: m)
  case Nil
  then show ?case by simp
next
  case (Cons x xs)
  let ?m = "m\<lparr>options := options m @ '','' @ x\<rparr>"
  have "argument env (CHR ''o'') (Some x) m = Inr ?m"
    using Cons.prems(1) [of x] Cons.prems(2)
    by (simp add: argument_def option_list_def split_on_single add_options_ok)
  moreover have "arguments env (map (\<lambda>x. (CHR ''o'', Some x)) xs) ?m = Inr (?m\<lparr>options := options ?m @ opt_text xs\<rparr>)"
    using Cons.prems by (intro Cons.IH) simp_all
  ultimately show ?case by simp
qed

section \<open>From the arguments to the mount\<close>

text \<open>
  A run of \<open>shfsmount\<close> with options that are passed on, a plain host and a directory the user may
  mount on: it ends with the command of ssh and the text of options for the kernel.
\<close>

definition plain_host :: "string \<Rightarrow> bool" where
  "plain_host h \<longleftrightarrow> CHR ''@'' \<notin> set h \<and> CHR '':'' \<notin> set h \<and> take 1 h \<noteq> ''/''"

lemma shfsmount_run:
  assumes "arguments env args shfsmount_start = Inr s" and "options s = ''version=2'' @ opt_text ys"
    and "m_user s = None" and "m_port s = None" and "cmd_template s = None" and "verbose s = 0"
    and "plain_host h" and "fullpath env dir = Some mnt" and "mount_ok env mnt"
    and "length (opt_text ys) + length mnt + length (dec fd) < 1000"
  shows "\<exists>m cmd. prepare env args [h, dir] = Inr (m, mnt, cmd) \<and>
    cmd = take 1023 (''exec ssh   '' @ h @ '' /bin/sh'') \<and>
    mount_data fd m = Inr (''version=2'' @ opt_text (ys @ [''mnt='' @ mnt, ''fd='' @ dec fd]))"
proof -
  define cmd where "cmd = take 1023 (''exec ssh   '' @ h @ '' /bin/sh'')"
  have len: "length (options s) = 9 + length (opt_text ys)" by (simp add: assms(2))
  define m1 where "m1 = remote_host h s"
  have m1: "options m1 = options s" "m_host m1 = Some h" "m_user m1 = None" "m_port m1 = None" "cmd_template m1 = None" "verbose m1 = 0"
    using assms(3-7) by (simp_all add: m1_def remote_host_def plain_host_def)
  define m2 where "m2 = m1\<lparr>options := options s @ '',mnt='' @ mnt\<rparr>"
  have "add_options ['',mnt='', mnt] m1 = Inr m2" using assms(10) len by (simp add: add_options_ok m1 m2_def)
  moreover have "connect_command m2 = Inr cmd"
    by (simp add: connect_command_def m2_def m1 ssh_command_def cmd_def)
  moreover have "verbose m2 = 0" by (simp add: m2_def m1)
  ultimately have "prepare env args [h, dir] = Inr (m2, mnt, cmd)"
    using assms(1,8,9) by (simp add: prepare_def m1_def [symmetric])
  moreover have "mount_data fd m2 = Inr (options m2 @ '',fd='' @ dec fd)"
    using assms(10) len by (simp add: mount_data_def add_options_ok m2_def)
  then have "mount_data fd m2 = Inr (''version=2'' @ opt_text (ys @ [''mnt='' @ mnt, ''fd='' @ dec fd]))"
    by (simp add: m2_def assms(2))
  ultimately show ?thesis unfolding cmd_def by blast
qed

lemma start_options: "options shfsmount_start = ''version=2''"
  by (simp add: shfsmount_start_def num_text.simps digit_char_def char_of_def bit_0)

text \<open>The options \<open>shfsmount\<close> itself adds.\<close>

lemma own_options_mean:
  "means fget ''version=2'' (\<lambda>w. w\<lparr>version := 2\<rparr>)"
  "CHR '','' \<notin> set p \<Longrightarrow> length p < SHFS_PATH_MAX \<Longrightarrow> means fget (''mnt='' @ p) (\<lambda>w. w\<lparr>mount_point := p\<rparr>)"
  "fd < 100000 \<Longrightarrow> means fget (''fd='' @ dec fd) (\<lambda>w. w\<lparr>sock := fget (int fd)\<rparr>)"
  "CHR '','' \<notin> set s \<Longrightarrow> means fget (''preserve'' @ s) (\<lambda>w. w\<lparr>preserve_own := True\<rparr>)"
proof -
  have "number ''2'' = 2" by (simp add: number_def strtoul_def isdigit_def digit_val_def u64_def)
  then show "means fget ''version=2'' (\<lambda>w. w\<lparr>version := 2\<rparr>)" by (simp add: means_def set_option_def starts_with_def)
  show "CHR '','' \<notin> set p \<Longrightarrow> length p < SHFS_PATH_MAX \<Longrightarrow> means fget (''mnt='' @ p) (\<lambda>w. w\<lparr>mount_point := p\<rparr>)"
    by (simp add: means_def set_option_def starts_with_def)
  assume "fd < 100000"
  then have "length (dec fd) \<le> 5" by (intro dec_length) simp_all
  then show "means fget (''fd='' @ dec fd) (\<lambda>w. w\<lparr>sock := fget (int fd)\<rparr>)"
    using \<open>fd < 100000\<close> no_comma_dec by (simp add: means_def set_option_def starts_with_def number_dec)
qed (simp add: means_def set_option_def starts_with_def)

text \<open>
  The two together: \<open>q\<close> are the options the kernel finds in the path of the mount point, behind commas.
\<close>

lemma mount_run:
  assumes args: "arguments env args shfsmount_start = Inr s" "options s = ''version=2'' @ opt_text ys"
    "m_user s = None" "m_port s = None" "cmd_template s = None" "verbose s = 0" "list_all2 (means fget) ys es"
    and q: "mnt = p @ opt_text q" "CHR '','' \<notin> set p" "list_all2 (means fget) q qs"
    and run: "plain_host h" "fullpath env dir = Some mnt" "mount_ok env mnt" "length p < SHFS_PATH_MAX"
      "length (opt_text ys) + length mnt < 990" "fd < 100000" "fget (int fd) = Some f" "unmounted v"
    and keep: "\<And>w. version (fold (\<lambda>e. e) es w) = version w" "\<And>w. version (fold (\<lambda>e. e) qs w) = version w"
    and w: "w = (fold (\<lambda>e. e) qs ((fold (\<lambda>e. e) es ((default_info gr (v_sb v))\<lparr>version := 2\<rparr>))\<lparr>mount_point := p\<rparr>))\<lparr>sock := Some f\<rparr>"
  shows "\<exists>m cmd data d v'. prepare env args [h, dir] = Inr (m, mnt, cmd) \<and>
    cmd = take 1023 (''exec ssh   '' @ h @ '' /bin/sh'') \<and> mount_data fd m = Inr data \<and>
    shfs_read_super fget gr (Some data) v = Some (0, Some d, v') \<and> mounted w v d v' \<and> mountable w"
proof -
  let ?ys = "ys @ (''mnt='' @ p) # q @ [''fd='' @ dec fd]"
  let ?es = "es @ (\<lambda>w. w\<lparr>mount_point := p\<rparr>) # qs @ [\<lambda>w. w\<lparr>sock := fget (int fd)\<rparr>]"
  define data where "data = ''version=2'' @ opt_text ?ys"
  have "length (dec fd) \<le> 5" using run(6) by (intro dec_length) simp_all
  then obtain m cmd where m: "prepare env args [h, dir] = Inr (m, mnt, cmd)"
    "cmd = take 1023 (''exec ssh   '' @ h @ '' /bin/sh'')"
    "mount_data fd m = Inr (''version=2'' @ opt_text (ys @ [''mnt='' @ mnt, ''fd='' @ dec fd]))"
    using shfsmount_run [OF args(1-6) run(1-3), of fd] run(5) by auto
  have tx: "opt_text (ys @ [''mnt='' @ mnt, ''fd='' @ dec fd]) = opt_text ?ys" by (simp add: q(1))
  have "list_all2 (means fget) (''version=2'' # ?ys) ((\<lambda>w. w\<lparr>version := 2\<rparr>) # ?es)"
    using args(7) q(2,3) run(4,6) own_options_mean by (auto intro!: list_all2_appendI)
  from options_run [OF this] have loop: "options_loop fget (Some data) (default_info gr (v_sb v)) = Some (0, w)"
    using run(7) by (simp add: w data_def del: options_loop.simps)
  then have parse: "parse_options fget (default_info gr (v_sb v)) (Some data) = Some (0, w)"
    by (simp add: parse_options_def del: options_loop.simps)
  have ok: "mountable w" using options_loop_mountable [OF loop] by simp
  then have "\<not> shfs_mutex w" by (simp add: mountable_def)
  moreover have "sock w \<noteq> None" "version w = 2" by (simp_all add: w keep(1,2))
  ultimately obtain d v' where "shfs_read_super fget gr (Some data) v = Some (0, Some d, v')" "mounted w v d v'"
    using read_super_ok [OF run(8) parse] by blast
  with m ok show ?thesis unfolding tx data_def by blast
qed

section \<open>The properties\<close>

text \<open>
  A mount with options any user may give: \<open>shfsmount\<close> composes a text that the kernel parses to just
  those options, and the mount succeeds, with a fresh root and caches of a size they can have.
\<close>

lemma mount_from_arguments:
  assumes "\<forall>x \<in> set xs. option_valid x" and "plain_host h" and "fullpath env dir = Some mnt" and "mount_ok env mnt"
    and "CHR '','' \<notin> set mnt" and "length mnt < SHFS_PATH_MAX"
    and "length (opt_text (map option_text xs)) + length mnt < 990"
    and "fd < 100000" and "fget (int fd) = Some f" and "unmounted v"
    and "w = (fold option_effect xs ((default_info gr (v_sb v))\<lparr>version := 2\<rparr>))\<lparr>mount_point := mnt, sock := Some f\<rparr>"
  shows "\<exists>m cmd data d v'.
    prepare env (map (\<lambda>x. (CHR ''o'', Some (option_text x))) xs) [h, dir] = Inr (m, mnt, cmd) \<and>
    cmd = take 1023 (''exec ssh   '' @ h @ '' /bin/sh'') \<and> mount_data fd m = Inr data \<and>
    shfs_read_super fget gr (Some data) v = Some (0, Some d, v') \<and> mounted w v d v' \<and> mountable w"
proof -
  let ?es = "map option_effect xs" and ?ys = "map option_text xs"
  have fold: "fold (\<lambda>e. e) ?es u = fold option_effect xs u" for u :: "'a world"
    by (simp add: fold_map comp_def)
  have pass: "CHR '','' \<notin> set x \<and> mount_option env x m = add_options ['','', x] m" if "x \<in> set ?ys" for x m
    using that assms(1) option_means mount_option_passes by (auto simp: means_def)
  let ?s = "shfsmount_start\<lparr>options := ''version=2'' @ opt_text ?ys\<rparr>"
  have "arguments env (map (\<lambda>x. (CHR ''o'', Some (option_text x))) xs) shfsmount_start = Inr ?s"
    using arguments_pass [where m = shfsmount_start and xs = ?ys, OF pass] assms(7) by (simp add: start_options comp_def)
  from this show ?thesis
    by (rule mount_run [where ys = ?ys and es = ?es and f = f and q = "[]" and qs = "[]" and p = mnt])
      (use assms in \<open>simp_all add: fold fold_option_keeps list_all2_map1 list_all2_map2 list_all2_same option_means,
        simp_all add: shfsmount_start_def\<close>)
qed

lemma mount_option_bypass:
  "mount_option env (''preserve'' @ c # s) m = add_options ['','', ''preserve''] (m\<lparr>preserve := True\<rparr>)"
  by (simp add: mount_option_def root_only_def starts_with_def)

text \<open>
  C11: The two ways past the check of the options that only root may use: an option that begins with
  \<open>preserve\<close> but is longer, and a mount point in whose path such an option stands behind a comma. Both
  mount with the owners of the remote host and with set-user-id programs honoured.
\<close>

theorem root_only_bypass:
  assumes "getuid env \<noteq> 0" and "plain_host h" and "fullpath env dir = Some mnt" and "mount_ok env mnt"
    and "args = [(CHR ''o'', Some (''preserve'' @ c # s))] \<and> CHR '','' \<notin> set (c # s) \<and> CHR '','' \<notin> set mnt \<or>
      args = [] \<and> mnt = p @ '',preserve'' \<and> CHR '','' \<notin> set p"
    and "length mnt < SHFS_PATH_MAX" and "fd < 100000" and "fget (int fd) = Some f" and "unmounted v"
  shows "prepare env [(CHR ''o'', Some ''preserve'')] [h, dir] = Inl (Exit 2) \<and>
    (\<exists>m cmd data d v'. prepare env args [h, dir] = Inr (m, mnt, cmd) \<and> mount_data fd m = Inr data \<and>
      shfs_read_super fget gr (Some data) v = Some (0, Some d, v') \<and>
      preserve_own (v_sb v') \<and> fmask (v_sb v') = 0xFFFF)"
proof
  show "prepare env [(CHR ''o'', Some ''preserve'')] [h, dir] = Inl (Exit 2)"
    using assms(1) by (simp add: prepare_def argument_def option_list_def mount_option_def root_only_def)
next
  let ?pres = "\<lambda>w :: 'a world. w\<lparr>preserve_own := True\<rparr>"
  let ?w = "\<lambda>q. (default_info gr (v_sb v))\<lparr>version := 2, preserve_own := True, mount_point := q, sock := Some f\<rparr>"
  have pm: "list_all2 (means fget) [''preserve''] [?pres]" using own_options_mean(4) [of "[]"] by simp
  have start: "m_user shfsmount_start = None" "m_port shfsmount_start = None" "cmd_template shfsmount_start = None"
    "verbose shfsmount_start = 0" by (simp_all add: shfsmount_start_def)
  have fm: "preserve_own (v_sb v') \<and> fmask (v_sb v') = 0xFFFF"
    if "mounted (?w q) v d v'" for q d v'
    using that by (simp add: mounted_def default_info_def)
  have "\<exists>q m cmd data d v'. prepare env args [h, dir] = Inr (m, mnt, cmd) \<and>
      cmd = take 1023 (''exec ssh   '' @ h @ '' /bin/sh'') \<and> mount_data fd m = Inr data \<and>
      shfs_read_super fget gr (Some data) v = Some (0, Some d, v') \<and> mounted (?w q) v d v' \<and>
      mountable (?w q)"
    using assms(5)
  proof (elim disjE conjE)
    assume args: "args = [(CHR ''o'', Some (''preserve'' @ c # s))]" "CHR '','' \<notin> set (c # s)" "CHR '','' \<notin> set mnt"
    let ?s = "shfsmount_start\<lparr>preserve := True, options := ''version=2'' @ opt_text [''preserve'']\<rparr>"
    have "arguments env args shfsmount_start = Inr ?s"
    proof -
      have "split_on (CHR '','') (''preserve'' @ c # s) = [''preserve'' @ c # s]"
        using args(2) by (intro split_on_single) auto
      then have "option_list env (Some (''preserve'' @ c # s)) shfsmount_start =
          mount_option env (''preserve'' @ c # s) shfsmount_start"
        by (simp add: option_list_def split: sum.splits)
      also have "\<dots> = Inr ?s" unfolding mount_option_bypass by (simp add: add_options_ok start_options)
      finally show ?thesis by (simp add: args(1) argument_def)
    qed
    then show ?thesis
      by (intro exI [of _ mnt], rule mount_run [where s = ?s and f = f and es = "[?pres]" and ys = "[''preserve'']" and q = "[]" and qs = "[]"
            and p = mnt]) (use assms(2-4,6-9) args(3) pm start in \<open>simp_all del: list_all2_Cons\<close>)
  next
    assume args: "args = []" "mnt = p @ '',preserve''" "CHR '','' \<notin> set p"
    have "arguments env args shfsmount_start = Inr shfsmount_start" by (simp add: args(1))
    then show ?thesis
      by (intro exI [of _ p], rule mount_run [where s = shfsmount_start and f = f and es = "[]" and ys = "[]" and q = "[''preserve'']" and qs = "[?pres]"
            and p = p]) (use assms(2-4,6-9) args(2,3) pm start start_options in \<open>simp_all del: list_all2_Cons\<close>)
  qed
  with fm show "\<exists>m cmd data d v'. prepare env args [h, dir] = Inr (m, mnt, cmd) \<and> mount_data fd m = Inr data \<and>
      shfs_read_super fget gr (Some data) v = Some (0, Some d, v') \<and>
      preserve_own (v_sb v') \<and> fmask (v_sb v') = 0xFFFF" by blast
qed

section \<open>Reconnecting and unmounting\<close>

text \<open>The time between two connections stays within 5 seconds and 5 minutes.\<close>

lemma backoff_bounds:
  assumes "wait_on_socket clock later b = (slept, b')" and "5 \<le> sleeptime b" and "sleeptime b \<le> 300"
  shows "5 \<le> sleeptime b'" and "sleeptime b' \<le> 300" and "0 \<le> slept"
    and "last_time b \<le> clock \<Longrightarrow> slept \<le> sleeptime b" and "last_time b + sleeptime b \<le> clock + slept"
  using assms by (auto simp: wait_on_socket_def Let_def split: if_splits)

text \<open>The user who mounted may unmount, unless he gave himself no rights on the root of the mount.\<close>

lemma mounter_may_umount:
  assumes "mounted w v d v'" and "fullpath env dir = Some mnt" and "dir \<noteq> ''-v''" and "uid w = getuid env"
    and "S_ISDIR (root_mode w)" and "root_mode w AND S_IRWXU = S_IRWXU"
    and "statfs mnt = Some (s_magic v')"
    and "\<And>a vn. dentry_inode v' d = Some (a, vn) \<Longrightarrow> lstat mnt = Some (i_mode (vn_inode vn), i_uid (vn_inode vn))"
  shows "shfsumount env statfs lstat [dir] = Inr mnt"
proof -
  obtain a vn where "dir_ready v' a d vn" "i_mode (vn_inode vn) = root_mode w" "i_uid (vn_inode vn) = uid w"
    "s_magic v' = SHFS_SUPER_MAGIC" using assms(1) by (auto simp: mounted_def)
  with assms show ?thesis by (auto simp: shfsumount_def umount_ok_def dir_ready_def)
qed

section \<open>The table of mounts\<close>

text \<open>
  When every call succeeds, the entry of a mount is there until the unmount takes it away, and the rest of the
  table is as it was. Once a call has failed behind the lock, the lock stays: no later mount or unmount
  changes the table again.
\<close>

definition mtab_step :: "mtab \<Rightarrow> mtab \<Rightarrow> bool" where
  "mtab_step t t' \<longleftrightarrow> (\<exists>io mnt dev opts. t' = snd (add_mtab io mnt dev opts t) \<or> t' = snd (remove_mtab io mnt t))"

lemma mtab_stuck:
  assumes "mtab_step\<^sup>*\<^sup>* t t'" and "mt_lock t"
  shows "t' = t"
  using assms by (induction rule: rtranclp_induct) (auto simp: mtab_step_def add_mtab_def remove_mtab_def)


end
