(* ===== verification/Handshake.thy ===== *)
theory Handshake
  imports Proc MountTool
begin

text \<open>
  How \<open>shfsmount\<close> starts the server at the other end of its socket (\<open>src/tool/proto.c\<close>): it tries the
  protocols in turn, sends the program of the first that answers \<open>ok\<close>, and initialises it. The socket
  is the one the module uses later (\<open>sockops\<close>); \<open>SIGPIPE\<close> is not modelled. The texts that are sent, which
  the build generates, are the argument \<open>protos\<close>; the outer option is termination.
\<close>

record proto =
  pr_id :: string
  pr_test :: string
  pr_code :: string

text \<open>
  \<open>readln\<close> into a buffer \<open>data\<close>, of which \<open>n\<close> bytes may be used and \<open>rd\<close> are read: it ends at a newline,
  which it also finds in what the buffer held before, behind the bytes just read.
\<close>

partial_function (option) tool_readln ::
  "'f sockops \<Rightarrow> nat \<Rightarrow> nat \<Rightarrow> string \<Rightarrow> 'f \<Rightarrow> (nat \<times> string \<times> 'f) option" where
  "tool_readln so n rd data f =
    (if \<not> rd < n then Some (rd, data, f)
     else case do_sync_read so f (n - rd) of (result, bs, f1) \<Rightarrow>
       if result < 0 then
         (if result = - EINTR \<or> result = - EAGAIN then tool_readln so n rd data f1 else Some (rd, data, f1))
       else if result = 0 then Some (rd, data, f1)
       else let data1 = blit data rd bs in
         if NL \<in> set (drop rd (take n data1)) then Some (rd + nat result, data1, f1)
         else tool_readln so n (rd + nat result) data1 f1)"

partial_function (option) writeall :: "'f sockops \<Rightarrow> string \<Rightarrow> 'f \<Rightarrow> 'f option" where
  "writeall so data f =
    (if data = [] then Some f
     else case do_sync_write so f data of (res, _, f1) \<Rightarrow>
       if res < 0 then (if res = - EINTR \<or> res = - EAGAIN then writeall so data f1 else Some f1)
       else if res = 0 then Some f1
       else writeall so (drop (nat res) data) f1)"

section \<open>The choice of a protocol\<close>

definition contains :: "string \<Rightarrow> string \<Rightarrow> bool" where
  "contains p s \<longleftrightarrow> list_ex (\<lambda>k. starts_with p (drop k s)) [0..<Suc (length s)]"

text \<open>The lines of the test up to one with \<open>ok\<close> or \<open>failed\<close>, or the end; the newline is cut off.\<close>

partial_function (option) test_reply :: "'f sockops \<Rightarrow> string \<Rightarrow> 'f \<Rightarrow> (string \<times> 'f) option" where
  "test_reply so buffer f = do {
     (rd, b, f1) \<leftarrow> tool_readln so (BUFFER_MAX - 1) 0 buffer f;
     let b1 = b[rd := NUL];
     let b2 = (if 0 < rd \<and> b1 ! (rd - 1) = NL then b1[rd - 1 := NUL] else b1);
     if 0 < rd \<and> \<not> contains ''ok'' (c_str b2) \<and> \<not> contains ''failed'' (c_str b2) then test_reply so b2 f1
     else Some (b2, f1)
   }"

text \<open>
  The loop over the protocols: the one selected, None when \<open>init_sh\<close> answers 0, or the exit of \<open>error\<close>.
\<close>

fun select_proto ::
  "'f sockops \<Rightarrow> string option \<Rightarrow> bool \<Rightarrow> bool \<Rightarrow> proto list \<Rightarrow> string \<Rightarrow> 'f
    \<Rightarrow> ((stop + proto option) \<times> string \<times> 'f) option" where
  "select_proto so desired want_stable want_preserve [] buffer f = Some (Inr None, buffer, f)"
| "select_proto so desired want_stable want_preserve (p # ps) buffer f =
    (if desired \<noteq> None \<and> desired \<noteq> Some (pr_id p) then select_proto so desired want_stable want_preserve ps buffer f
     else do {
       f1 \<leftarrow> writeall so (pr_test p) f;
       (b, f2) \<leftarrow> test_reply so buffer f1;
       let caps = split_on SP (c_str b);
       if c_str b = [] then Some (Inr None, b, f2)
       else if ''ok'' \<in> set caps then
         (if want_stable \<and> ''stable'' \<notin> set caps \<or> want_preserve \<and> ''preserve'' \<notin> set caps then
            (if desired = None then select_proto so desired want_stable want_preserve ps b f2
             else Some (Inl (Exit 2), b, f2))
          else Some (Inr (Some p), b, f2))
       else select_proto so desired want_stable want_preserve ps b f2
     })"

section \<open>The start of the server\<close>

text \<open>The root stands between quotes, whatever it contains.\<close>

definition init_line :: "string option \<Rightarrow> bool \<Rightarrow> bool \<Rightarrow> string" where
  "init_line root want_stable want_preserve = take (BUFFER_MAX - 1)
    (''s_init '' @ [QUOTE] @ (case root of None \<Rightarrow> [] | Some r \<Rightarrow> r) @ [QUOTE] @
     (if want_stable then '' stable'' else []) @ (if want_preserve then '' preserve'' else []) @ [NL])"

text \<open>One answer, which must be just \<open>COMPLETE\<close>.\<close>

definition tool_complete :: "'f sockops \<Rightarrow> string \<Rightarrow> 'f \<Rightarrow> (bool \<times> string \<times> 'f) option" where
  "tool_complete so buffer f = do {
     (rd, b, f1) \<leftarrow> tool_readln so (BUFFER_MAX - 1) 0 buffer f;
     let b1 = b[rd := NUL];
     Some (c_str b1 = COMPLETE, b1, f1)
   }"

text \<open>\<open>init_sh\<close> from the answer to the program on. The line of \<open>s_init\<close> is composed in the buffer itself.\<close>

definition start_server ::
  "'f sockops \<Rightarrow> string option \<Rightarrow> bool \<Rightarrow> bool \<Rightarrow> string \<Rightarrow> 'f \<Rightarrow> (bool \<times> 'f) option" where
  "start_server so root want_stable want_preserve buffer f = do {
     (ok, b, f1) \<leftarrow> tool_complete so buffer f;
     if \<not> ok then Some (False, f1)
     else do {
       let line = init_line root want_stable want_preserve;
       f2 \<leftarrow> writeall so (c_str line) f1;
       (ok2, b2, f3) \<leftarrow> tool_complete so (blit b 0 (line @ [NUL])) f2;
       Some (ok2, f3)
     }
   }"

definition init_sh ::
  "'f sockops \<Rightarrow> proto list \<Rightarrow> string option \<Rightarrow> string option \<Rightarrow> bool \<Rightarrow> bool \<Rightarrow> string \<Rightarrow> 'f
    \<Rightarrow> ((stop + bool) \<times> 'f) option" where
  "init_sh so protos desired root want_stable want_preserve buffer f = do {
     (sel, b, f1) \<leftarrow> select_proto so desired want_stable want_preserve protos buffer f;
     case sel of
       Inl e \<Rightarrow> Some (Inl e, f1)
     | Inr None \<Rightarrow> Some (Inr False, f1)
     | Inr (Some p) \<Rightarrow> do {
         f2 \<leftarrow> writeall so (pr_code p) f1;
         (ok, f3) \<leftarrow> start_server so root want_stable want_preserve b f2;
         Some (Inr ok, f3)
       }
   }"

end
