(* ===== verification/HandshakeSpec.thy ===== *)
theory HandshakeSpec
  imports Handshake EndToEnd
begin

text \<open>
  \<open>init_sh\<close> over a working connection: a peer that answers its test and its program leaves it with a
  server that is initialised with the root and the options of the mount.
\<close>

section \<open>Texts\<close>

lemma split_on_part: "t \<in> set (split_on d s) \<Longrightarrow> \<exists>a b. s = a @ t @ b"
proof (induction s arbitrary: t)
  case Nil
  then show ?case by simp
next
  case (Cons c s)
  obtain u us where u: "split_on d s = u # us" by (cases "split_on d s") auto
  have head: "\<exists>b. s = u @ b"
  proof -
    have "u = takeWhile (\<lambda>c. c \<noteq> d) s" using split_on_strsep [of d s] u by (auto simp: strsep_def split: list.splits)
    then show ?thesis by (metis takeWhile_dropWhile_id)
  qed
  show ?case
  proof (cases "c = d")
    case True
    with Cons.prems have "t = [] \<or> t \<in> set (split_on d s)" by simp
    then show ?thesis
    proof
      assume "t = []"
      then show ?thesis by (auto intro: exI [of _ "[]"])
    next
      assume "t \<in> set (split_on d s)"
      with Cons.IH obtain a b where "s = a @ t @ b" by blast
      then show ?thesis by (auto intro: exI [of _ "c # a"])
    qed
  next
    case False
    with Cons.prems u consider "t = c # u" | "t \<in> set us" by auto
    then show ?thesis
    proof cases
      case 1
      with head show ?thesis by (auto intro: exI [of _ "[]"])
    next
      case 2
      with Cons.IH [of t] u obtain a b where "s = a @ t @ b" by auto
      then show ?thesis by (auto intro: exI [of _ "c # a"])
    qed
  qed
qed

lemma contains_token: "t \<in> set (split_on d s) \<Longrightarrow> contains t s"
proof -
  assume "t \<in> set (split_on d s)"
  then obtain a b where "s = a @ t @ b" using split_on_part by blast
  then show ?thesis unfolding contains_def list_ex_iff by (intro bexI [of _ "length a"]) (simp_all add: starts_with_def)
qed

text \<open>What a read leaves in the buffer, once its end is marked.\<close>

lemma buffer_line:
  assumes "length q < length b" and "NUL \<notin> set q"
  shows "c_str ((blit b 0 q)[length q := NUL]) = q"
    and "length ((blit b 0 q)[length q := NUL]) = length b"
proof -
  have "(blit b 0 q)[length q := NUL] = q @ NUL # drop (Suc (length q)) b"
    using assms(1) by (simp add: blit_def list_update_append Cons_nth_drop_Suc [symmetric])
  with assms(2) show "c_str ((blit b 0 q)[length q := NUL]) = q" by (simp add: c_str_append_NUL)
  show "length ((blit b 0 q)[length q := NUL]) = length b" using assms(1) by (simp add: buf_simps)
qed

section \<open>Over a connection\<close>

context prompt_connection
begin

lemma tool_readln_ok:
  assumes "outq f = q" and "NL \<in> set q" and "length q \<le> n" and "n \<le> length b"
  shows "\<exists>f'. tool_readln so n 0 b f = Some (length q, blit b 0 q, f') \<and> outq f' = [] \<and> core f' = core f"
proof -
  have "outq f \<noteq> []" "0 < n" using assms by (cases q; auto)+
  from read_all [OF this] assms obtain f' where f': "do_sync_read so f n = (int (length q), q, f')"
    "outq f' = []" "core f' = core f" by (auto simp: min_def)
  have pos: "\<not> int (length q) < 0" "int (length q) \<noteq> 0" using assms(2) by auto
  have "NL \<in> set (drop 0 (take n (blit b 0 q)))" using assms by (simp add: blit_def)
  then have "tool_readln so n 0 b f = Some (length q, blit b 0 q, f')"
    using \<open>0 < n\<close> by (subst tool_readln.simps) (simp add: f'(1) pos)
  with f' show ?thesis by blast
qed

lemma writeall_ok:
  assumes "bs \<noteq> []" and "react (core f) bs = (a, s')"
  shows "\<exists>f'. writeall so bs f = Some f' \<and> outq f' = outq f @ a \<and> core f' = s'"
proof -
  from write_all [of f bs] assms(2) obtain f' where f': "do_sync_write so f bs = (int (length bs), False, f')"
    "outq f' = outq f @ a" "core f' = s'" by auto
  have "writeall so bs f = Some f'"
    using assms(1) by (subst writeall.simps) (simp add: f'(1), subst writeall.simps, simp)
  with f' show ?thesis by blast
qed

lemma tool_complete_ok:
  assumes "outq f = COMPLETE" and "length b = BUFFER_MAX"
  shows "\<exists>b' f'. tool_complete so b f = Some (True, b', f') \<and> length b' = BUFFER_MAX \<and> outq f' = [] \<and> core f' = core f"
proof -
  obtain f' where f': "tool_readln so (BUFFER_MAX - 1) 0 b f = Some (length COMPLETE, blit b 0 COMPLETE, f')"
    "outq f' = []" "core f' = core f"
    using tool_readln_ok [OF assms(1), of "BUFFER_MAX - 1" b] assms(2) by auto
  moreover have "length (blit b 0 COMPLETE) = BUFFER_MAX" using assms(2) by (simp add: blit_length)
  moreover have "c_str ((blit b 0 COMPLETE)[length COMPLETE := NUL]) = COMPLETE"
    "length ((blit b 0 COMPLETE)[length COMPLETE := NUL]) = length b"
    by (rule buffer_line; simp add: assms(2))+
  ultimately show ?thesis unfolding tool_complete_def by auto
qed

lemma start_server_ok:
  assumes "outq f = COMPLETE" and "length b = BUFFER_MAX" and "c_str (init_line root st pr) = line" and "line \<noteq> []"
    and "length (init_line root st pr) < BUFFER_MAX" and "react (core f) line = (COMPLETE, s')"
  shows "\<exists>f'. start_server so root st pr b f = Some (True, f') \<and> outq f' = [] \<and> core f' = s'"
proof -
  obtain b1 f1 where 1: "tool_complete so b f = Some (True, b1, f1)" "length b1 = BUFFER_MAX" "outq f1 = []" "core f1 = core f"
    using tool_complete_ok [OF assms(1,2)] by blast
  obtain f2 where 2: "writeall so line f1 = Some f2" "outq f2 = COMPLETE" "core f2 = s'"
    using writeall_ok [OF assms(4), of f1 COMPLETE s'] assms(6) 1(3,4) by auto
  let ?b = "blit b1 0 (init_line root st pr @ [NUL])"
  have "length ?b = BUFFER_MAX" using assms(5) 1(2) by (simp add: buf_simps)
  from tool_complete_ok [OF 2(2) this] obtain b3 f3 where
    3: "tool_complete so ?b f2 = Some (True, b3, f3)" "outq f3 = []" "core f3 = s'" using 2(3) by auto
  show ?thesis unfolding start_server_def Let_def assms(3) using 1(1) 2(1) 3 by simp
qed

lemma test_reply_ok:
  assumes "outq f = ans @ [NL]" and "length b = BUFFER_MAX" and "length ans < 1000" and "NL \<notin> set ans" and "NUL \<notin> set ans"
    and "contains ''ok'' ans"
  shows "\<exists>b' f'. test_reply so b f = Some (b', f') \<and> c_str b' = ans \<and> length b' = BUFFER_MAX \<and> outq f' = [] \<and> core f' = core f"
proof -
  let ?q = "ans @ [NL]"
  obtain f' where f': "tool_readln so (BUFFER_MAX - 1) 0 b f = Some (length ?q, blit b 0 ?q, f')"
    "outq f' = []" "core f' = core f"
    using tool_readln_ok [OF assms(1), of "BUFFER_MAX - 1" b] assms(2,3) by auto
  let ?b1 = "(blit b 0 ?q)[length ?q := NUL]"
  have b1: "?b1 = ans @ NL # NUL # drop (length ans + 2) b"
    using assms(2,3) by (simp add: blit_def list_update_append Cons_nth_drop_Suc [symmetric])
  have nl: "?b1 ! (length ?q - 1) = NL" unfolding b1 by (simp add: nth_append)
  have b2: "?b1[length ?q - 1 := NUL] = ans @ NUL # NUL # drop (length ans + 2) b"
    unfolding b1 by (simp add: list_update_append)
  have len: "length (?b1[length ?q - 1 := NUL]) = BUFFER_MAX" using assms(2,3) unfolding b2 by simp
  have str: "c_str (?b1[length ?q - 1 := NUL]) = ans" unfolding b2 using assms(5) by (simp add: c_str_append_NUL)
  have "test_reply so b f = Some (?b1[length ?q - 1 := NUL], f')"
    by (subst test_reply.simps) (use f'(1) nl str assms(6) in \<open>simp add: Let_def\<close>)
  with f' str len show ?thesis by blast
qed

text \<open>The first protocol is chosen when its test says that it can do what is wanted.\<close>

lemma select_ok:
  assumes "outq f = []" and "length b = BUFFER_MAX" and "desired = None \<or> desired = Some (pr_id p)"
    and "pr_test p \<noteq> []" and "react (core f) (pr_test p) = (ans @ [NL], s1)"
    and "length ans < 1000" and "NL \<notin> set ans" and "NUL \<notin> set ans" and "''ok'' \<in> set (split_on SP ans)"
    and "st \<longrightarrow> ''stable'' \<in> set (split_on SP ans)" and "pr \<longrightarrow> ''preserve'' \<in> set (split_on SP ans)"
  shows "\<exists>b' f'. select_proto so desired st pr (p # ps) b f = Some (Inr (Some p), b', f') \<and>
    length b' = BUFFER_MAX \<and> outq f' = [] \<and> core f' = s1"
proof -
  obtain f1 where 1: "writeall so (pr_test p) f = Some f1" "outq f1 = ans @ [NL]" "core f1 = s1"
    using writeall_ok [OF assms(4,5)] assms(1) by auto
  obtain b' f' where 2: "test_reply so b f1 = Some (b', f')" "c_str b' = ans" "length b' = BUFFER_MAX" "outq f' = []" "core f' = s1"
    using test_reply_ok [OF 1(2) assms(2,6-8) contains_token [OF assms(9)]] 1(3) by auto
  have "ans \<noteq> []" using assms(9) by auto
  then show ?thesis using 1(1) 2 assms(3,9-11) by auto
qed

lemma init_sh_ok:
  assumes "outq f = []" and "length b = BUFFER_MAX" and "desired = None \<or> desired = Some (pr_id p)"
    and "pr_test p \<noteq> []" and "react (core f) (pr_test p) = (ans @ [NL], s1)"
    and "length ans < 1000" and "NL \<notin> set ans" and "NUL \<notin> set ans" and "''ok'' \<in> set (split_on SP ans)"
    and "st \<longrightarrow> ''stable'' \<in> set (split_on SP ans)" and "pr \<longrightarrow> ''preserve'' \<in> set (split_on SP ans)"
    and "pr_code p \<noteq> []" and "react s1 (pr_code p) = (COMPLETE, s2)"
    and "c_str (init_line root st pr) = line" and "line \<noteq> []" and "length (init_line root st pr) < BUFFER_MAX"
    and "react s2 line = (COMPLETE, s3)"
  shows "\<exists>f'. init_sh so (p # ps) desired root st pr b f = Some (Inr True, f') \<and> outq f' = [] \<and> core f' = s3"
proof -
  obtain b1 f1 where 1: "select_proto so desired st pr (p # ps) b f = Some (Inr (Some p), b1, f1)" "length b1 = BUFFER_MAX"
    "outq f1 = []" "core f1 = s1" using select_ok [OF assms(1-11)] by blast
  obtain f2 where 2: "writeall so (pr_code p) f1 = Some f2" "outq f2 = COMPLETE" "core f2 = s2"
    using writeall_ok [OF assms(12), of f1 COMPLETE s2] assms(13) 1 by auto
  have "react (core f2) line = (COMPLETE, s3)" using assms(17) 2 by simp
  from start_server_ok [OF 2(2) 1(2) assms(14-16) this] obtain f' where
    "start_server so root st pr b1 f2 = Some (True, f')" "outq f' = []" "core f' = s3" by blast
  with 1(1) 2(1) show ?thesis unfolding init_sh_def by (auto simp del: select_proto.simps)
qed

end

section \<open>The Perl server\<close>

lemma perl_init:
  assumes "perl_idle q" and "\<not> p_preserve q" and "\<not> p_stable q" and "QUOTE \<notin> set r" and "NUL \<notin> set r" and "length r < 980"
    and "root = None \<and> r = [] \<or> root = Some r"
  shows "\<exists>q' line. c_str (init_line root st pr) = line \<and> line \<noteq> [] \<and> length (init_line root st pr) < BUFFER_MAX \<and>
    perl_react other q line = (COMPLETE, q') \<and> perl_ready q' pr \<and> p_root q' = (if r = [] then p_home q else r) \<and>
    p_stable q' = st \<and> p_files q' = p_files q"
proof -
  define opts where "opts = (if st then [''stable''] else []) @ (if pr then [''preserve''] else [])"
  let ?ts = "''s_init'' # (QUOTE # quoted r @ [QUOTE]) # opts" and ?ws = "''s_init'' # r # opts"
  define q' where "q' = q\<lparr>p_root := (if r = [] then p_home q else r), p_stable := st, p_preserve := pr\<rparr>"
  have r: "(case root of None \<Rightarrow> [] | Some r \<Rightarrow> r) = r" using assms(7) by auto
  have tx: "line_text ?ts @ [NL] = ''s_init '' @ [QUOTE] @ r @ [QUOTE] @
      (if st then '' stable'' else []) @ (if pr then '' preserve'' else []) @ [NL]"
    by (simp add: opts_def quoted_id [OF assms(4)])
  have len: "length (line_text ?ts @ [NL]) < 1024" unfolding tx using assms(6) by simp
  have line: "init_line root st pr = line_text ?ts @ [NL]" unfolding init_line_def r tx [symmetric] using len by simp
  have "NUL \<notin> set (line_text ?ts @ [NL])" unfolding tx using assms(5) by simp
  then have str: "c_str (init_line root st pr) = line_text ?ts @ [NL]" unfolding line by (rule c_str_id)
  have "list_all2 spells ?ts ?ws" by (auto simp: opts_def spells_def)
  from react_line [OF assms(1) this] have "perl_react other q (line_text ?ts @ [NL]) = perl_command other q ?ws" by simp
  also have "\<dots> = (COMPLETE, q')"
    using assms(2,3) by (auto simp: perl_command_def Let_def s_init_def arg_def opts_def q'_def)
  finally have re: "perl_react other q (line_text ?ts @ [NL]) = (COMPLETE, q')" .
  have "line_text ?ts @ [NL] \<noteq> []" "length (init_line root st pr) < BUFFER_MAX" using len unfolding line by simp_all
  moreover have "perl_ready q' pr" "p_root q' = (if r = [] then p_home q else r)" "p_stable q' = st" "p_files q' = p_files q"
    using assms(1) by (simp_all add: perl_ready_def perl_idle_def q'_def)
  ultimately show ?thesis using str re by blast
qed

text \<open>
  The remote host: a shell, of which only its answers are known, until it has started the Perl program.
\<close>

record 'sh host_conn =
  hc_out :: string
  hc_peer :: "'sh + perl"
  hc_pos :: int

fun host_react ::
  "('sh \<Rightarrow> string \<Rightarrow> string \<times> ('sh + perl)) \<Rightarrow> (string list \<Rightarrow> perl \<Rightarrow> string \<times> perl)
    \<Rightarrow> 'sh + perl \<Rightarrow> string \<Rightarrow> string \<times> ('sh + perl)" where
  "host_react sh other (Inl s) bs = sh s bs"
| "host_react sh other (Inr p) bs = (case perl_react other p bs of (out, p1) \<Rightarrow> (out, Inr p1))"

definition host_so ::
  "('sh \<Rightarrow> string \<Rightarrow> string \<times> ('sh + perl)) \<Rightarrow> (string list \<Rightarrow> perl \<Rightarrow> string \<times> perl) \<Rightarrow> 'sh host_conn sockops" where
  "host_so sh other =
    \<lparr>do_sync_write = (\<lambda>f bs. case host_react sh other (hc_peer f) bs of (out, p) \<Rightarrow>
        (int (length bs), False, f\<lparr>hc_out := hc_out f @ out, hc_peer := p, hc_pos := hc_pos f + int (length bs)\<rparr>)),
     do_sync_read = (\<lambda>f n. if hc_out f = [] then (- 512, [], f)
        else let bs = take n (hc_out f) in
          (int (length bs), bs, f\<lparr>hc_out := drop n (hc_out f), hc_pos := hc_pos f + int (length bs)\<rparr>)),
     f_pos = hc_pos\<rparr>"

interpretation host: prompt_connection "host_so sh other" hc_out hc_peer "host_react sh other" for sh other
proof
  fix f :: "'a host_conn" and n :: nat and bs :: string
  show "\<exists>f'. do_sync_write (host_so sh other) f bs = (int (length bs), False, f') \<and>
      hc_out f' = hc_out f @ fst (host_react sh other (hc_peer f) bs) \<and>
      hc_peer f' = snd (host_react sh other (hc_peer f) bs)"
    by (simp add: host_so_def split: prod.splits)
  assume "hc_out f \<noteq> []" "0 < n"
  then show "\<exists>f'. do_sync_read (host_so sh other) f n = (int (min n (length (hc_out f))), take n (hc_out f), f') \<and>
      hc_out f' = drop n (hc_out f) \<and> hc_peer f' = hc_peer f"
    by (simp add: host_so_def Let_def min.commute)
  have m: "0 < min n (length (hc_out f))" using \<open>hc_out f \<noteq> []\<close> \<open>0 < n\<close> by simp
  show "\<exists>m f'. 0 < m \<and> m \<le> n \<and> m \<le> length (hc_out f) \<and>
      do_sync_read (host_so sh other) f n = (int m, take m (hc_out f), f') \<and>
      hc_out f' = drop m (hc_out f) \<and> hc_peer f' = hc_peer f"
    using m \<open>hc_out f \<noteq> []\<close>
    by (intro exI [of _ "min n (length (hc_out f))"]) (auto simp: host_so_def Let_def min_def)
qed


end
