(* ===== verification/DirServer.thy ===== *)
theory DirServer
  imports EndToEnd DirListing
begin

text \<open>
  Directories over a connection: \<open>shell_readdir\<close> hands the entries of the lines the server prints to
  the callback of the directory cache, so a reader is given the remote listing; and removing a file
  through its dentry removes that file on the Perl server.
\<close>

section \<open>The lines of a listing\<close>

text \<open>Lines that \<open>ls\<close> prints: not empty, of one piece, and no answers of the protocol.\<close>

definition ls_line :: "string \<Rightarrow> bool" where
  "ls_line l \<longleftrightarrow> l \<noteq> [] \<and> NL \<notin> set l \<and> NUL \<notin> set l \<and> length l < SOCKBUF_SIZE \<and> \<not> starts_with ''### '' l"

definition listing_text :: "string list \<Rightarrow> string" where
  "listing_text ls = concat (map (\<lambda>l. l @ [NL]) ls) @ COMPLETE"

text \<open>What the client takes them for; lines of other shapes, \<open>.\<close> and \<open>..\<close> are left out.\<close>

definition listed :: "mktime_fn \<Rightarrow> 'f world \<Rightarrow> string list \<Rightarrow> (string \<times> shfs_fattr) list" where
  "listed mktime w ls = List.map_filter (ls_entry mktime (fmask w) (get_this_year (now w)) (get_this_month (now w))) ls"

lemma listed_cong: "same_but_conn w w' \<Longrightarrow> listed mktime w' ls = listed mktime w ls"
  by (simp add: listed_def same_but_connD)

context connection
begin

lemma ls_loop_feeds:
  assumes "conn_at outq core w s (listing_text ls)" and "\<forall>l\<in>set ls. ls_line l" and "accepts fill (listed mktime w ls) c"
  shows "\<exists>w'. ls_loop so mktime fill False buf (fa, c) w = Some (0, (fa, feed fill (listed mktime w ls) c), w') \<and>
    conn_at outq core w' s [] \<and> same_but_conn w w'"
  using assms
proof (induction ls arbitrary: w c buf)
  case Nil
  have "conn_at outq core w s (''### 200'' @ NL # [])" using Nil.prems(1) by (simp add: listing_text_def)
  from readln_ok [OF this, of SOCKBUF_SIZE buf] obtain w' where
    "sock_readln so w buf SOCKBUF_SIZE = Some (7, ''### 200'', w')" "conn_at outq core w' s []" "same_but_conn w w'"
    by auto
  then show ?case by (subst ls_loop.simps) (simp add: reply_lines listed_def List.map_filter_def)
next
  case (Cons l ls)
  have l: "l \<noteq> []" "NL \<notin> set l" "NUL \<notin> set l" "length l < SOCKBUF_SIZE" "reply l = 0"
    using Cons.prems(2) by (simp_all add: ls_line_def reply_def)
  have "conn_at outq core w s (l @ NL # listing_text ls)" using Cons.prems(1) by (simp add: listing_text_def)
  from readln_ok [OF this l(2,3,4), of buf] l(4) obtain w1 where
    1: "sock_readln so w buf SOCKBUF_SIZE = Some (int (length l), l, w1)" "conn_at outq core w1 s (listing_text ls)"
    "same_but_conn w w1" by auto
  note same = same_but_connD [OF 1(3)] and cong = listed_cong [OF 1(3), of mktime]
  let ?e = "ls_entry mktime (fmask w) (get_this_year (now w)) (get_this_month (now w)) l"
  have pos: "\<not> \<not> int (length l) > 0" using l(1) by simp
  show ?case
  proof (cases ?e)
    case None
    then have lt: "listed mktime w (l # ls) = listed mktime w ls" by (simp add: listed_def List.map_filter_simps)
    have "ls_loop so mktime fill False buf (fa, c) w = ls_loop so mktime fill False l (fa, c) w1"
      using None l(5) pos by (subst ls_loop.simps) (simp add: 1(1) same)
    moreover obtain w' where "ls_loop so mktime fill False l (fa, c) w1 = Some (0, (fa, feed fill (listed mktime w ls) c), w')"
      "conn_at outq core w' s []" "same_but_conn w1 w'"
      using Cons.IH [OF 1(2), of c l] Cons.prems(2,3) unfolding lt cong by auto
    ultimately show ?thesis using same_but_conn_trans [OF 1(3)] unfolding lt by auto
  next
    case (Some e)
    obtain name f where e: "?e = Some (name, f)" using Some by (cases e) auto
    then have lt: "listed mktime w (l # ls) = (name, f) # listed mktime w ls" by (simp add: listed_def List.map_filter_simps)
    obtain r c1 where fl: "fill c name f = (r, c1)" by fastforce
    with Cons.prems(3) have r: "r \<noteq> 0" "accepts fill (listed mktime w ls) c1" by (simp_all add: lt)
    have "ls_loop so mktime fill False buf (fa, c) w = ls_loop so mktime fill False l (fa, c1) w1"
      using e l(5) pos r(1) fl by (subst ls_loop.simps) (simp add: 1(1) same)
    moreover obtain w' where "ls_loop so mktime fill False l (fa, c1) w1 = Some (0, (fa, feed fill (listed mktime w ls) c1), w')"
      "conn_at outq core w' s []" "same_but_conn w1 w'"
      using Cons.IH [OF 1(2), of c1 l] Cons.prems(2) r(2) unfolding cong by auto
    ultimately show ?thesis using same_but_conn_trans [OF 1(3)] r(1) unfolding lt by (auto simp: fl)
  qed
qed

lemma readdir_feeds:
  assumes w: "conn_at outq core w s []" "\<not> shfs_mutex w" "creds_ok w"
    and name: "NUL \<notin> set name" "length (quoted name) < SHFS_PATH_MAX"
    and r: "\<And>u ts. cred_words (preserve_own w) ts u \<Longrightarrow>
      react s (''s_lsdir'' @ u @ quote1 (quoted name) @ [NL]) = (listing_text ls, s')"
    and ls: "\<forall>l\<in>set ls. ls_line l" "accepts fill (listed mktime w ls) c"
  shows "\<exists>w'. shell_readdir so mktime fill w name c = Some (0, quoted name, feed fill (listed mktime w ls) c, w') \<and>
    conn_at outq core w' s' [] \<and> same_but_conn w w'"
proof -
  let ?w = "w\<lparr>shfs_mutex := True\<rparr>"
  have w': "conn_at outq core ?w s []" "creds_ok ?w" "preserve_own ?w = preserve_own w"
    using w creds_ok_cong [of ?w w] by (simp_all add: conn_at_def)
  obtain u ts where u: "command_head ?w ''s_lsdir'' = Some (''s_lsdir'' @ u)" "length u < 3072"
    "cred_words (preserve_own w) ts u"
    using creds_head [OF w'(2), of "''s_lsdir''"] w'(3) by auto
  let ?cmd = "(''s_lsdir'' @ u) @ quote1 (quoted name) @ [NL]"
  have fits: "\<not> length (''s_lsdir'' @ u) + length (quoted name) + 4 > SOCKBUF_SIZE" using u(2) name(2) by simp
  have re: "react s ?cmd = (listing_text ls, s')" using r [OF u(3)] by simp
  obtain w1 where w1: "sock_write so ?w ?cmd = Some (int (length ?cmd), w1)"
    "conn_at outq core w1 s' (listing_text ls)" "same_but_conn ?w w1"
    using write_ok [OF w'(1) re] by auto
  have lt: "listed mktime w1 ls = listed mktime w ls"
    using listed_cong [OF w1(3), of mktime ls] by (simp add: listed_def)
  obtain w2 where w2: "ls_loop so mktime fill False ?cmd (None, c) w1 = Some (0, (None, feed fill (listed mktime w ls) c), w2)"
    "conn_at outq core w2 s' []" "same_but_conn w1 w2"
    using ls_loop_feeds [OF w1(2) ls(1), of fill mktime c ?cmd None] ls(2) unfolding lt by blast
  have nn: "\<not> int (length ?cmd) < 0" by simp
  have "locked w (None, c) (\<lambda>w.
      case command_head w (if False then ''s_stat'' else ''s_lsdir'') of
        None \<Rightarrow> Some (- ENAMETOOLONG, (None, c), w)
      | Some s \<Rightarrow>
         if length s + length (quoted name) + 4 > SOCKBUF_SIZE then Some (- ENAMETOOLONG, (None, c), w)
         else let sockbuf = s @ quote1 (quoted name) @ [NL] in do {
           (result, w1) \<leftarrow> sock_write so w sockbuf;
           if result < 0 then Some (result, (None, c), w1)
           else ls_loop so mktime fill False sockbuf (None, c) w1
         }) = Some (0, (None, feed fill (listed mktime w ls) c), sock_unlock w2)"
    by (rule locked_ok [OF w(2)])
      (simp only: u(1) option.case Let_def if_not_P [OF fits] w1(1) if_not_P [OF nn] w2(1)
        Option.bind.bind_lunit prod.case if_False)
  then have "shell_readdir so mktime fill w name c =
      Some (0, quoted name, feed fill (listed mktime w ls) c, sock_unlock w2)"
    using check_path_ok [OF name] by (simp add: shell_readdir_def do_ls_def)
  moreover have "conn_at outq core (sock_unlock w2) s' []" using w2(2) by (simp add: conn_at_def sock_unlock_def)
  moreover have "same_but_conn w (sock_unlock w2)"
    by (rule unlock_same [OF w(2) same_but_conn_trans [OF w1(3) w2(3)]])
  ultimately show ?thesis by blast
qed

end

section \<open>Over the Perl server\<close>

text \<open>\<open>ls\<close> runs on the remote host: what \<open>s_lsdir\<close> prints is given by \<open>other\<close>.\<close>

lemma perl_readdir:
  assumes w: "conn_at pc_out pc_peer w p []" "perl_ready p (preserve_own w)" "\<not> shfs_mutex w" "creds_ok w"
    and name: "NUL \<notin> set name" "length (quoted name) < SHFS_PATH_MAX"
    and ls: "other [''s_lsdir'', name] p = (listing_text ls, p)" "\<forall>l\<in>set ls. ls_line l"
      "accepts fill (listed mktime w ls) c"
  shows "\<exists>w'. shell_readdir (perl_so other) mktime fill w name c =
      Some (0, quoted name, feed fill (listed mktime w ls) c, w') \<and>
    conn_at pc_out pc_peer w' p [] \<and> same_but_conn w w'"
proof (rule perl.readdir_feeds [OF w(1,3,4) name _ ls(2,3)])
  fix u ts
  assume u: "cred_words (preserve_own w) ts u"
  have al: "list_all2 spells [quote1 (quoted name)] [name]" by (simp add: quote1_def)
  have sp: "spells ''s_lsdir'' ''s_lsdir''" by (simp add: spells_def)
  obtain cws where cws: "length cws = (if p_preserve p then 2 else 0)"
    "perl_react other p (''s_lsdir'' @ u @ line_text [quote1 (quoted name)] @ [NL]) = perl_command other p (''s_lsdir'' # cws @ [name])"
    using command_words [OF w(2) u al _ sp, of other] by blast
  have "perl_command other p (''s_lsdir'' # cws @ [name]) = other [''s_lsdir'', name] p"
    using cws(1) by (auto simp: perl_command_def Let_def)
  then show "perl_react other p (''s_lsdir'' @ u @ quote1 (quoted name) @ [NL]) = (listing_text ls, p)"
    using cws(2) ls(1) by simp
qed

lemma ttl_conn: "ttl (w\<lparr>sock := a, readlnbuf := b\<rparr>) = ttl w"
  by simp

lemma directory_over_perl:
  assumes dr: "dir_ready v a d vn" and un: "unread v a pos" and pos: "2 \<le> pos" and ttl: "0 < u64 (max_age v)"
    and path: "d_path v d = Some ns" "c_str (snd (get_name ns (v_stk v))) = name"
    and w: "conn_at pc_out pc_peer (v_sb v) p []" "perl_ready p (preserve_own (v_sb v))" "creds_ok (v_sb v)"
    and name: "NUL \<notin> set name" "length (quoted name) < SHFS_PATH_MAX"
    and ls: "other [''s_lsdir'', name] p = (listing_text ls, p)" "\<forall>l\<in>set ls. ls_line l"
      "distinct (map fst (listed mktime (v_sb v) ls))"
  shows "\<exists>v' ents. shfs_readdir fops (shell_readdir (perl_so other) mktime) filldir d pos out v =
      Some (0, fst (given filldir pos ents out), snd (given filldir pos ents out), v') \<and>
    map fst ents = map fst (listed mktime (v_sb v) ls) \<and> vfs_ok v' \<and>
    conn_at pc_out pc_peer (v_sb v') p [] \<and> same_but_conn (v_sb v) (v_sb v') \<and>
    (\<forall>pos2\<ge>2. \<exists>v''. shfs_readdir fops rd2 filldir2 d pos2 out2 v' =
      Some (0, fst (given filldir2 pos2 ents out2), snd (given filldir2 pos2 ents out2), v'') \<and> v_sb v'' = v_sb v')"
proof -
  let ?fill = "shfs_fill_cache filldir a d" and ?es = "listed mktime (v_sb v) ls"
  have m: "\<not> shfs_mutex (v_sb v)" using dr by (simp add: dir_ready_def)
  let ?Q = "\<lambda>w1. conn_at pc_out pc_peer w1 p [] \<and> same_but_conn (v_sb v) w1"
  have rd: "\<exists>w1. shell_readdir (perl_so other) mktime ?fill (v_sb v) name sto =
      Some (0, quoted name, feed ?fill ?es sto, w1) \<and> ?Q w1" if "accepts ?fill ?es sto" for sto
    by (rule perl_readdir [OF w(1,2) m w(3) name]) (rule ls(1) ls(2) that)+
  have keep: "\<not> shfs_mutex w1" "max_age (v\<lparr>v_sb := w1\<rparr>) = max_age v" if "?Q w1" for w1
  proof -
    have "w1 = (v_sb v)\<lparr>sock := sock w1, readlnbuf := readlnbuf w1\<rparr>" using that by (simp add: same_but_conn_def)
    then have "ttl w1 = ttl (v_sb v)" by (metis ttl_conn)
    then show "\<not> shfs_mutex w1" "max_age (v\<lparr>v_sb := w1\<rparr>) = max_age v"
      using that m same_but_connD(1) [of "v_sb v" w1] by (simp_all add: max_age_def)
  qed
  have st: "settled (v\<lparr>v_sb := w1\<rparr>) vn" "0 < u64 (max_age (v\<lparr>v_sb := w1\<rparr>))" if "?Q w1" for w1
    using dr ttl keep(2) [OF that] by (simp_all add: dir_ready_def settled_def)
  have "\<exists>v' ents. shfs_readdir fops (shell_readdir (perl_so other) mktime) filldir d pos out v =
      Some (0, fst (given filldir pos ents out), snd (given filldir pos ents out), v') \<and>
    map fst ents = map fst ?es \<and> ?Q (v_sb v') \<and> vfs_ok v' \<and>
    (\<forall>pos2\<ge>2. \<exists>v''. shfs_readdir fops rd2 filldir2 d pos2 out2 v' =
      Some (0, fst (given filldir2 pos2 ents out2), snd (given filldir2 pos2 ents out2), v'') \<and> v_sb v'' = v_sb v')"
    by (rule listing_spec [OF dr un pos path _ ls(3), where Q = ?Q]) (use rd keep(1) st in blast)+
  then show ?thesis by blast
qed

lemma unlink_dentry_over_perl:
  assumes v: "vfs_ok v" "v_dentry v d \<noteq> None" "\<not> readonly (v_sb v)"
    and path: "d_path v d = Some ns" "c_str (snd (get_name ns (v_stk v))) = name"
    and w: "conn_at pc_out pc_peer (v_sb v) p []" "perl_ready p (preserve_own (v_sb v))" "\<not> shfs_mutex (v_sb v)"
      "creds_ok (v_sb v)"
    and name: "NUL \<notin> set name" "length (quoted name) < SHFS_PATH_MAX"
  shows "\<exists>v' p'. shfs_unlink (shell_fops (perl_so other) mktime) dir d v =
      Some (if perl_bytes p name = None then - ENOENT else 0, v') \<and>
    conn_at pc_out pc_peer (v_sb v') p' [] \<and> perl_ready p' (preserve_own (v_sb v')) \<and>
    same_but_conn (v_sb v) (v_sb v') \<and> perl_bytes p' = (perl_bytes p)(name := None) \<and> vfs_ok v' \<and>
    same_tree v v' \<and> (perl_bytes p name \<noteq> None \<longrightarrow>
      (\<forall>e n. above v d e \<and> v_dentry v' e = Some n \<longrightarrow> dn_time n = jiffies v))"
proof -
  let ?r = "if perl_bytes p name = None then - ENOENT else 0 :: int"
  obtain w1 p1 where 1: "shell_unlink (perl_so other) (v_sb v) name = Some (?r, quoted name, w1)"
    "conn_at pc_out pc_peer w1 p1 []" "perl_ready p1 (preserve_own w1)"
    "perl_bytes p1 = (perl_bytes p)(name := None)" "same_but_conn (v_sb v) w1"
    using unlink_over_perl [OF w name, of other] by blast
  let ?v1 = "v\<lparr>v_sb := w1\<rparr>"
  have same: "same_tree v ?v1" by (simp add: same_tree_eq)
  have ab: "above ?v1 d = above v d" using above_same_tree_iff [OF same] by (simp add: fun_eq_iff)
  have rn: "shfs_renew_times d ?v1 = Some (stamp (above v d) ?v1)"
    using renew_times_ok [of ?v1 d] v ab by simp
  define v' where "v' = shfs_invalid_dir_cache dir (if perl_bytes p name = None then ?v1 else stamp (above v d) ?v1)"
  have eq: "shfs_unlink (shell_fops (perl_so other) mktime) dir d v = Some (?r, v')"
    unfolding shfs_unlink_def named_eq [OF path] using v(3) 1(1) rn by (simp add: shell_fops_def v'_def)
  have "v_sb v' = w1" by (simp add: v'_def vfs_simps)
  moreover have "same_tree v v'"
    using same same_tree_trans [OF same stamp_same_tree, of "above v d"]
    by (simp add: v'_def same_tree_def vfs_simps)
  moreover have "dn_time n = jiffies v" if "perl_bytes p name \<noteq> None" "above v d e" "v_dentry v' e = Some n" for e n
    using that by (auto simp: v'_def vfs_simps stamp_def)
  ultimately show ?thesis using 1 eq remove_ok(2) [OF v(1) eq] by (intro exI [of _ v'] exI [of _ p1]) auto
qed

end
