(* ===== verification/ExampleVfs.thy ===== *)
theory ExampleVfs
  imports Example DirServer
begin

text \<open>
  A concrete store for the properties of inodes and directories: the root with the file of
  \<open>Example\<close> in it, and the properties of \<open>VfsSpec\<close> and \<open>DirSpec\<close> applied to it.
\<close>

section \<open>The store\<close>

definition ex_root_node :: dnode where
  "ex_root_node = \<lparr>dn_name = ''/'', dn_parent = 1, dn_inode = Some 0, dn_time = 0, dn_fsdata = 0,
     dn_hashed = True, dn_op = True\<rparr>"

definition ex_node :: dnode where
  "ex_node = \<lparr>dn_name = ''f'', dn_parent = 1, dn_inode = Some 2, dn_time = 0, dn_fsdata = 0,
     dn_hashed = True, dn_op = True\<rparr>"

definition ex_root_vnode :: vnode where
  "ex_root_vnode = \<lparr>vn_inode = ex_inode\<lparr>i_ino := 2, i_mode := S_IFDIR OR 0x1C0\<rparr>, vn_ops = Dir_ops, vn_bad = False,
     vn_pages = (\<lambda>_. None)\<rparr>"

definition ex_vnode :: vnode where
  "ex_vnode = \<lparr>vn_inode = ex_inode, vn_ops = File_ops, vn_bad = False, vn_pages = (\<lambda>_. None)\<rparr>"

definition ex_fattr :: shfs_fattr where
  "ex_fattr = \<lparr>f_ino = 0, f_mode = 0x81A4, f_nlink = 1, f_uid = 0, f_gid = 0, f_rdev = 0, f_size = 7,
     f_atime = ex_time, f_mtime = ex_time, f_ctime = ex_time, f_blksize = 4096, f_blocks = 1\<rparr>"

definition ex_vfs :: "perl_conn vfs" where
  "ex_vfs = \<lparr>v_sb = ex_world, s_magic = SHFS_SUPER_MAGIC, jiffies = 100000, hz = 1000,
     v_dentry = [1 \<mapsto> ex_root_node, 3 \<mapsto> ex_node], v_inode = [0 \<mapsto> ex_root_vnode, 2 \<mapsto> ex_vnode],
     v_next = 4, v_ino = 4, allocs = [], v_stk = ex_stk, v_fattr = ex_fattr\<rparr>"

lemmas ex_vfs_defs = ex_vfs_def ex_root_node_def ex_node_def ex_root_vnode_def ex_vnode_def

lemma ex_vfs_ok: "vfs_ok ex_vfs"
proof (rule vfs_okI)
  show "tree_by id ex_vfs" by (auto simp: tree_by_def ex_vfs_defs split: if_splits)
qed (auto simp: ex_vfs_defs live_def has_info_def ex_inode_def split: if_splits)

lemma ex_vfs_path: "d_path ex_vfs 3 = Some [''f'']"
proof -
  have "d_path ex_vfs 1 = Some []" by (subst d_path.simps) (simp add: ex_vfs_defs)
  then show ?thesis by (subst d_path.simps) (simp add: ex_vfs_defs)
qed

lemma ex_vfs_name: "c_str (snd (get_name [''f''] (v_stk ex_vfs))) = ''/f''"
  using ex_dentry_ok(3) by (simp add: fd_name_def ex_dentry_def ex_vfs_def)

text \<open>A remote side that creates every file and finds every name.\<close>

definition ex_yes :: "perl_conn world shfs_fileops" where
  "ex_yes = ex_fops\<lparr>op_create := \<lambda>w name m. Some (0, name, w), op_stat := \<lambda>w name. Some (0, name, Some ex_fattr, w)\<rparr>"

lemma ex_create: "\<exists>v r. shfs_create ex_yes 0 3 0 ex_vfs = Some (r, v)"
proof -
  let ?v = "shfs_invalid_dir_cache 0 (ex_vfs\<lparr>v_sb := ex_world\<rparr>)"
  have same: "same_tree ex_vfs ?v" by (simp add: same_tree_def vfs_simps)
  have "\<exists>v' vn. shfs_instantiate ex_yes 3 ?v = Some (0, v') \<and> v_sb v' = ex_world \<and> vfs_ok v' \<and>
      dentry_inode v' 3 = Some (v_next ?v, vn) \<and> vn = new_vnode (?v\<lparr>v_sb := ex_world\<rparr>) (ex_fattr\<lparr>f_ino := v_ino ?v\<rparr>) \<and>
      (\<forall>e n. above ?v 3 e \<and> v_dentry v' e = Some n \<longrightarrow> dn_time n = jiffies ?v) \<and>
      v_inode v' = (v_inode ?v)(v_next ?v := Some vn)"
    by (rule instantiate_spec [where ns = "[''f'']" and name = "''/f''" and name' = "''/f''"])
      (use ex_vfs_ok ex_vfs_path ex_vfs_name d_path_cong [OF ex_vfs_ok _ same] in
        \<open>simp_all add: vfs_ok_invalid_dir_cache vfs_simps ex_yes_def\<close>, simp_all add: ex_vfs_defs)
  then show ?thesis
    unfolding shfs_create_def named_eq [OF ex_vfs_path ex_vfs_name] Let_def
    by (auto simp: ex_vfs_defs ex_yes_def ex_world_def)
qed

lemma ex_max_age: "max_age ex_vfs = SHFS_DEFAULT_TTL"
  by (simp add: max_age_def ex_vfs_def ex_world_def s32_def)

lemmas ex_vfs_max_age = ex_max_age [unfolded ex_vfs_defs, simplified]

text \<open>The root directory, a reader that collects entries, and a listing of one line.\<close>

definition ex_filldir :: "(string \<times> nat \<times> nat) list \<Rightarrow> string \<Rightarrow> nat \<Rightarrow> nat \<Rightarrow> int \<times> (string \<times> nat \<times> nat) list" where
  "ex_filldir out name pos ino = (0, out @ [(name, pos, ino)])"

definition ex_line :: string where
  "ex_line = ''-rw-r--r-- 1 0 0 5 Jan 1 2023 g''"

definition ex_ls :: "string list \<Rightarrow> perl \<Rightarrow> string \<times> perl" where
  "ex_ls words p = (if words = [''s_lsdir'', ''/''] then listing_text [ex_line] else [], p)"

lemma ex_vfs_sb: "v_sb ex_vfs = ex_world"
  by (simp add: ex_vfs_def)

lemma ex_line_ok: "ls_line ex_line" "distinct (map fst (listed mktime w [ex_line]))"
  by (simp_all add: ls_line_def ex_line_def starts_with_def listed_def List.map_filter_def)

lemma ex_root_path: "d_path ex_vfs 1 = Some []" "c_str (snd (get_name [] (v_stk ex_vfs))) = ''/''"
proof -
  show "d_path ex_vfs 1 = Some []" by (subst d_path.simps) (simp add: ex_vfs_defs)
  have "c_str (snd (get_name [] ex_stk)) = path_of []" by (rule get_name_fits) simp_all
  then show "c_str (snd (get_name [] (v_stk ex_vfs))) = ''/''" by (simp add: ex_vfs_def path_of_def)
qed

lemma ex_unread: "unread ex_vfs 0 pos"
  by (simp add: unread_def ex_vfs_def ex_root_vnode_def)

lemma ex_dir_ready: "dir_ready ex_vfs 0 1 ex_root_vnode"
proof -
  have "kids ex_vfs 0 1" by (auto simp: kids_def ex_vfs_defs ex_inode_def split: if_splits)
  then have "fill_ready ex_vfs 0 1" using ex_vfs_ok by (simp add: fill_ready_def) (simp add: ex_vfs_def)
  then show ?thesis
    by (simp add: dir_ready_def dentry_inode_def settled_def) (simp add: ex_vfs_defs ex_world_def)
qed

section \<open>The properties on the store\<close>

theorem attr_change_coherent_witness:
  "\<exists>vn'. v_inode (shfs_set_inode_attr 2 ex_fattr ex_vfs) 2 = Some vn' \<and>
    fd_ok ex_size \<lparr>d_names = [''f''], d_inode = Some (vn_inode vn')\<rparr> (\<lambda>_. NUL) \<and>
    fd_view \<lparr>d_names = [''f''], d_inode = Some (vn_inode vn')\<rparr> (\<lambda>_. NUL) =
      fd_view \<lparr>d_names = [''f''], d_inode = Some (vn_inode ex_vnode)\<rparr> (\<lambda>_. NUL)"
proof (rule attr_change_coherent)
  show "v_inode ex_vfs 2 = Some ex_vnode" by (simp add: ex_vfs_def)
  show "fd_ok ex_size \<lparr>d_names = [''f''], d_inode = Some (vn_inode ex_vnode)\<rparr> (\<lambda>_. CHR ''x'')"
    using ex_dentry_ok(1) by (simp add: ex_dentry_def ex_vnode_def)
qed (simp_all add: ex_fattr_def ex_vnode_def ex_inode_def S_ISDIR_def)


theorem readonly_refused_witness:
  "shfs_mkdir ex_yes 0 3 (ex_vfs\<lparr>v_sb := ex_world\<lparr>readonly := True\<rparr>\<rparr>) =
      Some (- EROFS, ex_vfs\<lparr>v_sb := ex_world\<lparr>readonly := True\<rparr>\<rparr>) \<and>
    shfs_create ex_yes 0 3 0 (ex_vfs\<lparr>v_sb := ex_world\<lparr>readonly := True\<rparr>\<rparr>) =
      Some (- EROFS, ex_vfs\<lparr>v_sb := ex_world\<lparr>readonly := True\<rparr>\<rparr>) \<and>
    shfs_rmdir ex_yes 0 3 (ex_vfs\<lparr>v_sb := ex_world\<lparr>readonly := True\<rparr>\<rparr>) =
      Some (- EROFS, ex_vfs\<lparr>v_sb := ex_world\<lparr>readonly := True\<rparr>\<rparr>) \<and>
    shfs_rename ex_yes True 0 3 0 3 (ex_vfs\<lparr>v_sb := ex_world\<lparr>readonly := True\<rparr>\<rparr>) =
      Some (- EROFS, ex_vfs\<lparr>v_sb := ex_world\<lparr>readonly := True\<rparr>\<rparr>) \<and>
    shfs_unlink ex_yes 0 3 (ex_vfs\<lparr>v_sb := ex_world\<lparr>readonly := True\<rparr>\<rparr>) =
      Some (- EROFS, ex_vfs\<lparr>v_sb := ex_world\<lparr>readonly := True\<rparr>\<rparr>) \<and>
    shfs_link ex_yes 3 0 3 (ex_vfs\<lparr>v_sb := ex_world\<lparr>readonly := True\<rparr>\<rparr>) =
      Some (- EROFS, ex_vfs\<lparr>v_sb := ex_world\<lparr>readonly := True\<rparr>\<rparr>) \<and>
    shfs_symlink ex_yes 0 3 ''t'' (ex_vfs\<lparr>v_sb := ex_world\<lparr>readonly := True\<rparr>\<rparr>) =
      Some (- EROFS, ex_vfs\<lparr>v_sb := ex_world\<lparr>readonly := True\<rparr>\<rparr>)"
  by (rule readonly_refused) simp

theorem d_revalidate_deadlock_witness: "shfs_d_revalidate ex_fops 3 ex_vfs = None"
  by (rule d_revalidate_deadlock [where n = ex_node and a = 2 and vn = ex_vnode])
    (simp_all add: ex_vfs_defs ex_vfs_max_age u64_def)

theorem revalidate_deadlock_witness:
  "shfs_revalidate_inode ex_fops 3 ex_vfs = None \<and> shfs_getattr ex_fops 3 ex_vfs = None"
proof (rule revalidate_deadlock [OF ex_vfs_ok _ _ _ _ _ _ ex_vfs_path])
  show "dentry_inode ex_vfs 3 = Some (2, ex_vnode)"
    by (simp add: dentry_inode_def) (simp add: ex_vfs_defs)
  show "check_path (c_str (snd (get_name [''f''] (v_stk ex_vfs)))) = (True, ''/f'')"
    by (simp add: ex_vfs_name check_path_ok quote_char_def)
  show "i_private (vn_inode ex_vnode) = Some new_info" by (simp add: ex_vnode_def ex_inode_def new_info_def)
qed (simp_all add: ex_vfs_def ex_vnode_def ex_inode_def ex_world_def new_info_def time_before_def max_age_def s32_def u64_def)

theorem create_new_file_witness:
  "\<exists>v' vn. shfs_create ex_yes 0 3 0 ex_vfs = Some (0, v') \<and> v_sb v' = ex_world \<and> vfs_ok v' \<and>
    dentry_inode v' 3 = Some (v_next ex_vfs, vn) \<and> i_ino (vn_inode vn) = v_ino ex_vfs \<and>
    i_mode (vn_inode vn) = f_mode ex_fattr \<and> i_size (vn_inode vn) = f_size ex_fattr \<and>
    vn_ops vn = inode_ops (f_mode ex_fattr) \<and>
    (\<exists>p. i_private (vn_inode vn) = Some p \<and> unset_write_on_close p = (0 AND S_IWUSR = (0 :: umode))) \<and>
    (\<forall>e n. above ex_vfs 3 e \<and> v_dentry v' e = Some n \<longrightarrow> dn_time n = jiffies ex_vfs) \<and>
    (\<forall>dn pg. v_inode v' 0 = Some dn \<and> vn_pages dn 0 = Some pg \<and> pg_uptodate pg \<longrightarrow>
      ch_time (pg_head pg) = u64 (int (jiffies ex_vfs) - max_age (ex_vfs\<lparr>v_sb := ex_world\<rparr>)))"
  by (rule create_new_file [OF ex_vfs_ok _ _ _ ex_vfs_path ex_vfs_name]) (simp_all add: ex_vfs_defs ex_yes_def ex_world_def)


end
