(* ===== verification/ExampleMount.thy ===== *)
theory ExampleMount
  imports MountSpec HandshakeSpec ExampleVfs
begin

text \<open>
  A user with a directory of his own, a remote host with a shell that starts Perl, and the properties of
  mounting applied to them.
\<close>

definition ex_env :: host_env where
  "ex_env = \<lparr>getuid = 1000, getgid = 1000, getgroups = [], getpwuid = \<lambda>_. None, getpwnam = \<lambda>_. None,
     getgrgid = \<lambda>_. None, getgrnam = \<lambda>_. None, realpath = Some, dir_stat = \<lambda>_. Some (S_IFDIR OR 0x1C0, 1000, 1000)\<rparr>"

definition ex_unmounted :: "perl_conn vfs" where
  "ex_unmounted = ex_vfs\<lparr>v_dentry := (\<lambda>_. None), v_inode := (\<lambda>_. None)\<rparr>"

lemma ex_unmounted_ok: "unmounted ex_unmounted"
  by (simp add: unmounted_def ex_unmounted_def) (simp add: ex_vfs_def)

lemma ex_env_ok: "getuid ex_env = 1000" "length dir < 512 \<Longrightarrow> fullpath ex_env dir = Some dir" "mount_ok ex_env dir"
  by (simp_all add: ex_env_def fullpath_def mount_ok_def S_ISDIR_def)

definition ex_fd :: "int \<Rightarrow> perl_conn option" where
  "ex_fd n = (if n = 3 then Some ex_conn else None)"

definition ex_start :: perl_conn where
  "ex_start = \<lparr>pc_out = COMPLETE, pc_peer = ex_perl, pc_pos = 0\<rparr>"

abbreviation ex_buffer :: string where "ex_buffer \<equiv> replicate BUFFER_MAX NUL"

definition ex_fget :: "int \<Rightarrow> perl_conn option" where
  "ex_fget n = (case start_server (perl_so (\<lambda>_ p. ([], p))) (Some ''/home'') False False ex_buffer ex_start of
     None \<Rightarrow> None | Some (ok, f) \<Rightarrow> Some f)"

lemma ex_start_ok: "pc_out ex_start = COMPLETE" "perl_idle (pc_peer ex_start)" "\<not> p_preserve (pc_peer ex_start)"
  "\<not> p_stable (pc_peer ex_start)" "p_files (pc_peer ex_start) ''/home/f'' = Some ''hello''"
  by (simp_all add: ex_start_def ex_perl_def perl_idle_def)

text \<open>A shell that knows two texts.\<close>

definition ex_proto :: proto where
  "ex_proto = \<lparr>pr_id = ''perl'', pr_test = ''test'', pr_code = ''exec''\<rparr>"

definition ex_sh :: "nat \<Rightarrow> string \<Rightarrow> string \<times> (nat + perl)" where
  "ex_sh s bs = (if bs = ''test'' then (''ok stable'' @ [NL], Inl (s + 1))
     else if bs = ''exec'' then (COMPLETE, Inr ex_perl) else ([], Inl s))"

definition ex_host :: "nat host_conn" where
  "ex_host = \<lparr>hc_out = [], hc_peer = Inl 0, hc_pos = 0\<rparr>"


theorem root_only_bypass_witness:
  "prepare ex_env [(CHR ''o'', Some ''preserve'')] [''host'', ''/mnt''] = Inl (Exit 2) \<and>
    (\<exists>m cmd data d v'. prepare ex_env [(CHR ''o'', Some (''preserve'' @ CHR ''d'' # []))] [''host'', ''/mnt''] = Inr (m, ''/mnt'', cmd) \<and>
      mount_data 3 m = Inr data \<and>
      shfs_read_super (\<lambda>_. Some ex_conn) 1000 (Some data) ex_unmounted = Some (0, Some d, v') \<and>
      preserve_own (v_sb v') \<and> fmask (v_sb v') = 0xFFFF)"
  by (rule root_only_bypass [where c = "CHR ''d''" and s = "[]" and f = ex_conn, OF _ _ _ _ _ _ _ _ ex_unmounted_ok]) (simp_all add: ex_env_ok plain_host_def)

definition ex_io :: mtab_io where
  "ex_io = \<lparr>io_lock = True, io_open = True, io_open_new = True, io_write = True, io_mode = True, io_unlock = True\<rparr>"

definition ex_mtab :: mtab where
  "ex_mtab = \<lparr>mt_lock = False, mt_entries = [(''/dev/sda1'', ''/'', ''rw'')], mt_tmp = None\<rparr>"

definition ex_stuck :: mtab where
  "ex_stuck = \<lparr>mt_lock = True, mt_entries = [(''/dev/sda1'', ''/'', ''rw''), (''host'', ''/mnt'', ''rw'')], mt_tmp = None\<rparr>"


lemma ex_options: "options_loop ex_fd (Some (''version=2'' @ opt_text [''fd='' @ dec 3])) w = Some (0, w\<lparr>version := 2, sock := ex_fd (int 3)\<rparr>)"
proof -
  have "means ex_fd (''fd='' @ dec 3) (\<lambda>w. w\<lparr>sock := ex_fd (int 3)\<rparr>)" by (rule own_options_mean) simp
  then have "list_all2 (means ex_fd) (''version=2'' # [''fd='' @ dec 3])
      ((\<lambda>w. w\<lparr>version := 2\<rparr>) # [\<lambda>w. w\<lparr>sock := ex_fd (int 3)\<rparr>])"
    using own_options_mean(1) by simp
  from options_run [OF this, of w] show ?thesis by (simp del: options_loop.simps)
qed

theorem mount_is_typed_witness:
  "\<exists>d v'. shfs_read_super ex_fd 1000 (Some (''version=2'' @ opt_text [''fd='' @ dec 3])) ex_unmounted = Some (0, Some d, v') \<and>
    mountable (v_sb v') \<and> mounted (v_sb v') ex_unmounted d v'"
proof -
  have parse: "parse_options ex_fd (default_info 1000 (v_sb ex_unmounted)) (Some (''version=2'' @ opt_text [''fd='' @ dec 3])) =
      Some (0, (default_info 1000 (v_sb ex_unmounted))\<lparr>version := 2, sock := ex_fd (int 3)\<rparr>)"
    by (simp only: parse_options_def option.case ex_options)
  obtain d v' where r: "shfs_read_super ex_fd 1000 (Some (''version=2'' @ opt_text [''fd='' @ dec 3])) ex_unmounted = Some (0, Some d, v')"
    using read_super_ok [OF ex_unmounted_ok parse] by (auto simp: ex_fd_def default_info_def)
  from mount_is_typed [OF ex_unmounted_ok r] r show ?thesis by auto
qed

end
