(* ===== verification/PerlHost.thy ===== *)
theory PerlHost
  imports PerlServer MountTool
begin

text \<open>
  The commands of the Perl server that call the remote host: listings, directories, links, modes, owners,
  times and the size of the file system. \<open>perl_host\<close> is what the system calls do to the files and
  answer; the commands are the program's. Together they are the argument \<open>other\<close> of \<open>perl_command\<close>.
\<close>

section \<open>The remote host\<close>

text \<open>
  \<open>host_ls\<close> is the program \<open>ls\<close> with its options and a path: whether it succeeded, and what it printed.
  \<open>host_df\<close> is the output of a shell command. \<open>host_times\<close> are the times that \<open>stat\<close> answers.
\<close>

record perl_host =
  host_exists :: "string \<Rightarrow> perl \<Rightarrow> bool"
  host_is_dir :: "string \<Rightarrow> perl \<Rightarrow> bool"
  host_ls :: "string \<Rightarrow> string \<Rightarrow> perl \<Rightarrow> bool \<times> string"
  host_mkdir :: "string \<Rightarrow> nat \<Rightarrow> perl \<Rightarrow> bool \<times> perl"
  host_rmdir :: "string \<Rightarrow> perl \<Rightarrow> bool \<times> perl"
  host_link :: "string \<Rightarrow> string \<Rightarrow> perl \<Rightarrow> bool \<times> perl"
  host_symlink :: "string \<Rightarrow> string \<Rightarrow> perl \<Rightarrow> bool \<times> perl"
  host_readlink :: "string \<Rightarrow> perl \<Rightarrow> string option"
  host_chmod :: "nat \<Rightarrow> string \<Rightarrow> perl \<Rightarrow> bool \<times> perl"
  host_chown :: "int \<Rightarrow> int \<Rightarrow> string \<Rightarrow> perl \<Rightarrow> bool \<times> perl"
  host_times :: "string \<Rightarrow> perl \<Rightarrow> (int \<times> int) option"
  host_utime :: "int \<Rightarrow> int \<Rightarrow> string \<Rightarrow> perl \<Rightarrow> bool \<times> perl"
  host_df :: "string \<Rightarrow> perl \<Rightarrow> string option"

section \<open>Perl's conversions\<close>

text \<open>A string as an integer (exponents are not modelled), and \<open>oct\<close> of a string of octal digits.\<close>

definition perl_int :: "string \<Rightarrow> int" where
  "perl_int s = fst (strtol s)"

definition is_octal :: "char \<Rightarrow> bool" where
  "is_octal c \<longleftrightarrow> isdigit c \<and> digit_val c < 8"

definition perl_oct :: "string \<Rightarrow> nat" where
  "perl_oct s = foldl (\<lambda>a c. a * 8 + digit_val c) 0 (takeWhile is_octal (dropWhile isspace s))"

text \<open>
  \<open>mktime\<close> in the time zone \<open>GMT\<close>, as POSIX defines it, with months outside the year carried over.
  \<open>mon\<close> counts from 0 and \<open>year\<close> from 1900.
\<close>

definition mktime_gmt :: "int \<Rightarrow> int \<Rightarrow> int \<Rightarrow> int \<Rightarrow> int \<Rightarrow> int \<Rightarrow> int" where
  "mktime_gmt sec mins hour mday mon year =
    (let y = year + 1900 + mon div 12;
         lens = [31, if y mod 4 = 0 \<and> (y mod 100 \<noteq> 0 \<or> y mod 400 = 0) then 29 else 28, 31, 30, 31, 30, 31, 31, 30, 31, 30, 31];
         days = 365 * (y - 1970) + (y - 1969) div 4 - (y - 1901) div 100 + (y - 1601) div 400
           + sum_list (take (nat (mon mod 12)) lens) + mday - 1
     in days * 86400 + hour * 3600 + mins * 60 + sec)"

text \<open>
  The captures of \<open>/(.{4})(..)(..)(..)(..)\.(..)/\<close>, at the first place where it matches; without a match
  they are undefined, which counts as the empty text.
\<close>

definition time_fits :: "string \<Rightarrow> bool" where
  "time_fits s \<longleftrightarrow> 15 \<le> length s \<and> NL \<notin> set (take 15 s) \<and> s ! 12 = CHR ''.''"

definition time_parts :: "string \<Rightarrow> string list" where
  "time_parts s =
    (case find (\<lambda>k. time_fits (drop k s)) [0..<length s] of
       None \<Rightarrow> []
     | Some k \<Rightarrow> let u = drop k s in
         take 4 u # map (\<lambda>j. take 2 (drop j u)) [4, 6, 8, 10, 13])"

text \<open>\<open>split (/ +/, s)\<close>; a blank at the end makes no further word.\<close>

function split_blanks :: "string \<Rightarrow> string list" where
  "split_blanks s = takeWhile (\<lambda>c. c \<noteq> SP) s #
     (let r = dropWhile (\<lambda>c. c = SP) (dropWhile (\<lambda>c. c \<noteq> SP) s) in if r = [] then [] else split_blanks r)"
  by pat_completeness auto

termination
proof (relation "measure length")
  fix s r :: string
  assume r: "r = dropWhile (\<lambda>c. c = SP) (dropWhile (\<lambda>c. c \<noteq> SP) s)" "r \<noteq> []"
  have le: "length (dropWhile (\<lambda>c. c \<noteq> SP) s) \<le> length s" by (rule length_dropWhile_le)
  show "(r, s) \<in> measure length"
  proof (cases "dropWhile (\<lambda>c. c \<noteq> SP) s")
    case Nil
    with r show ?thesis by simp
  next
    case (Cons c t)
    then have "c = SP" using hd_dropWhile [of "\<lambda>c. c \<noteq> SP" s] by simp
    with Cons le r(1) length_dropWhile_le [of "\<lambda>c. c = SP" t] show ?thesis by simp
  qed
qed simp

declare split_blanks.simps [simp del]

text \<open>The last line of a text, without its newline.\<close>

definition last_line :: "string \<Rightarrow> string" where
  "last_line s = (let ls = split_on NL s; ls1 = (if last ls = [] then butlast ls else ls) in if ls1 = [] then [] else last ls1)"

section \<open>The commands\<close>

definition answer :: "string \<Rightarrow> bool \<times> perl \<Rightarrow> string \<times> perl" where
  "answer bad r = (if fst r then COMPLETE else bad, snd r)"

definition s_lsdir :: "perl_host \<Rightarrow> perl \<Rightarrow> string list \<Rightarrow> string" where
  "s_lsdir host p args =
    (let path = p_root p @ arg args 0 in
     if \<not> host_is_dir host path p then PERL_ENOENT
     else case host_ls host (''-lan'' @ (if p_stable p then ''L'' else [])) path p of
       (ok, out) \<Rightarrow> out @ (if ok then COMPLETE else PERL_EPERM))"

definition s_stat :: "perl_host \<Rightarrow> perl \<Rightarrow> string list \<Rightarrow> string" where
  "s_stat host p args =
    (let path = p_root p @ arg args 0 in
     if \<not> host_exists host path p then PERL_ENOENT
     else case host_ls host (''-land'' @ (if p_stable p then ''L'' else [])) path p of
       (ok, out) \<Rightarrow> out @ (if ok then COMPLETE else PERL_EPERM))"

definition s_mkdir :: "perl_host \<Rightarrow> perl \<Rightarrow> string list \<Rightarrow> string \<times> perl" where
  "s_mkdir host p args = answer PERL_EPERM (host_mkdir host (p_root p @ arg args 0) 0x1FF p)"

definition s_rmdir :: "perl_host \<Rightarrow> perl \<Rightarrow> string list \<Rightarrow> string \<times> perl" where
  "s_rmdir host p args =
    (let path = p_root p @ arg args 0 in
     if \<not> host_is_dir host path p then (PERL_ENOENT, p) else answer PERL_EPERM (host_rmdir host path p))"

text \<open>The first path of a hard link is used without the root, like the text of a symbolic link.\<close>

definition s_ln :: "perl_host \<Rightarrow> perl \<Rightarrow> string list \<Rightarrow> string \<times> perl" where
  "s_ln host p args = answer PERL_EPERM (host_link host (arg args 0) (p_root p @ arg args 1) p)"

definition s_sln :: "perl_host \<Rightarrow> perl \<Rightarrow> string list \<Rightarrow> string \<times> perl" where
  "s_sln host p args = answer PERL_EPERM (host_symlink host (arg args 0) (p_root p @ arg args 1) p)"

text \<open>The empty text and \<open>0\<close> are false.\<close>

definition s_readlink :: "perl_host \<Rightarrow> perl \<Rightarrow> string list \<Rightarrow> string" where
  "s_readlink host p args =
    (case host_readlink host (p_root p @ arg args 0) p of
       None \<Rightarrow> PERL_EPERM
     | Some t \<Rightarrow> if t = [] \<or> t = ''0'' then PERL_EPERM else t @ [NL] @ COMPLETE)"

definition s_chmod :: "perl_host \<Rightarrow> perl \<Rightarrow> string list \<Rightarrow> string \<times> perl" where
  "s_chmod host p args = answer PERL_EPERM (host_chmod host (perl_oct (arg args 1)) (p_root p @ arg args 0) p)"

definition s_chown :: "perl_host \<Rightarrow> perl \<Rightarrow> string list \<Rightarrow> string \<times> perl" where
  "s_chown host p args = answer PERL_EPERM (host_chown host (perl_int (arg args 1)) (- 1) (p_root p @ arg args 0) p)"

definition s_chgrp :: "perl_host \<Rightarrow> perl \<Rightarrow> string list \<Rightarrow> string \<times> perl" where
  "s_chgrp host p args = answer PERL_EPERM (host_chown host (- 1) (perl_int (arg args 1)) (p_root p @ arg args 0) p)"

definition s_settime :: "perl_host \<Rightarrow> perl \<Rightarrow> string list \<Rightarrow> string \<times> perl" where
  "s_settime host p args =
    (let path = p_root p @ arg args 0; type = arg args 1;
         part = (\<lambda>k. perl_int (arg (time_parts (arg args 2)) k));
         sec = mktime_gmt (part 5) (part 4) (part 3) (part 2) (part 1 - 1) (part 0 - 1900);
         (old_atime, old_mtime) = (case host_times host path p of None \<Rightarrow> (0, 0) | Some ts \<Rightarrow> ts);
         mtime = (if type = ''a'' then old_mtime else sec);
         atime = (if type = ''m'' then old_atime else sec)
     in answer PERL_EPERM (host_utime host atime mtime path p))"

text \<open>The root stands in the command line of a shell as it is.\<close>

definition s_statfs :: "perl_host \<Rightarrow> perl \<Rightarrow> string" where
  "s_statfs host p =
    (let result = (case host_df host (''LC_ALL=POSIX df -k '' @ p_root p @ '' 2>/dev/null'') p of
        None \<Rightarrow> ''0 0 0''
      | Some out \<Rightarrow> let list = split_blanks (last_line out)
          in arg list 1 @ [SP] @ arg list 2 @ [SP] @ arg list 3)
     in result @ [NL] @ COMPLETE)"

definition perl_rest :: "perl_host \<Rightarrow> string list \<Rightarrow> perl \<Rightarrow> string \<times> perl" where
  "perl_rest host words p =
    (case words of [] \<Rightarrow> ([], p)
     | cmd # args \<Rightarrow>
        if cmd = ''s_lsdir'' then (s_lsdir host p args, p)
        else if cmd = ''s_stat'' then (s_stat host p args, p)
        else if cmd = ''s_mkdir'' then s_mkdir host p args
        else if cmd = ''s_rmdir'' then s_rmdir host p args
        else if cmd = ''s_ln'' then s_ln host p args
        else if cmd = ''s_sln'' then s_sln host p args
        else if cmd = ''s_readlink'' then (s_readlink host p args, p)
        else if cmd = ''s_chmod'' then s_chmod host p args
        else if cmd = ''s_chown'' then s_chown host p args
        else if cmd = ''s_chgrp'' then s_chgrp host p args
        else if cmd = ''s_settime'' then s_settime host p args
        else if cmd = ''s_statfs'' then (s_statfs host p, p)
        else (ERROR, p))"

end
