(* ===== verification/PerlHostSpec.thy ===== *)
theory PerlHostSpec
  imports DirServer PerlHost
begin

text \<open>
  What the operations of \<open>shell_fops\<close> that name, link and change files make the remote host do, through
  the Perl server: each is one call of the host, with exactly the path, mode, owner and time that was meant,
  and its success is what the operation answers.
\<close>

section \<open>Numbers\<close>

lemma foldl_zeros: "foldl (\<lambda>a c. a * b + digit_val c) 0 (replicate k (CHR ''0'')) = 0"
  by (induction k) (simp_all add: digit_val_def)

lemma perl_int_prec:
  assumes "0 \<le> n" and "n < 9223372036854775808"
  shows "perl_int (prec k n) = n"
proof -
  let ?z = "replicate (k - length (dec (nat n))) (CHR ''0'')" and ?d = "dec (nat n)"
  have s: "prec k n = ?z @ ?d" using assms(1) by (simp add: prec_def Let_def)
  have dig: "\<forall>c \<in> set (?z @ ?d). isdigit c" using dec_digits by (auto simp: isdigit_def)
  then obtain c u where cu: "?z @ ?d = c # u" "isdigit c" by (cases "?z @ ?d") auto
  then have c: "\<not> isspace c" "c \<noteq> CHR ''-''" "c \<noteq> CHR ''+''" by (auto simp: isspace_def isdigit_def)
  have v: "foldl (\<lambda>a c. a * 10 + digit_val c) 0 (?z @ ?d) = nat n" by (simp add: foldl_zeros foldl_dec)
  have tu: "takeWhile isdigit u = u" using dig cu(1) by (simp add: takeWhile_eq_all_conv)
  show ?thesis unfolding perl_int_def strtol_def s cu(1)
    using c cu(2) assms v [unfolded cu(1)] by (simp add: tu Let_def)
qed

lemma perl_int_dec: "n < 9223372036854775808 \<Longrightarrow> perl_int (dec n) = int n"
  using perl_int_prec [of "int n" 0] by (simp add: prec_def Let_def)

lemma foldl_oct: "foldl (\<lambda>a c. a * 8 + digit_val c) 0 (oct n) = n \<and> (\<forall>c \<in> set (oct n). is_octal c)"
proof (induction "8 :: nat" n rule: num_text.induct)
  case (1 n)
  then show ?case
    by (cases "n < 8") (auto simp: num_text.simps [of 8 n] digit_val_digit_char is_octal_def isdigit_digit_char)
qed

lemma perl_oct_oct: "perl_oct (oct n) = n"
proof -
  have dig: "\<forall>c \<in> set (oct n). is_octal c" using foldl_oct by blast
  then have "\<forall>c \<in> set (oct n). \<not> isspace c" by (auto simp: is_octal_def isdigit_def isspace_def)
  then have "dropWhile isspace (oct n) = oct n" by (cases "oct n") simp_all
  moreover have "takeWhile is_octal (oct n) = oct n" using dig by (simp add: takeWhile_eq_all_conv)
  ultimately show ?thesis unfolding perl_oct_def using foldl_oct [of n] by metis
qed

lemma oct_length: "n < 8 ^ k \<Longrightarrow> 0 < k \<Longrightarrow> length (oct n) \<le> k"
proof (induction k arbitrary: n)
  case (Suc k)
  then show ?case
    by (cases "n < 8"; cases k) (auto simp: num_text.simps [of 8 n])
qed simp

lemma mode_length: "length (oct (unat (m :: umode))) \<le> 1000"
proof -
  have "unat m < 8 ^ 6" using unsigned_less [where ?'a = nat and w = m] by simp
  then show ?thesis using oct_length [of "unat m" 6] by simp
qed

lemma spells_oct: "spells (oct n) (oct n)"
  using foldl_oct [of n] by (auto simp: spells_def is_octal_def isdigit_def)

section \<open>Dates\<close>

lemma div_next:
  fixes x :: int assumes "0 < k" shows "(x + 1) div k = x div k + (if (x + 1) mod k = 0 then 1 else 0)"
proof (cases "x mod k = k - 1")
  case True
  then have "x + 1 = (x div k + 1) * k + 0" using div_mult_mod_eq [of x k] distrib_right [of "x div k" 1 k] by linarith
  then have "(x + 1) div k = x div k + 1" "(x + 1) mod k = 0"
    using assms nonzero_mult_div_cancel_right [of k "x div k + 1"] by simp_all
  then show ?thesis by simp
next
  case False
  moreover have nn: "x mod k \<le> k - 1" "0 \<le> x mod k" using assms pos_mod_bound [of k x] by simp_all
  ultimately have r: "0 \<le> x mod k + 1" "x mod k + 1 < k" by simp_all
  then have "(x + 1) mod k = x mod k + 1" by (metis mod_add_left_eq mod_pos_pos_trivial)
  moreover have "x + 1 = x div k * k + (x mod k + 1)" using div_mult_mod_eq [of x k] by simp
  then have "(x + 1) div k = x div k" using r by (metis assms div_pos_pos_trivial div_mult_self3 add.commute add.right_neutral not_less_iff_gr_or_eq)
  ultimately show ?thesis using nn by simp
qed

lemma div_step:
  fixes y :: int assumes "0 < k" and "k dvd c"
  shows "(y + 1 - (c + 1)) div k = (y - (c + 1)) div k + (if y mod k = 0 then 1 else 0)"
proof -
  have e: "y + 1 - (c + 1) = y - (c + 1) + 1" "y - (c + 1) + 1 = y - c" by simp_all
  have "(y - c) mod k = 0 \<longleftrightarrow> y mod k = 0" using assms(2) by (simp add: mod_eq_0_iff_dvd dvd_diff_left_iff)
  with div_next [OF assms(1), of "y - (c + 1)"] show ?thesis unfolding e by simp
qed

lemma leap_days: "(r \<longrightarrow> q) \<Longrightarrow> (q \<longrightarrow> p) \<Longrightarrow> (if p \<and> (\<not> q \<or> r) then 366 else 365) =
    365 + (if p then 1 else 0) - (if q then 1 else 0) + (if r then 1 else (0 :: int))"
  by (cases p; cases q; cases r) simp_all

lemma years_sum:
  assumes "1970 \<le> y"
  shows "(\<Sum>i = 1970..<y. year_len i) =
    365 * (y - 1970) + (y - 1969) div 4 - (y - 1901) div 100 + (y - 1601) div 400"
  using assms
proof (induction y rule: int_ge_induct)
  case (step y)
  then have "{1970..<y + 1} = insert y {1970..<y}" by auto
  then have sum: "(\<Sum>i = 1970..<y + 1. year_len i) = year_len y + (\<Sum>i = 1970..<y. year_len i)" by simp
  define a b c :: int where "a = (if y mod 4 = 0 then 1 else 0)" and "b = (if y mod 100 = 0 then 1 else 0)"
    and "c = (if y mod 400 = 0 then 1 else 0)"
  have e: "1968 + 1 = (1969 :: int)" "1900 + 1 = (1901 :: int)" "1600 + 1 = (1601 :: int)" by simp_all
  have n1: "(y + 1 - (1968 + 1)) div 4 = (y - (1968 + 1)) div 4 + a" unfolding a_def by (rule div_step) simp_all
  have n2: "(y + 1 - (1900 + 1)) div 100 = (y - (1900 + 1)) div 100 + b" unfolding b_def by (rule div_step) simp_all
  have n3: "(y + 1 - (1600 + 1)) div 400 = (y - (1600 + 1)) div 400 + c" unfolding c_def by (rule div_step) simp_all
  note nx = n1 [unfolded e] n2 [unfolded e] n3 [unfolded e]
  have m: "y mod 400 = 0 \<longrightarrow> y mod 100 = 0" "y mod 100 = 0 \<longrightarrow> y mod 4 = 0"
    using dvd_trans [of 100 400 y] dvd_trans [of 4 100 y] by (simp_all add: mod_eq_0_iff_dvd)
  have leap: "isleap y \<longleftrightarrow> y mod 4 = 0 \<and> (y mod 100 \<noteq> 0 \<or> y mod 400 = 0)"
    using step(1) by (simp add: isleap_def signed_modulo_int_def)
  have yl: "year_len y = 365 + a - b + c"
    unfolding year_len_def leap a_def b_def c_def by (rule leap_days [OF m])
  have add: "365 + a - b + c + (365 * (y - 1970) + u - v + x) = 365 * (y + 1 - 1970) + (u + a) - (v + b) + (x + c)" for u v x :: int
    by (simp add: algebra_simps)
  show ?case unfolding sum yl nx step(2) by (rule add)
qed simp

lemma mktime_gmt_date:
  assumes "1970 \<le> y" and "m < 12"
  shows "mktime_gmt s mi h d (int m) (y - 1900) = day_number y m d * 86400 + h * 3600 + mi * 60 + s"
proof -
  have "int m div 12 = 0" "nat (int m mod 12) = m" using assms(2) by simp_all
  moreover have "month_lens y = [31, if y mod 4 = 0 \<and> (y mod 100 \<noteq> 0 \<or> y mod 400 = 0) then 29 else 28, 31, 30, 31, 30, 31,
      31, 30, 31, 30, 31]"
    using assms(1) by (simp add: month_lens_def isleap_def signed_modulo_int_def)
  ultimately show ?thesis by (simp add: mktime_gmt_def Let_def day_number_def years_sum [OF assms(1)])
qed

lemma prec_length: "0 \<le> n \<Longrightarrow> n < 10 ^ k \<Longrightarrow> 0 < k \<Longrightarrow> length (prec k n) = k"
  using dec_length [of "nat n" k] by (simp add: prec_def Let_def nat_less_iff)

lemma prec_digits: "0 \<le> n \<Longrightarrow> c \<in> set (prec k n) \<Longrightarrow> isdigit c"
  using dec_digits by (auto simp: prec_def Let_def isdigit_def split: if_splits)

text \<open>The server takes the second out of the text that the client made of it.\<close>

lemma time_parts_strctime:
  assumes "length a = 4" and "length b = 2" "length c = 2" "length d = 2" "length e = 2" "length f = 2"
    and "\<forall>x \<in> set (a @ b @ c @ d @ e @ f). isdigit x"
  shows "time_parts (a @ b @ c @ d @ e @ ''.'' @ f) = [a, b, c, d, e, f]"
proof -
  let ?s = "a @ b @ c @ d @ e @ ''.'' @ f"
  have "\<not> isdigit NL" by (simp add: isdigit_def)
  then have "NL \<notin> set ?s" using assms(7) by auto
  then have "time_fits (drop 0 ?s)" using assms by (auto simp: time_fits_def nth_append dest: in_set_takeD)
  moreover have "[0..<length ?s] = 0 # [1..<length ?s]" using upt_conv_Cons [of 0 "length ?s"] by simp
  ultimately have "find (\<lambda>k. time_fits (drop k ?s)) [0..<length ?s] = Some 0" by simp
  then show ?thesis using assms by (simp add: time_parts_def Let_def)
qed

definition sent_seconds :: "string \<Rightarrow> int" where
  "sent_seconds s = (let part = (\<lambda>k. perl_int (arg (time_parts s) k))
     in mktime_gmt (part 5) (part 4) (part 3) (part 2) (part 1 - 1) (part 0 - 1900))"

lemma sent_seconds_strctime:
  assumes "0 \<le> tv_sec t" and "tv_sec t < 253402300800"
  shows "sent_seconds (strctime t) = tv_sec t" and "spells (strctime t) (strctime t)" and "length (strctime t) = 15"
proof -
  from strctime_date [OF assms(1)] obtain y m d h mi sc where st: "strctime t = prec 4 y @ prec 2 (int m + 1) @ prec 2 d @
      prec 2 h @ prec 2 mi @ ''.'' @ prec 2 sc" and sec: "tv_sec t = day_number y m d * 86400 + h * 3600 + mi * 60 + sc"
    and y: "1970 \<le> y" "m < 12" "1 \<le> d" "d \<le> month_lens y ! m"
    and h: "0 \<le> h" "h < 24" "0 \<le> mi" "mi < 60" "0 \<le> sc" "sc < 60" by blast
  have d: "d \<le> 31" using months_cases [of m] y by (auto simp: month_lens_def nth_Cons' split: if_splits)
  have y4: "y < 10000"
  proof (rule ccontr)
    assume "\<not> y < 10000"
    then have "(\<Sum>i = 1970..<10000. year_len i) \<le> (\<Sum>i = 1970..<y. year_len i)"
      by (intro sum_mono2) (auto simp: year_len_def)
    moreover have "0 \<le> sum_list (take m (month_lens y))"
      by (intro sum_list_nonneg) (auto simp: month_lens_def dest!: in_set_takeD)
    ultimately have "2932897 \<le> day_number y m d" using y(3) years_sum [of 10000] by (simp add: day_number_def)
    then show False using sec h assms(2) by linarith
  qed
  have len: "length (prec 4 y) = 4" "length (prec 2 (int m + 1)) = 2" "length (prec 2 d) = 2" "length (prec 2 h) = 2"
    "length (prec 2 mi) = 2" "length (prec 2 sc) = 2"
    using y h d y4 by (simp_all add: prec_length)
  have dig: "\<forall>x \<in> set (prec 4 y @ prec 2 (int m + 1) @ prec 2 d @ prec 2 h @ prec 2 mi @ prec 2 sc). isdigit x"
    using prec_digits [of y] prec_digits [of "int m + 1"] prec_digits [of d] prec_digits [of h] prec_digits [of mi]
      prec_digits [of sc] y h by auto
  have parts: "time_parts (strctime t) = [prec 4 y, prec 2 (int m + 1), prec 2 d, prec 2 h, prec 2 mi, prec 2 sc]"
    unfolding st by (rule time_parts_strctime [OF len dig])
  have v: "perl_int (prec 4 y) = y" "perl_int (prec 2 (int m + 1)) = int m + 1" "perl_int (prec 2 d) = d" "perl_int (prec 2 h) = h"
    "perl_int (prec 2 mi) = mi" "perl_int (prec 2 sc) = sc"
    using y h d y4 by (simp_all add: perl_int_prec)
  show "sent_seconds (strctime t) = tv_sec t"
    using mktime_gmt_date [OF y(1,2), of sc mi h d] by (simp add: sent_seconds_def Let_def parts arg_def v sec)
  show "length (strctime t) = 15" using len by (simp add: st)
  have "\<not> isdigit SP" "\<not> isdigit NL" "\<not> isdigit QUOTE" by (simp_all add: isdigit_def)
  then have "\<forall>x \<in> set (strctime t). x \<noteq> SP \<and> x \<noteq> NL \<and> x \<noteq> QUOTE" using dig by (auto simp: st)
  then show "spells (strctime t) (strctime t)" using len(1) by (auto simp: spells_def st)
qed

section \<open>Operations on one path\<close>

text \<open>
  \<open>call\<close> is an operation on the path \<open>name\<close> that ended with the answer of the host's call \<open>r\<close>, after which the
  connection is free again.
\<close>

definition answered :: "perl_conn world \<Rightarrow> string \<Rightarrow> (int \<times> string \<times> perl_conn world) option \<Rightarrow> bool \<times> perl \<Rightarrow> bool" where
  "answered w name call r \<longleftrightarrow> (\<exists>w'. call = Some (if fst r then 0 else - EPERM, quoted name, w') \<and>
     conn_at pc_out pc_peer w' (snd r) [] \<and> same_but_conn w w')"

definition host_commands :: "string list" where
  "host_commands = [''s_lsdir'', ''s_stat'', ''s_mkdir'', ''s_rmdir'', ''s_ln'', ''s_sln'', ''s_readlink'', ''s_chmod'', ''s_chown'',
     ''s_chgrp'', ''s_settime'', ''s_statfs'']"

definition own_commands :: "string list" where
  "own_commands = [''s_init'', ''s_finish'', ''s_open'', ''s_read'', ''s_sread'', ''s_write'', ''s_mv'', ''s_rm'', ''s_creat'',
     ''s_trunc'', ''s_ping'']"

lemma host_commands_spell:
  assumes "cmd \<in> set host_commands" shows "spells cmd cmd" and "length cmd \<le> 100"
proof -
  have "list_all (\<lambda>s. s \<noteq> [] \<and> list_all (\<lambda>c. c \<noteq> SP \<and> c \<noteq> NL \<and> c \<noteq> QUOTE) s \<and> length s \<le> 100) host_commands"
    by code_simp
  with assms show "spells cmd cmd" "length cmd \<le> 100" by (auto simp: list_all_iff spells_def)
qed

lemma rest_command:
  assumes "cmd \<in> set host_commands" and "length cws = (if p_preserve p then 2 else 0)"
  shows "perl_command (perl_rest host) p (cmd # cws @ ws) = perl_rest host (cmd # ws) p"
proof -
  have "list_all (\<lambda>s. s \<notin> set own_commands) host_commands" by code_simp
  then have "cmd \<notin> set own_commands" using assms(1) by (auto simp: list_all_iff)
  moreover have "(if p_preserve p then drop 2 (cws @ ws) else cws @ ws) = ws" using assms(2) by (simp split: if_splits)
  ultimately show ?thesis unfolding perl_command_def list.case Let_def by (simp add: own_commands_def)
qed

lemma reply_501: "reply ''### 501'' = REP_EPERM" "reply ''### 503'' = REP_ENOENT"
  by code_simp+

lemma answer_line: "answer PERL_EPERM r = ((if fst r then ''### 200'' else ''### 501'') @ [NL], snd r)"
  by (simp add: answer_def)

lemma host_command:
  assumes w: "conn_at pc_out pc_peer w p []" "perl_ready p (preserve_own w)" "\<not> shfs_mutex w" "creds_ok w"
    and name: "NUL \<notin> set name" "length (quoted name) < SHFS_PATH_MAX" and cmd: "cmd \<in> set host_commands"
    and args: "list_all2 spells ats ws" "length (line_text ats) \<le> 1000"
      "args (quoted name) = line_text (quote1 (quoted name) # ats)"
    and r: "perl_rest host (cmd # name # ws) p = answer PERL_EPERM r"
  shows "answered w name (path_command (perl_so (perl_rest host)) w name cmd args) r"
proof -
  define line where "line = (if fst r then ''### 200'' else ''### 501'')"
  have ln: "NL \<notin> set line" "NUL \<notin> set line" "length line < 100" by (simp_all add: line_def)
  note c = host_commands_spell [OF cmd]
  have pc: "perl_command (perl_rest host) p (cmd # cws @ name # ws) = (line @ [NL], snd r)"
    if "length cws = (if p_preserve p then 2 else 0)" for cws
    unfolding rest_command [OF cmd that] r answer_line line_def ..
  have ex: "\<exists>w'. path_command (perl_so (perl_rest host)) w name cmd args = Some (command_result (reply line), quoted name, w') \<and>
      conn_at pc_out pc_peer w' (snd r) [] \<and> same_but_conn w w'"
    by (rule perl_path_command [where ats = ats and ws = ws, OF w name c _ _ _ _ ln]) (fact args pc)+
  have res: "command_result (reply line) = (if fst r then 0 else - EPERM)"
    by (simp add: command_result_def line_def reply_lines reply_501)
  from ex show ?thesis unfolding answered_def res .
qed

text \<open>
  C14: Operations that name one path reach the host with that path, whatever is in it, below the root.
\<close>

lemma host_calls:
  assumes w: "conn_at pc_out pc_peer w p []" "perl_ready p (preserve_own w)" "\<not> shfs_mutex w" "creds_ok w"
    and name: "NUL \<notin> set name" "length (quoted name) < SHFS_PATH_MAX" and ids: "user < 4294967296" "grp < 4294967296"
  shows "answered w name (shell_mkdir (perl_so (perl_rest host)) w name) (host_mkdir host (p_root p @ name) 0x1FF p) \<and>
    (if host_is_dir host (p_root p @ name) p
     then answered w name (shell_rmdir (perl_so (perl_rest host)) w name) (host_rmdir host (p_root p @ name) p)
     else \<exists>w'. shell_rmdir (perl_so (perl_rest host)) w name = Some (- ENOENT, quoted name, w') \<and>
       conn_at pc_out pc_peer w' p [] \<and> same_but_conn w w') \<and>
    answered w name (shell_chmod (perl_so (perl_rest host)) w name mode) (host_chmod host (unat mode) (p_root p @ name) p) \<and>
    answered w name (shell_chown (perl_so (perl_rest host)) w name user) (host_chown host (int user) (- 1) (p_root p @ name) p) \<and>
    answered w name (shell_chgrp (perl_so (perl_rest host)) w name grp) (host_chown host (- 1) (int grp) (p_root p @ name) p)"
proof (intro conjI)
  note cmd = host_command [where host = host, OF w name]
  have in_cmds: "list_all (\<lambda>s. s \<in> set host_commands) [''s_mkdir'', ''s_rmdir'', ''s_chmod'', ''s_chown'', ''s_chgrp'']" by code_simp
  show "answered w name (shell_mkdir (perl_so (perl_rest host)) w name) (host_mkdir host (p_root p @ name) 0x1FF p)"
    unfolding shell_mkdir_def
    by (rule cmd [where ats = "[]" and ws = "[]"]) (use in_cmds in \<open>simp_all add: perl_rest_def s_mkdir_def arg_def\<close>)
  show "answered w name (shell_chmod (perl_so (perl_rest host)) w name mode) (host_chmod host (unat mode) (p_root p @ name) p)"
    unfolding shell_chmod_def
    by (rule cmd [where ats = "[oct (unat mode)]" and ws = "[oct (unat mode)]"])
      (use in_cmds in \<open>simp_all add: perl_rest_def s_chmod_def arg_def spells_oct perl_oct_oct mode_length\<close>)
  show "answered w name (shell_chown (perl_so (perl_rest host)) w name user) (host_chown host (int user) (- 1) (p_root p @ name) p)"
    unfolding shell_chown_def
    by (rule cmd [where ats = "[dec user]" and ws = "[dec user]"])
      (use in_cmds dec32_length [OF ids(1)] ids in \<open>simp_all add: perl_rest_def s_chown_def arg_def perl_int_dec\<close>)
  show "answered w name (shell_chgrp (perl_so (perl_rest host)) w name grp) (host_chown host (- 1) (int grp) (p_root p @ name) p)"
    unfolding shell_chgrp_def
    by (rule cmd [where ats = "[dec grp]" and ws = "[dec grp]"])
      (use in_cmds dec32_length [OF ids(2)] ids in \<open>simp_all add: perl_rest_def s_chgrp_def arg_def perl_int_dec\<close>)
  show "if host_is_dir host (p_root p @ name) p
     then answered w name (shell_rmdir (perl_so (perl_rest host)) w name) (host_rmdir host (p_root p @ name) p)
     else \<exists>w'. shell_rmdir (perl_so (perl_rest host)) w name = Some (- ENOENT, quoted name, w') \<and>
       conn_at pc_out pc_peer w' p [] \<and> same_but_conn w w'"
  proof (cases "host_is_dir host (p_root p @ name) p")
    case True
    then have "answered w name (shell_rmdir (perl_so (perl_rest host)) w name) (host_rmdir host (p_root p @ name) p)"
      unfolding shell_rmdir_def
      by (intro cmd [where ats = "[]" and ws = "[]"]) (use in_cmds in \<open>simp_all add: perl_rest_def s_rmdir_def arg_def\<close>)
    with True show ?thesis by simp
  next
    case False
    have c: "''s_rmdir'' \<in> set host_commands" using in_cmds by simp
    have "\<exists>w'. path_command (perl_so (perl_rest host)) w name ''s_rmdir'' quote1 =
        Some (command_result (reply ''### 503''), quoted name, w') \<and> conn_at pc_out pc_peer w' p [] \<and> same_but_conn w w'"
      by (rule perl_path_command [where args = quote1 and ats = "[]" and ws = "[]", OF w name host_commands_spell [OF c]])
        (use rest_command [OF c] False in \<open>simp_all add: perl_rest_def s_rmdir_def arg_def\<close>)
    with False show ?thesis by (simp add: shell_rmdir_def command_result_def reply_501)
  qed
qed

text \<open>
  C15: The time goes to the server as a text of the calendar; the host is told the same second again, and keeps the
  time that was not meant.
\<close>

lemma settime_exact:
  assumes w: "conn_at pc_out pc_peer w p []" "perl_ready p (preserve_own w)" "\<not> shfs_mutex w" "creds_ok w"
    and name: "NUL \<notin> set name" "length (quoted name) < SHFS_PATH_MAX" and at: "a \<or> m"
    and t: "0 \<le> tv_sec t" "tv_sec t < 253402300800" and old: "host_times host (p_root p @ name) p = Some (old_atime, old_mtime)"
  shows "answered w name (shell_settime (perl_so (perl_rest host)) w name a m t)
    (host_utime host (if a then tv_sec t else old_atime) (if m then tv_sec t else old_mtime) (p_root p @ name) p)"
proof -
  define type where "type = (if a then ''a'' else []) @ (if m then ''m'' else [])"
  have in_cmds: "''s_settime'' \<in> set host_commands" by code_simp
  note sent = sent_seconds_strctime [OF t]
  have sp: "spells type type" using at by (auto simp: type_def spells_def)
  have len: "length (line_text [type, strctime t]) \<le> 1000" using sent(3) by (simp add: type_def)
  have r: "perl_rest host (''s_settime'' # name # [type, strctime t]) p = answer PERL_EPERM
      (host_utime host (if a then tv_sec t else old_atime) (if m then tv_sec t else old_mtime) (p_root p @ name) p)"
    using at sent(1) old by (auto simp: perl_rest_def s_settime_def arg_def sent_seconds_def Let_def type_def)
  show ?thesis unfolding shell_settime_def
    by (rule host_command [where ats = "[type, strctime t]" and ws = "[type, strctime t]", OF w name in_cmds _ len _ r])
      (simp_all add: sp sent(2), simp add: quote1_def type_def)
qed

text \<open>A listing is what \<open>ls\<close> prints of the directory, which is what \<open>DirServer\<close> reads directories from.\<close>

lemma lsdir_lists:
  assumes "host_is_dir host (p_root p @ name) p" and "\<not> p_stable p"
    and "host_ls host ''-lan'' (p_root p @ name) p = (True, concat (map (\<lambda>l. l @ [NL]) ls))"
  shows "perl_rest host [''s_lsdir'', name] p = (listing_text ls, p)"
  using assms by (simp add: perl_rest_def s_lsdir_def arg_def listing_text_def)

section \<open>Links\<close>

lemma line_two: "line_text [a, b] = a @ [SP] @ b" by simp

lemma two_path_answered:
  assumes w: "conn_at pc_out pc_peer w p []" "perl_ready p (preserve_own w)" "\<not> shfs_mutex w" "creds_ok w"
    and old: "NUL \<notin> set old" "length (quoted old) < SHFS_PATH_MAX"
    and new: "NUL \<notin> set new" "length (quoted new) < SHFS_PATH_MAX" and cmd: "cmd \<in> set host_commands"
    and r: "perl_rest host [cmd, old, new] p = answer PERL_EPERM r"
  shows "\<exists>w'. two_path_command (perl_so (perl_rest host)) w old new cmd =
      Some (if fst r then 0 else - EPERM, quoted old, quoted new, w') \<and> conn_at pc_out pc_peer w' (snd r) [] \<and> same_but_conn w w'"
proof -
  let ?so = "perl_so (perl_rest host)" and ?ats = "[quote1 (quoted old), quote1 (quoted new)]"
  define line where "line = (if fst r then ''### 200'' else ''### 501'')"
  have ln: "NL \<notin> set line" "NUL \<notin> set line" "length line < 100" by (simp_all add: line_def)
  note c = host_commands_spell [OF cmd]
  have react: "perl_react (perl_rest host) p (cmd @ u @ line_text ?ats @ [NL]) = (line @ [NL], snd r)"
    if u: "cred_words (preserve_own w) ts u" for u ts
  proof -
    have al: "list_all2 spells ?ats [old, new]" by (simp add: quote1_def)
    obtain cws where "length cws = (if p_preserve p then 2 else 0)"
      "perl_react (perl_rest host) p (cmd @ u @ line_text ?ats @ [NL]) = perl_command (perl_rest host) p (cmd # cws @ [old, new])"
      using command_words [OF w(2) u al _ c(1), of "perl_rest host"] by blast
    with rest_command [OF cmd, of cws p host "[old, new]"] r show ?thesis by (simp only: answer_line line_def)
  qed
  have len: "length (line_text ?ats) \<le> 1800" using old(2) new(2) by (simp add: quote1_def)
  have "\<exists>w'. do_command ?so w cmd (line_text ?ats) = Some (command_result (reply line), w') \<and>
      conn_at pc_out pc_peer w' (snd r) [] \<and> same_but_conn w w'"
    by (rule perl.do_command_ok [OF w(1,3,4) c(2) len _ ln]) (rule react)
  then obtain w' where w': "do_command ?so w cmd (line_text ?ats) = Some (command_result (reply line), w')"
    "conn_at pc_out pc_peer w' (snd r) []" "same_but_conn w w'" by blast
  have res: "command_result (reply line) = (if fst r then 0 else - EPERM)"
    by (simp add: command_result_def line_def reply_lines reply_501)
  show ?thesis
    using w' check_path_ok [OF old] check_path_ok [OF new] unfolding res line_two by (simp add: two_path_command_def)
qed

text \<open>A target that the client takes for one: a line of its own, and no answer of the protocol.\<close>

definition link_text :: "string \<Rightarrow> bool" where
  "link_text t \<longleftrightarrow> t \<noteq> [] \<and> t \<noteq> ''0'' \<and> NL \<notin> set t \<and> NUL \<notin> set t \<and> length t < SHFS_PATH_MAX \<and>
     reply t \<noteq> REP_COMPLETE \<and> reply t \<noteq> REP_EPERM"

context connection
begin

lemma readlink_ok:
  assumes w: "conn_at outq core w s []" "\<not> shfs_mutex w" "creds_ok w"
    and name: "NUL \<notin> set name" "length (quoted name) < SHFS_PATH_MAX"
    and real: "NUL \<notin> set real" "length (quoted real) < SHFS_PATH_MAX" and t: "link_text t"
    and r: "\<And>u ts. cred_words (preserve_own w) ts u \<Longrightarrow>
      react s (''s_readlink'' @ u @ quote1 (quoted name) @ [NL]) = (t @ [NL] @ ''### 200'' @ [NL], s)"
  shows "\<exists>w'. shell_readlink so w name real = Some (0, quoted name, t, w') \<and> conn_at outq core w' s [] \<and> same_but_conn w w'"
proof -
  let ?w = "w\<lparr>shfs_mutex := True\<rparr>"
  have w': "conn_at outq core ?w s []" "creds_ok ?w" "preserve_own ?w = preserve_own w"
    using w creds_ok_cong [of ?w w] by (simp_all add: conn_at_def)
  obtain u ts where u: "command_head ?w ''s_readlink'' = Some (''s_readlink'' @ u)" "length u < 3072"
    "cred_words (preserve_own w) ts u"
    using creds_head [OF w'(2), of "''s_readlink''"] w'(3) by auto
  let ?cmd = "(''s_readlink'' @ u) @ quote1 (quoted name) @ [NL]"
  have room: "\<not> length (''s_readlink'' @ u) + length (quoted name) + 4 > SOCKBUF_SIZE" using u(2) name(2) by simp
  have re: "react s ?cmd = (t @ [NL] @ ''### 200'' @ [NL], s)" using r [OF u(3)] by simp
  obtain w1 where w1: "sock_write so ?w ?cmd = Some (int (length ?cmd), w1)"
    "conn_at outq core w1 s (t @ NL # ''### 200'' @ NL # [])" "same_but_conn ?w w1"
    using write_ok [OF w'(1) re] by auto
  have tl: "NL \<notin> set t" "NUL \<notin> set t" "length t < SOCKBUF_SIZE" "length t < READLNBUF_SIZE" "take (SHFS_PATH_MAX - 1) t = t"
    and tr: "reply t \<noteq> REP_COMPLETE" "reply t \<noteq> REP_EPERM"
    using t by (simp_all add: link_text_def)
  obtain w2 where w2: "sock_readln so w1 ?cmd SOCKBUF_SIZE = Some (int (length t), t, w2)"
    "conn_at outq core w2 s (''### 200'' @ NL # [])" "same_but_conn w1 w2"
    using readln_ok [OF w1(2) tl(1-4)] by blast
  have ln: "NL \<notin> set ''### 200''" "NUL \<notin> set ''### 200''" "length ''### 200'' < SOCKBUF_SIZE" "length ''### 200'' < READLNBUF_SIZE"
    by simp_all
  obtain w3 where w3: "sock_readln so w2 t SOCKBUF_SIZE = Some (int (length ''### 200''), ''### 200'', w3)"
    "conn_at outq core w3 s []" "same_but_conn w2 w3"
    using readln_ok [OF w2(2) ln] by blast
  have nn: "\<not> int (length ?cmd) < 0" "\<not> int (length t) < 0" "\<not> int (length ''### 200'') < 0" by simp_all
  have "locked w (quoted real) (\<lambda>w.
      case command_head w ''s_readlink'' of None \<Rightarrow> Some (- ENAMETOOLONG, quoted real, w)
      | Some s \<Rightarrow>
         if length s + length (quoted name) + 4 > SOCKBUF_SIZE then Some (- ENAMETOOLONG, quoted real, w)
         else let sockbuf = s @ quote1 (quoted name) @ [NL] in do {
           (result, w1) \<leftarrow> sock_write so w sockbuf;
           if result < 0 then Some (result, quoted real, w1)
           else do {
             (result, line, w2) \<leftarrow> sock_readln so w1 sockbuf SOCKBUF_SIZE;
             if result < 0 then Some (result, quoted real, w2)
             else if reply line = REP_COMPLETE then Some (- EIO, quoted real, w2)
             else if reply line = REP_EPERM then Some (- EPERM, quoted real, w2)
             else let real2 = take (SHFS_PATH_MAX - 1) line in do {
               (result, line2, w3) \<leftarrow> sock_readln so w2 line SOCKBUF_SIZE;
               if result < 0 then Some (result, real2, w3)
               else if reply line2 = REP_COMPLETE then Some (0, real2, w3)
               else if reply line2 = REP_EPERM then Some (- EPERM, real2, w3)
               else Some (- EIO, real2, w3\<lparr>garbage := True\<rparr>)
             }
           }
         }) = Some (0, t, sock_unlock w3)"
    by (rule locked_ok [OF w(2)])
      (simp only: u(1) option.case if_not_P [OF room] Let_def w1(1) w2(1) w3(1) if_not_P [OF nn(1)] if_not_P [OF nn(2)]
        if_not_P [OF nn(3)] if_not_P [OF tr(1)] if_not_P [OF tr(2)] tl(5) Option.bind.bind_lunit prod.case reply_lines(2) if_True simp_thms)
  then have "shell_readlink so w name real = Some (0, quoted name, t, sock_unlock w3)"
    unfolding shell_readlink_def check_path_ok [OF name] check_path_ok [OF real] prod.case by simp
  moreover have "conn_at outq core (sock_unlock w3) s []" using w3(2) by (simp add: conn_at_def sock_unlock_def)
  moreover have "same_but_conn w (sock_unlock w3)"
    by (rule unlock_same [OF w(2) same_but_conn_trans [OF w1(3) same_but_conn_trans [OF w2(3) w3(3)]]])
  ultimately show ?thesis by blast
qed

end

text \<open>
  C16: A symbolic link made through the client is read back with the text it was made with, if the host keeps
  it; a hard link is made to a path outside the root, since the server puts no root before it.
\<close>

lemma links_over_perl:
  assumes w: "conn_at pc_out pc_peer w p []" "perl_ready p (preserve_own w)" "\<not> shfs_mutex w" "creds_ok w"
    and old: "link_text old" "length (quoted old) < SHFS_PATH_MAX" and new: "NUL \<notin> set new" "length (quoted new) < SHFS_PATH_MAX"
    and real: "NUL \<notin> set real" "length (quoted real) < SHFS_PATH_MAX"
    and made: "host_symlink host old (p_root p @ new) p = (True, p')" and keeps: "perl_ready p' (preserve_own w)" "p_root p' = p_root p"
      "host_readlink host (p_root p @ new) p' = Some old"
  shows "(\<exists>w' w''. shell_symlink (perl_so (perl_rest host)) w old new = Some (0, quoted old, quoted new, w') \<and>
      shell_readlink (perl_so (perl_rest host)) w' new real = Some (0, quoted new, old, w'') \<and>
      conn_at pc_out pc_peer w'' p' [] \<and> same_but_conn w w'') \<and>
    (\<exists>w'. shell_link (perl_so (perl_rest host)) w old new =
        Some (if fst (host_link host old (p_root p @ new) p) then 0 else - EPERM, quoted old, quoted new, w') \<and>
      conn_at pc_out pc_peer w' (snd (host_link host old (p_root p @ new) p)) [] \<and> same_but_conn w w')"
proof
  have nul: "NUL \<notin> set old" using old(1) by (simp add: link_text_def)
  have cmds: "''s_sln'' \<in> set host_commands" "''s_ln'' \<in> set host_commands" "''s_readlink'' \<in> set host_commands" by code_simp+
  note two = two_path_answered [where host = host, OF w nul old(2) new]
  have "perl_rest host [''s_ln'', old, new] p = answer PERL_EPERM (host_link host old (p_root p @ new) p)"
    by (simp add: perl_rest_def s_ln_def arg_def)
  from two [OF cmds(2) this] show "\<exists>w'. shell_link (perl_so (perl_rest host)) w old new =
        Some (if fst (host_link host old (p_root p @ new) p) then 0 else - EPERM, quoted old, quoted new, w') \<and>
      conn_at pc_out pc_peer w' (snd (host_link host old (p_root p @ new) p)) [] \<and> same_but_conn w w'"
    by (simp only: shell_link_def)
  have "perl_rest host [''s_sln'', old, new] p = answer PERL_EPERM (True, p')"
    using made by (simp add: perl_rest_def s_sln_def arg_def)
  from two [OF cmds(1) this] obtain w' where w': "shell_symlink (perl_so (perl_rest host)) w old new = Some (0, quoted old, quoted new, w')"
    "conn_at pc_out pc_peer w' p' []" "same_but_conn w w'" by (auto simp: shell_symlink_def)
  note same = same_but_connD [OF w'(3)]
  have v: "\<not> shfs_mutex w'" "creds_ok w'" "preserve_own w' = preserve_own w" using same w(3,4) creds_ok_cong [of w' w] by simp_all
  have react: "perl_react (perl_rest host) p' (''s_readlink'' @ u @ quote1 (quoted new) @ [NL]) = (old @ [NL] @ ''### 200'' @ [NL], p')"
    if u: "cred_words (preserve_own w') ts u" for u ts
  proof -
    have al: "list_all2 spells [quote1 (quoted new)] [new]" by (simp add: quote1_def)
    note sp = host_commands_spell(1) [OF cmds(3)]
    obtain cws where "length cws = (if p_preserve p' then 2 else 0)"
      "perl_react (perl_rest host) p' (''s_readlink'' @ u @ line_text [quote1 (quoted new)] @ [NL]) =
        perl_command (perl_rest host) p' (''s_readlink'' # cws @ [new])"
      using command_words [OF keeps(1) u [unfolded v(3)] al _ sp, of "perl_rest host"] by blast
    moreover have "perl_rest host [''s_readlink'', new] p' = (old @ [NL] @ ''### 200'' @ [NL], p')"
      using old(1) keeps(2,3) by (simp add: perl_rest_def s_readlink_def arg_def link_text_def)
    ultimately show ?thesis using rest_command [OF cmds(3), of cws p' host "[new]"] by simp
  qed
  have "\<exists>w''. shell_readlink (perl_so (perl_rest host)) w' new real = Some (0, quoted new, old, w'') \<and>
      conn_at pc_out pc_peer w'' p' [] \<and> same_but_conn w' w''"
    by (rule perl.readlink_ok [OF w'(2) v(1,2) new real old(1)]) (rule react)
  with w' show "\<exists>w' w''. shell_symlink (perl_so (perl_rest host)) w old new = Some (0, quoted old, quoted new, w') \<and>
      shell_readlink (perl_so (perl_rest host)) w' new real = Some (0, quoted new, old, w'') \<and>
      conn_at pc_out pc_peer w'' p' [] \<and> same_but_conn w w''"
    using same_but_conn_trans by blast
qed

end
