(* ===== verification/ExampleHost.thy ===== *)
theory ExampleHost
  imports PerlHostSpec Instances
begin

text \<open>
  A remote host that keeps symbolic links among its files and refuses nothing, and the properties of the
  commands that call the host applied on it.
\<close>

definition ex_host_calls :: perl_host where
  "ex_host_calls = \<lparr>host_exists = \<lambda>_ _. True, host_is_dir = \<lambda>_ _. True, host_ls = \<lambda>_ _ _. (True, []),
     host_mkdir = \<lambda>_ _ p. (True, p), host_rmdir = \<lambda>_ p. (True, p), host_link = \<lambda>_ _ p. (False, p),
     host_symlink = \<lambda>t path p. (True, p\<lparr>p_files := (p_files p)(path := Some t)\<rparr>), host_readlink = \<lambda>path p. p_files p path,
     host_chmod = \<lambda>_ _ p. (True, p), host_chown = \<lambda>_ _ _ p. (False, p), host_times = \<lambda>_ _. Some (1, 2),
     host_utime = \<lambda>_ _ _ p. (True, p), host_df = \<lambda>_ _. None\<rparr>"

lemma ex_free: "conn_at pc_out pc_peer ex_world ex_perl []" "perl_ready ex_perl (preserve_own ex_world)" "\<not> shfs_mutex ex_world"
  "creds_ok ex_world"
  using ex_at by (simp_all add: perl_at_def)

theorem host_calls_witness:
  "answered ex_world ''/d'' (shell_mkdir (perl_so (perl_rest ex_host_calls)) ex_world ''/d'')
      (host_mkdir ex_host_calls (p_root ex_perl @ ''/d'') 0x1FF ex_perl) \<and>
    (if host_is_dir ex_host_calls (p_root ex_perl @ ''/d'') ex_perl
     then answered ex_world ''/d'' (shell_rmdir (perl_so (perl_rest ex_host_calls)) ex_world ''/d'')
       (host_rmdir ex_host_calls (p_root ex_perl @ ''/d'') ex_perl)
     else \<exists>w'. shell_rmdir (perl_so (perl_rest ex_host_calls)) ex_world ''/d'' = Some (- ENOENT, quoted ''/d'', w') \<and>
       conn_at pc_out pc_peer w' ex_perl [] \<and> same_but_conn ex_world w') \<and>
    answered ex_world ''/d'' (shell_chmod (perl_so (perl_rest ex_host_calls)) ex_world ''/d'' 0x1ED)
      (host_chmod ex_host_calls (unat (0x1ED :: umode)) (p_root ex_perl @ ''/d'') ex_perl) \<and>
    answered ex_world ''/d'' (shell_chown (perl_so (perl_rest ex_host_calls)) ex_world ''/d'' 1000)
      (host_chown ex_host_calls (int 1000) (- 1) (p_root ex_perl @ ''/d'') ex_perl) \<and>
    answered ex_world ''/d'' (shell_chgrp (perl_so (perl_rest ex_host_calls)) ex_world ''/d'' 100)
      (host_chown ex_host_calls (- 1) (int 100) (p_root ex_perl @ ''/d'') ex_perl)"
  by (rule host_calls [OF ex_free]) (simp_all add: quote_char_def)

theorem settime_exact_witness:
  "answered ex_world ''/f'' (shell_settime (perl_so (perl_rest ex_host_calls)) ex_world ''/f'' False True ex_time)
    (host_utime ex_host_calls (if False then tv_sec ex_time else 1) (if True then tv_sec ex_time else 2)
      (p_root ex_perl @ ''/f'') ex_perl)"
  by (rule settime_exact [OF ex_free]) (simp_all add: quote_char_def ex_time_def ex_host_calls_def)

theorem links_over_perl_witness:
  "(\<exists>w' w''. shell_symlink (perl_so (perl_rest ex_host_calls)) ex_world ''it'' ''/l'' = Some (0, quoted ''it'', quoted ''/l'', w') \<and>
      shell_readlink (perl_so (perl_rest ex_host_calls)) w' ''/l'' [] = Some (0, quoted ''/l'', ''it'', w'') \<and>
      conn_at pc_out pc_peer w'' (ex_perl\<lparr>p_files := (p_files ex_perl)(p_root ex_perl @ ''/l'' := Some ''it'')\<rparr>) [] \<and>
      same_but_conn ex_world w'') \<and>
    (\<exists>w'. shell_link (perl_so (perl_rest ex_host_calls)) ex_world ''it'' ''/l'' =
        Some (if fst (host_link ex_host_calls ''it'' (p_root ex_perl @ ''/l'') ex_perl) then 0 else - EPERM, quoted ''it'', quoted ''/l'', w') \<and>
      conn_at pc_out pc_peer w' (snd (host_link ex_host_calls ''it'' (p_root ex_perl @ ''/l'') ex_perl)) [] \<and> same_but_conn ex_world w')"
proof (rule links_over_perl [OF ex_free])
  show "link_text ''it''" by (simp add: link_text_def reply_def starts_with_def)
  show "perl_ready (ex_perl\<lparr>p_files := (p_files ex_perl)(p_root ex_perl @ ''/l'' := Some ''it'')\<rparr>) (preserve_own ex_world)"
    using ex_free(2) by (simp add: perl_ready_def perl_idle_def)
qed (simp_all add: quote_char_def ex_host_calls_def)

end
