(* ===== verification/FileVfs.thy ===== *)
theory FileVfs
  imports DirSpec
begin

text \<open>
  Open files on the store of dentries and inodes: the operations of \<open>file.c\<close> the kernel calls when a file
  is opened, flushed and given up. They reach the file cache through the dentry of the file; the page
  cache between (\<open>filemap_fdatawrite\<close>) is not modelled.
\<close>

section \<open>The file of a dentry\<close>

text \<open>
  The file cache works on \<open>f->f_dentry\<close>: the names on its path and its inode. What an operation makes
  of the inode goes back to the store.
\<close>

definition file_dentry :: "'f vfs \<Rightarrow> nat \<Rightarrow> dentry option" where
  "file_dentry v d = do {
     ns \<leftarrow> d_path v d;
     Some \<lparr>d_names = ns, d_inode = map_option (\<lambda>(_, vn). vn_inode vn) (dentry_inode v d)\<rparr>
   }"

definition put_inode :: "nat \<Rightarrow> dentry option \<Rightarrow> 'f vfs \<Rightarrow> 'f vfs" where
  "put_inode d fd v =
    (case dentry_inode v d of None \<Rightarrow> v
     | Some (a, _) \<Rightarrow> (case fd of None \<Rightarrow> v
        | Some e \<Rightarrow> (case d_inode e of None \<Rightarrow> v | Some i \<Rightarrow> upd_inode a (\<lambda>vn. vn\<lparr>vn_inode := i\<rparr>) v)))"

text \<open>The address of the inode of the dentry's parent; there is one (else an oops).\<close>

definition parent_inode :: "'f vfs \<Rightarrow> nat \<Rightarrow> nat option" where
  "parent_inode v d = do { n \<leftarrow> v_dentry v d; (a, _) \<leftarrow> dentry_inode v (dn_parent n); Some a }"

section \<open>Opening\<close>

abbreviation O_ACCMODE :: nat where "O_ACCMODE \<equiv> 3"

text \<open>
  \<open>shfs_file_open\<close>: the second component says whether the operations of the file are now the slow ones.
  Here alone the result of \<open>get_name\<close> is tested for 0.
\<close>

definition shfs_file_open ::
  "'f world shfs_fileops \<Rightarrow> allocator \<Rightarrow> nat \<Rightarrow> nat \<Rightarrow> 'f vfs \<Rightarrow> (int \<times> bool \<times> 'f vfs) option" where
  "shfs_file_open fops mm flags d v =
    (let mode = flags AND O_ACCMODE in
     if (mode = 1 \<or> mode = 2) \<and> readonly (v_sb v) then Some (- EROFS, False, v)
     else do {
       (gn, name) \<leftarrow> vfs_name v d;
       if gn = 0 then Some (- ENAMETOOLONG, False, v)
       else do {
         (result, _, w1) \<leftarrow> op_open fops (v_sb v) (c_str name) mode;
         let v1 = v\<lparr>v_sb := w1\<rparr>;
         let slow = (result = 1 \<and> dentry_inode v1 d \<noteq> None);
         let result1 = (if result = 1 then 0 else result);
         v2 \<leftarrow> (if result1 = 0 \<and> fcache_size w1 \<noteq> 0 then do {
              fd \<leftarrow> file_dentry v1 d;
              (case fcache_file_open mm w1 (Some fd) of (_, fd1, w2) \<Rightarrow> Some (put_inode d fd1 (v1\<lparr>v_sb := w2\<rparr>)))
            } else Some v1);
         if result1 \<ge> 0 then do { v3 \<leftarrow> shfs_renew_times d v2; Some (result1, slow, v3) }
         else Some (result1, slow, v2)
       }
     })"

section \<open>Flushing and giving up\<close>

text \<open>
  The common part of \<open>do_file_flush\<close> and \<open>shfs_file_release\<close>: the cache's operation, then on an error the
  listing of the directory is made to expire, and on success the lock is taken around the page cache's
  write-back.
\<close>

definition flush_with ::
  "('f world \<Rightarrow> dentry option \<Rightarrow> (int \<times> dentry option \<times> 'f world) option) \<Rightarrow> nat \<Rightarrow> 'f vfs \<Rightarrow> (int \<times> 'f vfs) option" where
  "flush_with sync d v =
    (if fcache_size (v_sb v) = 0 then Some (0, v)
     else do {
       fd \<leftarrow> file_dentry v d;
       (result, fd1, w1) \<leftarrow> sync (v_sb v) (Some fd);
       let v1 = put_inode d fd1 (v\<lparr>v_sb := w1\<rparr>);
       if result < 0 then do { a \<leftarrow> parent_inode v1 d; Some (result, shfs_invalid_dir_cache a v1) }
       else if result = 0 then do {
         w2 \<leftarrow> mutex_lock (v_sb v1);
         Some (0, v1\<lparr>v_sb := mutex_unlock w2\<rparr>)
       }
       else Some (result, v1)
     })"

definition do_file_flush :: "'f world shfs_fileops \<Rightarrow> nat \<Rightarrow> 'f vfs \<Rightarrow> (int \<times> 'f vfs) option" where
  "do_file_flush fops d v = do {
     (result, v1) \<leftarrow> flush_with (fcache_file_sync fops (v_stk v)) d v;
     Some (if result < 0 then result else 0, v1)
   }"

definition shfs_file_flush :: "'f world shfs_fileops \<Rightarrow> nat \<Rightarrow> 'f vfs \<Rightarrow> (int \<times> 'f vfs) option" where
  "shfs_file_flush = do_file_flush"

text \<open>A permission forced on by \<open>shfs_create\<close> is taken back on the remote side and in the inode.\<close>

definition unset_write :: "'f world shfs_fileops \<Rightarrow> nat \<Rightarrow> 'f vfs \<Rightarrow> 'f vfs option" where
  "unset_write fops d v =
    (case dentry_inode v d of None \<Rightarrow> Some v
     | Some (a, vn) \<Rightarrow>
        (case i_private (vn_inode vn) of None \<Rightarrow> Some v
         | Some p \<Rightarrow>
            if \<not> unset_write_on_close p then Some v
            else do {
              (gn, name) \<leftarrow> vfs_name v d;
              if gn < 0 then Some v
              else do {
                (result, _, w1) \<leftarrow> op_chmod fops (v_sb v) (c_str name) (i_mode (vn_inode vn) AND NOT S_IWUSR);
                let v1 = v\<lparr>v_sb := w1\<rparr>;
                Some (if result < 0 then v1
                  else upd_inode a (\<lambda>vn. vn\<lparr>vn_inode := (vn_inode vn)\<lparr>i_mode := i_mode (vn_inode vn) AND NOT S_IWUSR\<rparr>\<rparr>) v1)
              }
            }))"

definition shfs_file_release :: "'f world shfs_fileops \<Rightarrow> nat \<Rightarrow> 'f vfs \<Rightarrow> (int \<times> 'f vfs) option" where
  "shfs_file_release fops d v = do {
     (_, v1) \<leftarrow> flush_with (fcache_file_close fops (v_stk v)) d v;
     v2 \<leftarrow> unset_write fops d v1;
     Some (0, v2)
   }"

definition shfs_file_sync :: int where
  "shfs_file_sync = 0"

text \<open>\<open>shfs_slow_write\<close>; \<open>do_write\<close> is the kernel's \<open>do_sync_write\<close> on the file.\<close>

definition shfs_slow_write ::
  "('f vfs \<Rightarrow> (int \<times> 'f vfs) option) \<Rightarrow> 'f world shfs_fileops \<Rightarrow> nat \<Rightarrow> 'f vfs \<Rightarrow> (int \<times> 'f vfs) option" where
  "shfs_slow_write do_write fops d v = do {
     (written, v1) \<leftarrow> do_write v;
     if written > 0 then do {
       (result, v2) \<leftarrow> do_file_flush fops d v1;
       Some (if result < 0 then result else written, v2)
     }
     else Some (written, v1)
   }"

section \<open>Properties\<close>

lemma file_dentryI:
  "d_path v d = Some ns \<Longrightarrow> dentry_inode v d = Some (a, vn) \<Longrightarrow>
    file_dentry v d = Some \<lparr>d_names = ns, d_inode = Some (vn_inode vn)\<rparr>"
  by (simp add: file_dentry_def)

lemma dentry_inode_put:
  assumes "dentry_inode v d = Some (a, vn)" and "d_inode e = Some i"
  shows "put_inode d (Some e) (v\<lparr>v_sb := w\<rparr>) = upd_inode a (\<lambda>vn. vn\<lparr>vn_inode := i\<rparr>) (v\<lparr>v_sb := w\<rparr>)"
    and "dentry_inode (put_inode d (Some e) (v\<lparr>v_sb := w\<rparr>)) d = Some (a, vn\<lparr>vn_inode := i\<rparr>)"
proof -
  have di: "dentry_inode (v\<lparr>v_sb := w\<rparr>) d = Some (a, vn)" using assms(1) by (simp add: dentry_inode_def)
  then show "put_inode d (Some e) (v\<lparr>v_sb := w\<rparr>) = upd_inode a (\<lambda>vn. vn\<lparr>vn_inode := i\<rparr>) (v\<lparr>v_sb := w\<rparr>)"
    using assms(2) by (simp add: put_inode_def)
  then show "dentry_inode (put_inode d (Some e) (v\<lparr>v_sb := w\<rparr>)) d = Some (a, vn\<lparr>vn_inode := i\<rparr>)"
    using assms(1) by (auto simp: dentry_inode_def vfs_simps elim!: bind_SomeE)
qed

lemma lock_unlock: "\<not> shfs_mutex w \<Longrightarrow> mutex_lock w = Some (w\<lparr>shfs_mutex := True\<rparr>)"
  "\<not> shfs_mutex w \<Longrightarrow> mutex_unlock (w\<lparr>shfs_mutex := True\<rparr>) = w"
  by (simp_all add: mutex_lock_def mutex_unlock_def)

text \<open>When the cache's operation succeeds, the file has the inode it leaves, and the lock is free again.\<close>

lemma flush_with_ok:
  assumes v: "vfs_ok v" "d_path v d = Some ns" "dentry_inode v d = Some (a, vn)" "fcache_size (v_sb v) \<noteq> 0"
    and sync: "sync (v_sb v) (Some \<lparr>d_names = ns, d_inode = Some (vn_inode vn)\<rparr>) = Some (0, Some e, w1)"
      "d_inode e = Some i" "i_private i \<noteq> None" "\<not> shfs_mutex w1"
  shows "\<exists>v1. flush_with sync d v = Some (0, v1) \<and> v_sb v1 = w1 \<and> vfs_ok v1 \<and> v_stk v1 = v_stk v \<and>
    dentry_inode v1 d = Some (a, vn\<lparr>vn_inode := i\<rparr>) \<and> d_path v1 d = Some ns"
proof -
  define v1 where "v1 = upd_inode a (\<lambda>vn. vn\<lparr>vn_inode := i\<rparr>) (v\<lparr>v_sb := w1\<rparr>)"
  note put = dentry_inode_put [OF v(3) sync(2), of w1, folded v1_def]
  have sb: "v_sb v1 = w1" "v_stk v1 = v_stk v" by (simp_all add: v1_def vfs_simps)
  have "v1\<lparr>v_sb := w1\<rparr> = v1" using sb by (cases v1) simp
  then have "flush_with sync d v = Some (0, v1)"
    using v(4) sync(1,4) lock_unlock [OF sync(4)]
    by (simp add: flush_with_def file_dentryI [OF v(2,3)] put(1) sb)
  moreover have "vfs_ok v1" unfolding v1_def by (rule vfs_ok_upd_inode) (use v(1) sync(3) in \<open>simp_all add: has_info_def\<close>)
  moreover have same: "d_path v1 d = Some ns"
  proof -
    have "same_tree v v1" by (rule same_tree_eq) (simp add: v1_def vfs_simps)
    moreover have "v_dentry v d \<noteq> None" using v(3) by (auto simp: dentry_inode_def elim!: bind_SomeE)
    ultimately show ?thesis using d_path_cong [OF v(1), of d v1] v(2) by simp
  qed
  ultimately show ?thesis using sb put by auto
qed

text \<open>The cache's operations leave the rest of the private data alone.\<close>

lemma sync_keeps_flag:
  assumes "fcache_file_sync fops stk w (Some d) = Some (r, Some d', w')" and "d_inode d = Some i" and "i_private i = Some p"
  shows "\<exists>i' p'. d_inode d' = Some i' \<and> i_private i' = Some p' \<and> unset_write_on_close p' = unset_write_on_close p"
proof (cases "S_ISDIR (i_mode i) \<or> cache p = None")
  case True
  with assms show ?thesis by (auto simp: fcache_file_sync_def fcache_inode_def inode_info_ok_def split: if_splits)
next
  case False
  then obtain c where "cache p = Some c" "inode_info_ok i = Some p" using assms(3) by (auto simp: inode_info_ok_def)
  with assms show ?thesis
    by (auto simp: fcache_file_sync_def fcache_inode_def set_cache_def split: if_splits prod.splits elim!: bind_SomeE)
qed

lemma close_keeps_flag:
  assumes "fcache_file_close fops stk w (Some d) = Some (r, Some d', w')" and "d_inode d = Some i" and "i_private i = Some p"
  shows "\<exists>i' p'. d_inode d' = Some i' \<and> i_private i' = Some p' \<and> unset_write_on_close p' = unset_write_on_close p"
proof -
  obtain r1 fd1 w1 where s: "fcache_file_sync fops stk w (Some d) = Some (r1, fd1, w1)"
    using assms(1) by (auto simp: fcache_file_close_def elim!: bind_SomeE)
  show ?thesis
  proof (cases fd1)
    case None
    then show ?thesis using assms(1) s by (auto simp: fcache_file_close_def fcache_inode_def split: if_splits)
  next
    case (Some d1)
    obtain i1 p1 where i1: "d_inode d1 = Some i1" "i_private i1 = Some p1" "unset_write_on_close p1 = unset_write_on_close p"
      using sync_keeps_flag [OF s [unfolded Some] assms(2,3)] by blast
    then show ?thesis using assms(1) s Some
      by (auto simp: fcache_file_close_def fcache_inode_def set_cache_def split: if_splits option.splits)
  qed
qed

text \<open>A file that is not writable for its owner is left so on the remote side and in the inode.\<close>

lemma unset_write_spec:
  assumes "d_path v d = Some ns" and "c_str (snd (get_name ns (v_stk v))) = name" and "dentry_inode v d = Some (a, vn)"
    and "i_private (vn_inode vn) = Some p"
    and "op_chmod fops (v_sb v) name (i_mode (vn_inode vn) AND NOT S_IWUSR) = Some (0, name', w1)"
  shows "\<exists>v1 vn1. unset_write fops d v = Some v1 \<and> dentry_inode v1 d = Some (a, vn1) \<and>
    i_private (vn_inode vn1) = Some p \<and>
    (if unset_write_on_close p then v_sb v1 = w1 \<and> i_mode (vn_inode vn1) = i_mode (vn_inode vn) AND NOT S_IWUSR else v1 = v)"
proof (cases "unset_write_on_close p")
  case True
  obtain gn nm where gn: "get_name ns (v_stk v) = (gn, nm)" "\<not> gn < 0" "c_str nm = name"
    using assms(2) get_name_not_negative [of ns "v_stk v"] by (cases "get_name ns (v_stk v)") auto
  let ?f = "\<lambda>vn. vn\<lparr>vn_inode := (vn_inode vn)\<lparr>i_mode := i_mode (vn_inode vn) AND NOT S_IWUSR\<rparr>\<rparr>"
  have "unset_write fops d v = Some (upd_inode a ?f (v\<lparr>v_sb := w1\<rparr>))"
    using assms gn True by (simp add: unset_write_def vfs_name_def)
  moreover have "dentry_inode (upd_inode a ?f (v\<lparr>v_sb := w1\<rparr>)) d = Some (a, ?f vn)"
    using assms(3) by (auto simp: dentry_inode_def vfs_simps elim!: bind_SomeE)
  ultimately show ?thesis using assms(4) True by (simp add: vfs_simps)
next
  case False
  with assms(3,4) show ?thesis by (simp add: unset_write_def)
qed

end
