(* ===== verification/Spec2Isabelle.thy ===== *)
theory Spec2Isabelle
  imports Instances ExampleMount ExampleHost FileVfs
begin

text \<open>
  shfs mounts a directory of a remote host through a shell: the kernel module (\<open>src/module\<close>)
  writes command lines to a socket, at whose other end \<open>shfsmount\<close> (\<open>src/tool\<close>) has started ssh
  with a small server, a Perl program or a shell script. This development models the module and
  the Perl server and proves what their composition does to the remote files, and what it does
  when things go wrong.

  The parts, the theories that model them, and how the state corresponds.

  \<^item> \<open>Prelude\<close>: C integers (\<open>u32\<close>, \<open>u64\<close>, \<open>s32\<close> wrap around), C strings, numbers in text, buffers
    (\<open>blit\<close>) and files as functions from positions to bytes (\<open>fslice\<close>, \<open>patch\<close>), and the constants of
    \<open>shfs.h\<close> and \<open>shfs_fs.h\<close>.
  \<^item> \<open>World\<close>: the structures of \<open>shfs_fs_sb.h\<close>, \<open>shfs_fs_i.h\<close> and \<open>shfs.h\<close> as records. The record
    \<open>world\<close> is the super block with the credentials, signals and clock of the running task; a dentry is
    its path and its inode. Also \<open>get_name\<close> of \<open>proc.c\<close>.
  \<^item> \<open>Proc\<close>: the socket layer of \<open>proc.c\<close>: lock, \<open>sock_write\<close>, \<open>sock_read\<close>, \<open>sock_readln\<close>,
    \<open>clear_garbage\<close>. \<open>ProcSpec\<close> states the connection as a locale: the bytes on their way and the state
    of the peer, and what sending, reading and reading a line do to them.
  \<^item> \<open>ShellText\<close>: what \<open>shell.c\<close> composes and parses: quoting, credentials, dates, lines of \<open>ls\<close>.
    \<open>ShellTextSpec\<close> proves it against reference definitions.
  \<^item> \<open>Shell\<close>: every operation of \<open>shell_fops\<close>. \<open>ShellSafe\<close> shows what holds of reads and writes
    whatever the peer answers.
  \<^item> \<open>FCache\<close>: the file cache, \<open>fcache.c\<close>. \<open>FCacheSpec\<close> has the invariant of a cache and the view of
    a file through it, and the locale \<open>remote_file\<close>, all the cache needs of the remote side;
    \<open>FCacheWrite\<close> and \<open>FCacheFile\<close> prove the operations inside it, \<open>FCacheLimits\<close> what happens
    at the edges.
  \<^item> \<open>PerlServer\<close>: the Perl program of \<open>perl-code.in\<close> (\<open>perl-code.h\<close> is the text that is sent) as a
    machine that is fed characters. \<open>PerlSpec\<close> and \<open>Protocol\<close> show that it takes the words out of a line
    that the client put in. \<open>PerlHost\<close> has the commands that call the remote host, whose system calls are
    the record \<open>perl_host\<close>; \<open>PerlHostSpec\<close> shows which calls the operations of the client end in.
  \<^item> \<open>FileServer\<close>: a file server behind the socket as a locale, in which \<open>shell_read\<close> and \<open>shell_write\<close>
    are exact; it is a sublocale of \<open>remote_file\<close>. \<open>EndToEnd\<close> interprets it on the Perl server.
  \<^item> \<open>FileOps\<close>: \<open>file.c\<close> and \<open>ioctl.c\<close>; \<open>Options\<close>: the mount options of \<open>proc.c\<close>; \<open>Attr\<close>: attribute
    changes of \<open>proc.c\<close>.
  \<^item> \<open>Vfs\<close>: the kernel's dentries and inodes as a store with addresses (the record \<open>vfs\<close> around the
    \<open>world\<close>), and \<open>inode.c\<close> on it; \<open>Dir\<close>: \<open>dir.c\<close> and \<open>symlink.c\<close>; \<open>DirCache\<close>: \<open>shfs_readdir\<close> and
    \<open>dcache.c\<close>. \<open>VfsSpec\<close> has the invariant of the store, \<open>DirSpec\<close> a step relation that keeps it and the
    effects of the operations, \<open>DirCacheSpec\<close>, \<open>DirFill\<close> and \<open>DirListing\<close> what a reader of a directory
    is given; \<open>DirServer\<close> joins them to the shell client and the server.
  \<^item> \<open>Super\<close>: mounting and unmounting, the rest of \<open>inode.c\<close>; \<open>SuperSpec\<close>: the type of a mount, which any
    text of options leaves, and what the root is. \<open>FileVfs\<close>: open files on the store, the operations of
    \<open>file.c\<close> from open to release.
  \<^item> \<open>MountTool\<close>: \<open>shfsmount.c\<close> and \<open>shfsumount.c\<close>: arguments, options, the command that connects, the text
    of options for the kernel, mtab; \<open>MountSpec\<close> joins it to the kernel's \<open>parse_options\<close>. \<open>Handshake\<close>: \<open>proto.c\<close>,
    the start of the server; \<open>HandshakeSpec\<close>: what it leaves, over a shell that turns into the Perl server.
  \<^item> \<open>Example\<close>: a concrete mount; \<open>Instances\<close>: the properties of the component theories applied on it;
    \<open>ExampleVfs\<close>: a concrete store and the properties of inodes and directories on it; \<open>ExampleMount\<close>: a
    user, a host and a shell, and the properties of mounting on them; \<open>ExampleHost\<close>: a host that keeps links.

  Conventions. The outer option of an operation is termination: loops that may not end are
  \<open>partial_function (option)\<close>, None is a call that never returns (an endless loop, or a task that
  waits for a lock it holds); a theorem that gives \<open>Some\<close> shows that the call returns. There is no
  fuel but the bound of 100000 lines in \<open>clear_garbage\<close>, which is the code's. Results are the C
  results, errors negative. An operation that rewrites a path in its caller's buffer answers the
  path.

  The kernel is a set of parameters: the synchronous I/O on the socket (\<open>sockops\<close>), the allocator,
  \<open>mktime\<close>, \<open>fget\<close>, \<open>inode_change_ok\<close>. The main theorems are about the Perl server's I/O, a
  definition, and hold for any behaviour of its commands that call the host (\<open>other\<close>), of which \<open>perl_rest\<close> is the code's.

  Not modelled: the page cache of files, the generic reads and \<open>do_sync_write\<close> on it
  (\<open>shfs_file_commitwrite\<close>, which would call \<open>fcache_file_write\<close>, is commented out in \<open>file.c\<close>);
  concurrency (an operation holds the lock from its command to its answer); debug output; the shell server
  (\<open>shell-code.in\<close>), whose commands are other programs; of the tools forking, signals, sockets and terminals.
\<close>

section \<open>A file over all layers\<close>





text \<open>
  C4: A write through the cache takes all the bytes and patches the view of the file with them,
  wherever they fall on the bytes the cache holds, with as many flushes in between as it takes;
  it uses one slot of the cache if the file had none.
\<close>

theorem cached_write:
  assumes "fsize_ok S" and "remote_ok w name" and "fcache_size w = int S"
    and "fd_ok S d (remote_bytes w name)" and "fd_name d stk name"
    and "cache_of d = None \<Longrightarrow> can_alloc mm w S"
    and "offset + length buf < 4294967296" and "length buf < 2147483648" and "buf \<noteq> []"
  shows "\<exists>d' w'. fcache_file_write (shell_fops (perl_so other) mktime) mm stk w d offset (length buf) buf =
      Some (int (length buf), d', w') \<and>
    fd_view d' (remote_bytes w' name) = patch (fd_view d (remote_bytes w name)) offset buf \<and>
    fd_ok S d' (remote_bytes w' name) \<and> remote_ok w' name \<and>
    fcache_free w' = fcache_free w - (if cache_of d = None then 1 else 0)"
  using perl.remote.file_write [OF assms(1) _ assms(3) _ assms(5-9), of other mktime] assms(2,4)
  unfolding remote_ok_def remote_bytes_def by blast

theorem cached_write_witness:
  "\<exists>d' w'. fcache_file_write ex_fops ex_mm ex_stk ex_world ex_dentry 1 (length ''ipp'') ''ipp'' =
      Some (int (length ''ipp''), d', w') \<and>
    fd_view d' (remote_bytes w' ''/f'') = patch (fd_view ex_dentry (remote_bytes ex_world ''/f'')) 1 ''ipp'' \<and>
    fd_ok ex_size d' (remote_bytes w' ''/f'') \<and> remote_ok w' ''/f'' \<and>
    fcache_free w' = fcache_free ex_world - (if cache_of ex_dentry = None then 1 else 0)"
  by (rule cached_write [OF ex_fsize(1) ex_ok ex_fsize(2) ex_dentry_ok(1,3) ex_alloc(1)]) simp_all

text \<open>
  A flush makes the remote file equal to the view of its users and leaves that view alone.
\<close>

theorem cached_sync:
  assumes "fsize_ok S" and "remote_ok w name" and "fcache_size w = int S"
    and "fd_ok S d (remote_bytes w name)" and "fd_name d stk name"
  shows "\<exists>d' w'. fcache_file_sync (shell_fops (perl_so other) mktime) stk w (Some d) =
      Some (0, Some d', w') \<and> remote_bytes w' name = fd_view d (remote_bytes w name) \<and>
    fd_view d' (remote_bytes w' name) = fd_view d (remote_bytes w name) \<and>
    fd_ok S d' (remote_bytes w' name) \<and> remote_ok w' name"
  using perl.remote.file_sync [OF assms(1) _ assms(3) _ assms(5), of other mktime] assms(2,4)
  unfolding remote_ok_def remote_bytes_def by blast

theorem cached_sync_witness:
  "\<exists>d' w'. fcache_file_sync ex_fops ex_stk ex_world
      (Some ex_dentry) = Some (0, Some d', w')"
  using cached_sync [OF ex_fsize(1) ex_ok ex_fsize(2) ex_dentry_ok(1,3), where other = "\<lambda>_ p. ([], p)" and mktime = "\<lambda>_ _ _ _ _ _. 0"] by blast

text \<open>
  Closing a file flushes it, gives its cache up and returns the slot: the number of free
  slots and of cached files together stays the same.
\<close>

theorem cached_close:
  assumes "fsize_ok S" and "remote_ok w name" and "fcache_size w = int S"
    and "fd_ok S d (remote_bytes w name)" and "fd_name d stk name"
  shows "\<exists>d' w'. fcache_file_close (shell_fops (perl_so other) mktime) stk w (Some d) =
      Some (0, Some d', w') \<and> remote_bytes w' name = fd_view d (remote_bytes w name) \<and>
    cache_of d' = None \<and> remote_ok w' name \<and>
    fcache_free w' = fcache_free w + (if cache_of d = None then 0 else 1)"
  using perl.remote.file_close [OF assms(1) _ assms(3) _ assms(5), of other mktime] assms(2,4)
  unfolding remote_ok_def remote_bytes_def by blast

theorem cached_close_witness:
  "\<exists>d' w'. fcache_file_close ex_fops ex_stk ex_world
      (Some ex_dentry) = Some (0, Some d', w') \<and> fcache_free w' = 10"
  using cached_close [OF ex_fsize(1) ex_ok ex_fsize(2) ex_dentry_ok(1,3), where other = "\<lambda>_ p. ([], p)" and mktime = "\<lambda>_ _ _ _ _ _. 0"] by (auto simp: ex_dentry_ok ex_world_def)

section \<open>From the command line to the files\<close>

text \<open>
  With the Perl program started at the other end of its socket, \<open>shfsmount\<close> initialises it and mounts;
  after that every file below the root of the mount can be used through the module with its bytes.
\<close>

lemma get_ugid_plain: "\<not> preserve_own w \<Longrightarrow> get_ugid w 3072 \<noteq> None"
  by (simp add: get_ugid_def)



section \<open>Flushing and giving up an open file\<close>

text \<open>
  C5: Over the Perl server, a flush and a release of an open file send what its users wrote: the remote file
  becomes what they saw. The release also gives up the cache and returns its slot; lock and connection
  are free afterwards and the store is well-formed.
\<close>

theorem file_flush_release:
  assumes "vfs_ok v" and "d_path v d = Some ns" and "dentry_inode v d = Some (a, vn)"
    and "c_str (snd (get_name ns (v_stk v))) = name" and "remote_ok (v_sb v) name"
    and "fsize_ok S" and "fcache_size (v_sb v) = int S"
    and "e = \<lparr>d_names = ns, d_inode = Some (vn_inode vn)\<rparr>" and "fd_ok S e (remote_bytes (v_sb v) name)"
    and "\<And>p. i_private (vn_inode vn) = Some p \<Longrightarrow> \<not> unset_write_on_close p"
  shows "(\<exists>v'. shfs_file_flush (shell_fops (perl_so other) mktime) d v = Some (0, v') \<and>
      remote_bytes (v_sb v') name = fd_view e (remote_bytes (v_sb v) name) \<and> remote_ok (v_sb v') name \<and> vfs_ok v' \<and>
      fcache_free (v_sb v') = fcache_free (v_sb v)) \<and>
    (\<exists>v' vn'. shfs_file_release (shell_fops (perl_so other) mktime) d v = Some (0, v') \<and>
      remote_bytes (v_sb v') name = fd_view e (remote_bytes (v_sb v) name) \<and> remote_ok (v_sb v') name \<and> vfs_ok v' \<and>
      dentry_inode v' d = Some (a, vn') \<and> cache_of \<lparr>d_names = ns, d_inode = Some (vn_inode vn')\<rparr> = None \<and>
      fcache_free (v_sb v') = fcache_free (v_sb v) + (if cache_of e = None then 0 else 1))"
proof -
  let ?fops = "shell_fops (perl_so other) mktime"
  have nm: "fd_name e (v_stk v) name" using assms(4,8) by (simp add: fd_name_def)
  have nz: "fcache_size (v_sb v) \<noteq> 0" using assms(6,7) by (simp add: fsize_ok_def)
  note g = assms(5) [unfolded remote_ok_def] and fd = assms(9) [unfolded remote_bytes_def]
  have free: "\<not> shfs_mutex w" if "remote_ok w name" for w using that by (simp add: remote_ok_def server_good_def)
  have inode: "\<exists>i. d_inode e' = Some i \<and> i_private i \<noteq> None" if "fd_ok S e' f" for e' f
    using that by (auto simp: fd_ok_def inode_info_ok_def split: option.splits if_splits)
  obtain e1 w1 where s: "fcache_file_sync ?fops (v_stk v) (v_sb v) (Some e) = Some (0, Some e1, w1)"
    "remote_bytes w1 name = fd_view e (remote_bytes (v_sb v) name)" "remote_ok w1 name" "fcache_free w1 = fcache_free (v_sb v)"
    "fd_ok S e1 (remote_bytes w1 name)"
    using perl.remote.file_sync [OF assms(6) g assms(7) fd nm, of other mktime] unfolding remote_ok_def remote_bytes_def by blast
  obtain i1 where i1: "d_inode e1 = Some i1" "i_private i1 \<noteq> None" using inode [OF s(5)] by blast
  obtain v1 where v1: "flush_with (fcache_file_sync ?fops (v_stk v)) d v = Some (0, v1)" "v_sb v1 = w1" "vfs_ok v1"
    using flush_with_ok [where sync = "fcache_file_sync ?fops (v_stk v)", OF assms(1-3) nz s(1) [unfolded assms(8)] i1 free [OF s(3)]] by blast
  obtain e2 w2 where c: "fcache_file_close ?fops (v_stk v) (v_sb v) (Some e) = Some (0, Some e2, w2)"
    "remote_bytes w2 name = fd_view e (remote_bytes (v_sb v) name)" "remote_ok w2 name" "cache_of e2 = None"
    "fcache_free w2 = fcache_free (v_sb v) + (if cache_of e = None then 0 else 1)" "fd_ok S e2 (remote_bytes w2 name)"
    using perl.remote.file_close [OF assms(6) g assms(7) fd nm, of other mktime] unfolding remote_ok_def remote_bytes_def by blast
  obtain i2 where i2: "d_inode e2 = Some i2" "i_private i2 \<noteq> None" using inode [OF c(6)] by blast
  obtain v2 where v2: "flush_with (fcache_file_close ?fops (v_stk v)) d v = Some (0, v2)" "v_sb v2 = w2" "vfs_ok v2"
    "dentry_inode v2 d = Some (a, vn\<lparr>vn_inode := i2\<rparr>)"
    using flush_with_ok [where sync = "fcache_file_close ?fops (v_stk v)", OF assms(1-3) nz c(1) [unfolded assms(8)] i2 free [OF c(3)]] by blast
  have keep: "\<not> unset_write_on_close q" if "i_private i2 = Some q" for q
  proof -
    obtain p where p: "i_private (vn_inode vn) = Some p" using inode [OF assms(9)] by (auto simp: assms(8))
    have "d_inode e = Some (vn_inode vn)" by (simp add: assms(8))
    from close_keeps_flag [OF c(1) this p] assms(10) [OF p] i2(1) that show ?thesis by auto
  qed
  have "unset_write ?fops d v2 = Some v2"
    using v2(4) keep i2(2) by (auto simp: unset_write_def)
  then have rel: "shfs_file_release ?fops d v = Some (0, v2)" using v2(1) by (simp add: shfs_file_release_def)
  have fl: "shfs_file_flush ?fops d v = Some (0, v1)" using v1(1) by (simp add: shfs_file_flush_def do_file_flush_def)
  have "cache_of \<lparr>d_names = ns, d_inode = Some (vn_inode (vn\<lparr>vn_inode := i2\<rparr>))\<rparr> = None"
    using c(4) i2(1) by (simp add: cache_of_def)
  with rel fl v1(2,3) v2(2,3,4) s(2,3,4) c(2,3,5) show ?thesis by metis
qed

theorem file_flush_release_witness:
  "(\<exists>v'. shfs_file_flush ex_fops 3 ex_vfs = Some (0, v') \<and>
      remote_bytes (v_sb v') ''/f'' = fd_view ex_dentry (remote_bytes (v_sb ex_vfs) ''/f'') \<and>
      remote_ok (v_sb v') ''/f'' \<and> vfs_ok v' \<and> fcache_free (v_sb v') = fcache_free (v_sb ex_vfs)) \<and>
    (\<exists>v' vn'. shfs_file_release ex_fops 3 ex_vfs = Some (0, v') \<and>
      remote_bytes (v_sb v') ''/f'' = fd_view ex_dentry (remote_bytes (v_sb ex_vfs) ''/f'') \<and>
      remote_ok (v_sb v') ''/f'' \<and> vfs_ok v' \<and> dentry_inode v' 3 = Some (2, vn') \<and>
      cache_of \<lparr>d_names = [''f''], d_inode = Some (vn_inode vn')\<rparr> = None \<and>
      fcache_free (v_sb v') = fcache_free (v_sb ex_vfs) + (if cache_of ex_dentry = None then 0 else 1))"
proof (rule file_flush_release [OF ex_vfs_ok ex_vfs_path _ ex_vfs_name _ ex_fsize(1)])
  show "dentry_inode ex_vfs 3 = Some (2, ex_vnode)" by (simp add: dentry_inode_def) (simp add: ex_vfs_defs)
  show "ex_dentry = \<lparr>d_names = [''f''], d_inode = Some (vn_inode ex_vnode)\<rparr>" by (simp add: ex_dentry_def ex_vnode_def)
qed (use ex_ok ex_fsize(2) ex_dentry_ok(1) in \<open>simp_all add: ex_vfs_sb\<close>, simp add: ex_vnode_def ex_inode_def)

section \<open>The shell client over the server\<close>



text \<open>
  C9: \<open>shell_write\<close> patches the remote file with the bytes, growing it where they go past its
  end, for any block size the cache size gives.
\<close>

theorem shell_write_exact:
  assumes "remote_ok w name" and "n \<le> length buf" and "n < 2147483648" and "off + n < 4294967296"
  shows "\<exists>w'. shell_write (perl_so other) w name off n buf ino = Some (int n, name, w') \<and>
    remote_bytes w' name = patch (remote_bytes w name) off (take n buf) \<and> remote_ok w' name"
  using perl.shell_write_ok [of w name n buf off other ino] assms
  unfolding remote_ok_def remote_bytes_def by blast

theorem shell_write_exact_witness:
  "\<exists>w'. shell_write ex_so ex_world ''/f'' 4 2 ''abc'' 3 = Some (int 2, ''/f'', w') \<and>
    remote_bytes w' ''/f'' = patch (remote_bytes ex_world ''/f'') 4 (take 2 ''abc'') \<and> remote_ok w' ''/f''"
  by (rule shell_write_exact [OF ex_ok]) simp_all

text \<open>
  Removing a file over the Perl server: whatever quotes the path has, the quoting and the
  server's parser hand it over unchanged, exactly that file goes, and a file that is not there is
  answered as such. The path buffer comes back quoted.
\<close>

theorem unlink_exact:
  assumes "perl_at w p" and "legal_path name"
  shows "\<exists>w' p'. shell_unlink (perl_so other) w name =
      Some (if perl_bytes p name = None then - ENOENT else 0, quoted name, w') \<and>
    conn_at pc_out pc_peer w' p' [] \<and> perl_ready p' (preserve_own w') \<and>
    perl_bytes p' = (perl_bytes p)(name := None)"
  using unlink_over_perl [of w p name other] assms unfolding perl_at_def legal_path_def by blast

theorem unlink_exact_witness:
  "\<exists>w' p'. shell_unlink ex_so ex_world ''/it's'' =
      Some (if perl_bytes ex_perl ''/it's'' = None then - ENOENT else 0, quoted ''/it's'', w') \<and>
    conn_at pc_out pc_peer w' p' [] \<and> perl_ready p' (preserve_own w') \<and>
    perl_bytes p' = (perl_bytes ex_perl)(''/it's'' := None)"
  by (rule unlink_exact [OF ex_at]) (simp add: legal_path_def quote_char_def)

text \<open>
  C13: Truncating over the Perl server. The size arrives modulo \<open>2 ^ 32\<close>, and a size of 0, which
  the client encodes for \<open>dd\<close> as one block of size 1 at count 0, leaves one byte.
\<close>

theorem trunc_exact:
  assumes "perl_at w p" and "legal_path name" and "perl_bytes p name = Some b"
  shows "\<exists>w' p'. shell_trunc (perl_so other) w name n = Some (0, quoted name, w') \<and>
    conn_at pc_out pc_peer w' p' [] \<and>
    perl_bytes p' = (perl_bytes p)(name := Some (resized b (if n = 0 then 1 else u32 (int n))))"
  using assms unfolding perl_at_def legal_path_def by (intro trunc_over_perl) simp_all

theorem trunc_exact_witness:
  "\<exists>w' p'. shell_trunc ex_so ex_world ''/f'' 0 = Some (0, quoted ''/f'', w') \<and>
    conn_at pc_out pc_peer w' p' [] \<and>
    perl_bytes p' = (perl_bytes ex_perl)
      (''/f'' := Some (resized ''hello'' (if (0 :: nat) = 0 then 1 else u32 (int 0))))"
  by (rule trunc_exact [OF ex_at]) (simp_all add: legal_path_def quote_char_def perl_bytes_def ex_perl_def)

section \<open>Directories\<close>





section \<open>Lines and resynchronisation\<close>

text \<open>
  C17: \<open>sock_readln\<close> answers the next line of what the peer sent and leaves what follows it to be
  read next, however the bytes are split between the line buffer and the socket.
\<close>

theorem readln_next_line:
  assumes "conn_at pc_out pc_peer w p (line @ NL # rest)" and "NL \<notin> set line" and "NUL \<notin> set line"
    and "length line < count" and "length line < READLNBUF_SIZE"
  shows "\<exists>w'. sock_readln (perl_so other) w buffer count = Some (int (length line), line, w') \<and>
    conn_at pc_out pc_peer w' p rest \<and> same_but_conn w w'"
  by (rule perl.readln_ok [OF assms])

theorem readln_next_line_witness:
  "\<exists>w'. sock_readln ex_so (ex_world\<lparr>sock := Some (ex_conn\<lparr>pc_out := ''00'' @ NL # ''abc''\<rparr>),
        readlnbuf := ''### 2''\<rparr>) [] 100 = Some (int (length ''### 200''), ''### 200'', w') \<and>
    conn_at pc_out pc_peer w' ex_perl ''abc'' \<and>
    same_but_conn (ex_world\<lparr>sock := Some (ex_conn\<lparr>pc_out := ''00'' @ NL # ''abc''\<rparr>),
        readlnbuf := ''### 2''\<rparr>) w'"
  by (rule readln_next_line) (simp_all add: conn_at_def ex_defs)



section \<open>A window out of place\<close>

text \<open>
  C19: A file with a dirty run that ends inside a page: a read of that page flushes the run and
  fills the window from the page's start, but the window keeps the position of the run's end. The
  next read hits it behind the page and is given the page's own last bytes instead of the bytes
  that are there.
\<close>

theorem window_misplaced:
  assumes "fsize_ok S" and "remote_ok w name" and "fcache_size w = int S"
    and "fc_ok S c (remote_bytes w name)" and "fc_type c = FCACHE_WRITE"
    and "fc_offset c \<le> page" and "fc_offset c + fc_count c = page + x" and "0 < x" and "x < PAGE_SIZE"
    and "PAGE_SIZE dvd page" and "page + S + 3 * PAGE_SIZE < 4294967296"
  shows "\<exists>c' w'. fcache_read_cached (shell_fops (perl_so other) mktime) ino c name page PAGE_SIZE w =
      Some (int PAGE_SIZE, fslice (remote_bytes w' name) page PAGE_SIZE, c', w') \<and>
    remote_bytes w' name = fc_view c (remote_bytes w name) \<and>
    fcache_hit c' (page + PAGE_SIZE) PAGE_SIZE = x \<and>
    take x (drop (page + PAGE_SIZE - fc_offset c') (fc_data c')) =
      fslice (remote_bytes w' name) (page + PAGE_SIZE - x) x"
  using perl.remote.unaligned_flush [OF assms(1) _ assms(3) _ assms(5-11)]
    assms(2,4) unfolding remote_ok_def remote_bytes_def by blast

theorem window_misplaced_witness:
  "\<exists>c' w'. fcache_read_cached ex_fops 3 ex_dirty ''/f'' 0 PAGE_SIZE ex_world =
      Some (int PAGE_SIZE, fslice (remote_bytes w' ''/f'') 0 PAGE_SIZE, c', w') \<and>
    remote_bytes w' ''/f'' = fc_view ex_dirty (remote_bytes ex_world ''/f'') \<and>
    fcache_hit c' (0 + PAGE_SIZE) PAGE_SIZE = 3 \<and>
    take 3 (drop (0 + PAGE_SIZE - fc_offset c') (fc_data c')) =
      fslice (remote_bytes w' ''/f'') (0 + PAGE_SIZE - 3) 3"
  by (rule window_misplaced [OF ex_fsize(1) ex_ok ex_fsize(2)])
    (simp_all add: ex_dirty_def fc_ok_def fc_wf_def)

section \<open>The memory of the cache
\<close>

text \<open>
  C20: Whatever the server answers, a write through the cache stays inside the cache's buffer: the
  invariant of the cache of the file is kept.
\<close>

theorem write_memory_safe:
  assumes "bounded_io so" and "mem_sound mm" and "0 < S" and "S < 2147483648"
    and "fcache_size w = int S" and "fd_safe S d"
    and "fcache_file_write (shell_fops so mktime) mm stk w d offset (length buf) buf = Some (res, d', w')"
  shows "fd_safe S d'"
  by (rule file_write_safe [OF shell_keeps_size [OF assms(1)] assms(2-7)])

theorem write_memory_safe_witness:
  "\<exists>d' w'. fcache_file_write ex_fops ex_mm ex_stk ex_world ex_dentry 1 (length ''ipp'') ''ipp'' =
      Some (int (length ''ipp''), d', w') \<and> fd_safe ex_size d'"
proof -
  obtain d' w' where r: "fcache_file_write ex_fops ex_mm ex_stk ex_world ex_dentry 1 (length ''ipp'') ''ipp'' =
      Some (int (length ''ipp''), d', w')"
    using perl.remote.file_write [OF ex_fsize(1) _ ex_fsize(2) _ ex_dentry_ok(3) ex_alloc(1), of 1 "''ipp''"
        "\<lambda>_ p. ([], p)" "\<lambda>_ _ _ _ _ _. 0"] ex_ok ex_dentry_ok(1)
    by (simp add: remote_ok_def) blast
  have "fd_safe ex_size d'"
    by (rule write_memory_safe [OF ex_bounded ex_alloc(3) _ _ ex_fsize(2) _ r])
      (simp_all add: fd_safe_def ex_dentry_ok)
  with r show ?thesis by blast
qed

text \<open>
  C21: Whatever the server answers, a read through the cache keeps the invariant of the buffer and
  stores at most count bytes.
\<close>

theorem read_memory_safe:
  assumes "bounded_io so" and "mem_sound mm" and "0 < S" and "S < 2147483648"
    and "fcache_size w = int S" and "fd_safe S d"
    and "fcache_file_read (shell_fops so mktime) mm stk w (Some d) offset count =
      Some (res, bs, Some d', w')"
  shows "fd_safe S d' \<and> length bs \<le> count"
  by (rule file_read_safe [OF shell_keeps_size [OF assms(1)] assms(2-7)])

theorem read_memory_safe_witness:
  "\<exists>res bs d' w'. fcache_file_read ex_fops ex_mm ex_stk ex_world (Some ex_dentry) 0 7 =
      Some (res, bs, Some d', w') \<and> fd_safe ex_size d' \<and> length bs \<le> 7"
proof -
  obtain res bs d' w' where r: "fcache_file_read ex_fops ex_mm ex_stk ex_world (Some ex_dentry) 0 7 =
      Some (res, bs, Some d', w')"
    using perl.remote.file_read [OF ex_fsize(1) _ ex_fsize(2) _ ex_dentry_ok(3) ex_alloc(1), of 0 7
        "\<lambda>_ p. ([], p)" "\<lambda>_ _ _ _ _ _. 0"] ex_ok ex_dentry_ok(1)
    by (simp add: remote_ok_def) blast
  have "fd_safe ex_size d' \<and> length bs \<le> 7"
    by (rule read_memory_safe [OF ex_bounded ex_alloc(3) _ _ ex_fsize(2) _ r])
      (simp_all add: fd_safe_def ex_dentry_ok)
  with r show ?thesis by blast
qed

end
